theory Spec2Isabelle
  imports Complex_Main "HOL-Library.AList"
begin

section \<open>Python values\<close>

text \<open>
  A Python \<open>str\<close> is a sequence of Unicode code points, and the sources hold Arabic
  literals, so a string is a list of code points. \<open>ustr\<close> writes an ASCII literal.
\<close>

type_synonym pystr = "nat list"

definition ustr :: "string \<Rightarrow> pystr" where
  "ustr cs = map of_char cs"

text \<open>
  \<open>str.isspace\<close>, which is also the class \<open>\s\<close> of \<open>re\<close> on \<open>str\<close> patterns and the
  set that \<open>str.strip\<close> and \<open>str.split\<close> use: the ASCII controls 9-13 and 28-31, the
  space, and the Unicode separators.
\<close>

definition is_space :: "nat \<Rightarrow> bool" where
  "is_space c =
     ((9 \<le> c \<and> c \<le> 13) \<or> (28 \<le> c \<and> c \<le> 32) \<or> c = 133 \<or> c = 160 \<or> c = 5760
      \<or> (8192 \<le> c \<and> c \<le> 8202) \<or> c = 8232 \<or> c = 8233 \<or> c = 8239 \<or> c = 8287
      \<or> c = 12288)"

section \<open>Floats\<close>

text \<open>
  A Python \<open>float\<close> is a binary64 number. A finite one is the real number it denotes,
  and an operation of Python on floats (\<open>/\<close> on two \<open>int\<close>s included) returns the
  exact result rounded to the nearest binary64 number, ties to the even significand:
  \<open>x / y\<close> is \<open>binary64 (x / y)\<close>, and a decimal literal \<open>0.7\<close> that enters a comparison
  or an operation is \<open>binary64 (7 / 10)\<close>. The spacing of the binary64 numbers around
  \<open>x\<close> is \<open>2 ^ (e - 52)\<close> for the exponent \<open>e\<close> of \<open>x\<close>, which is at least \<open>-1022\<close>
  (below it the numbers are subnormal). Results of magnitude \<open>2 ^ 1024\<close> or more, which
  Python gives as \<open>inf\<close>, are not modelled; the scores that go through \<open>binary64\<close> lie
  between 0 and 1.
\<close>

definition round_half_even :: "real \<Rightarrow> int" where
  "round_half_even q =
     (let f = \<lfloor>q\<rfloor>; r = q - of_int f
      in if r < 1 / 2 then f
         else if 1 / 2 < r then f + 1
         else if even f then f else f + 1)"

definition binary64 :: "real \<Rightarrow> real" where
  "binary64 x =
     (if x = 0 then 0
      else
        let e = max \<lfloor>log 2 \<bar>x\<bar>\<rfloor> (- 1022) - 52;
            u = 2 powr of_int e
        in of_int (round_half_even (x / u)) * u)"

section \<open>The libraries\<close>

text \<open>
  What the sources take from the standard library and from \<open>numpy\<close> is not part of
  them; it is the parameter \<open>L\<close> of everything that uses it:

  \<^item> \<open>lib_lower L before c after\<close>: what \<open>str.lower\<close> puts for the code point \<open>c\<close> that
    stands between \<open>before\<close> and \<open>after\<close>, for a \<open>c\<close> that is neither ASCII nor whitespace
    (the case mapping of the Unicode database, which can give several code points and
    can depend on the neighbours);
  \<^item> \<open>lib_word L\<close>: the class \<open>\w\<close> of \<open>re\<close>;
  \<^item> \<open>lib_ratio L a b\<close>: \<open>difflib.SequenceMatcher(None, a, b).ratio()\<close>;
  \<^item> \<open>lib_repr L x\<close>: \<open>str(x)\<close> of a number;
  \<^item> \<open>lib_norm L v\<close>: \<open>np.linalg.norm(v)\<close>, and \<open>lib_dot L a b\<close>: \<open>np.dot(a, b)\<close> on two
    arrays of one shape (the order in which \<open>numpy\<close> adds up is not specified);
  \<^item> \<open>lib_mul L x y\<close> and \<open>lib_div L x y\<close>: \<open>x * y\<close> and \<open>x / y\<close> on \<open>np.float64\<close>. A
    division by zero raises nothing there: it gives \<open>inf\<close> or \<open>nan\<close>, which have no real
    number; \<open>lib_div L x 0\<close> is whatever stands for them.
\<close>

record pylib =
  lib_lower :: "pystr \<Rightarrow> nat \<Rightarrow> pystr \<Rightarrow> pystr"
  lib_word :: "nat \<Rightarrow> bool"
  lib_ratio :: "pystr \<Rightarrow> pystr \<Rightarrow> real"
  lib_repr :: "real \<Rightarrow> pystr"
  lib_norm :: "real list \<Rightarrow> real"
  lib_dot :: "real list \<Rightarrow> real list \<Rightarrow> real"
  lib_mul :: "real \<Rightarrow> real \<Rightarrow> real"
  lib_div :: "real \<Rightarrow> real \<Rightarrow> real"


section \<open>Strings\<close>

text \<open>
  \<open>str.lower\<close>. An ASCII capital becomes its small letter; every other ASCII code point
  and every whitespace code point is left as it is; for the rest the case mapping of
  the library is asked, with the neighbours of the code point.
\<close>

definition lower_cp :: "nat \<Rightarrow> nat" where
  "lower_cp c = (if 65 \<le> c \<and> c \<le> 90 then c + 32 else c)"

fun lower_from :: "pylib \<Rightarrow> pystr \<Rightarrow> pystr \<Rightarrow> pystr" where
  "lower_from L before [] = []"
| "lower_from L before (c # after) =
     (if c < 128 \<or> is_space c then [lower_cp c] else lib_lower L before c after)
     @ lower_from L (before @ [c]) after"

definition lower :: "pylib \<Rightarrow> pystr \<Rightarrow> pystr" where
  "lower L s = lower_from L [] s"

definition rstrip :: "(nat \<Rightarrow> bool) \<Rightarrow> pystr \<Rightarrow> pystr" where
  "rstrip p s = rev (dropWhile p (rev s))"

definition strip :: "pystr \<Rightarrow> pystr" where
  "strip s = rstrip is_space (dropWhile is_space s)"

text \<open>\<open>old in s\<close> on strings: \<open>old\<close> occurs in \<open>s\<close> as a contiguous run.\<close>

fun contains :: "pystr \<Rightarrow> pystr \<Rightarrow> bool" where
  "contains [] old = (old = [])"
| "contains (c # cs) old = (take (length old) (c # cs) = old \<or> contains cs old)"

text \<open>
  \<open>s.replace(old, new)\<close>: every occurrence of \<open>old\<close>, left to right and without
  overlap. With an empty \<open>old\<close> Python puts \<open>new\<close> before every character and at the end.
\<close>

function replace :: "pystr \<Rightarrow> pystr \<Rightarrow> pystr \<Rightarrow> pystr" where
  "replace old new s =
     (if old = [] then new @ concat (map (\<lambda>c. c # new) s)
      else if s = [] then []
      else if take (length old) s = old then new @ replace old new (drop (length old) s)
      else hd s # replace old new (tl s))"
  by pat_completeness auto
termination
  by (relation "measure (\<lambda>(old, new, s). length s)") auto

declare replace.simps [simp del]

text \<open>A value in a row of the store or in a context record.\<close>

datatype pyval = VStr pystr | VNone | VBool bool | VNum real | VVec "real list"

type_synonym pydict = "(pystr \<times> pyval) list"

section \<open>Regular expressions\<close>

text \<open>
  The fragment of \<open>re\<close> that the sources use: literals, one character of a class,
  \<open>r?\<close>, \<open>[class]*\<close> and \<open>[class]+\<close> (greedy), alternation, sequence, \<open>\b\<close> (over a
  given table of word characters) and \<open>$\<close>. \<open>rx_ends r s i\<close> lists the positions where
  a match of \<open>r\<close> starting at \<open>i\<close> can end, in the order in which the backtracking
  matcher tries them: the head is the match that Python reports.
\<close>

datatype rx =
    Lit pystr
  | Cls "nat \<Rightarrow> bool"
  | Opt rx
  | Star "nat \<Rightarrow> bool"
  | Plus "nat \<Rightarrow> bool"
  | Alt "rx list"
  | Seq "rx list"
  | WordB "nat \<Rightarrow> bool"
  | Eol

definition word_boundary :: "(nat \<Rightarrow> bool) \<Rightarrow> pystr \<Rightarrow> nat \<Rightarrow> bool" where
  "word_boundary w s i =
     ((0 < i \<and> i \<le> length s \<and> w (s ! (i - 1))) \<noteq> (i < length s \<and> w (s ! i)))"

fun rx_ends :: "rx \<Rightarrow> pystr \<Rightarrow> nat \<Rightarrow> nat list" where
  "rx_ends (Lit l) s i = (if take (length l) (drop i s) = l then [i + length l] else [])"
| "rx_ends (Cls p) s i = (if i < length s \<and> p (s ! i) then [Suc i] else [])"
| "rx_ends (Opt r) s i = rx_ends r s i @ [i]"
| "rx_ends (Star p) s i =
     rev (map (\<lambda>k. i + k) [0 ..< Suc (length (takeWhile p (drop i s)))])"
| "rx_ends (Plus p) s i =
     rev (map (\<lambda>k. i + k) [1 ..< Suc (length (takeWhile p (drop i s)))])"
| "rx_ends (Alt rs) s i = concat (map (\<lambda>r. rx_ends r s i) rs)"
| "rx_ends (Seq []) s i = [i]"
| "rx_ends (Seq (r # rs)) s i = concat (map (rx_ends (Seq rs) s) (rx_ends r s i))"
| "rx_ends (WordB w) s i = (if word_boundary w s i then [i] else [])"
| "rx_ends Eol s i =
     (if i = length s \<or> (Suc i = length s \<and> s ! i = 10) then [i] else [])"

text \<open>\<open>re.search(r, s)\<close> finds a match: some start position has one.\<close>

definition re_search :: "rx \<Rightarrow> pystr \<Rightarrow> bool" where
  "re_search r s = list_ex (\<lambda>i. rx_ends r s i \<noteq> []) [0 ..< Suc (length s)]"

text \<open>
  \<open>re.findall(r, s)\<close> and \<open>re.sub(r, repl, s)\<close> scan left to right: the leftmost start
  with a match, its first end, then on from that end (one character further after an
  empty match). \<open>repl\<close> is taken literally: the sources' replacements hold no backslash.
\<close>

function re_findall_from :: "rx \<Rightarrow> pystr \<Rightarrow> nat \<Rightarrow> pystr list" where
  "re_findall_from r s i =
     (if length s < i then []
      else case rx_ends r s i of
             [] \<Rightarrow> re_findall_from r s (Suc i)
           | j # _ \<Rightarrow>
               take (j - i) (drop i s) # re_findall_from r s (if i < j then j else Suc i))"
  by pat_completeness auto
termination
  by (relation "measure (\<lambda>(r, s, i). Suc (length s) - i)") auto

declare re_findall_from.simps [simp del]

definition re_findall :: "rx \<Rightarrow> pystr \<Rightarrow> pystr list" where
  "re_findall r s = re_findall_from r s 0"

function re_sub_from :: "rx \<Rightarrow> pystr \<Rightarrow> pystr \<Rightarrow> nat \<Rightarrow> pystr" where
  "re_sub_from r repl s i =
     (if length s < i then []
      else case rx_ends r s i of
             [] \<Rightarrow> take 1 (drop i s) @ re_sub_from r repl s (Suc i)
           | j # _ \<Rightarrow>
               if i < j then repl @ re_sub_from r repl s j
               else repl @ take 1 (drop i s) @ re_sub_from r repl s (Suc i))"
  by pat_completeness auto
termination
  by (relation "measure (\<lambda>(r, repl, s, i). Suc (length s) - i)") auto

declare re_sub_from.simps [simp del]

definition re_sub :: "rx \<Rightarrow> pystr \<Rightarrow> pystr \<Rightarrow> pystr" where
  "re_sub r repl s = re_sub_from r repl s 0"

section \<open>The grounding validator (llm\_service.py)\<close>

text \<open>The pattern \<open>https?://[^\s<>"]+\<close>.\<close>

definition url_char :: "nat \<Rightarrow> bool" where
  "url_char c = (\<not> is_space c \<and> c \<noteq> 60 \<and> c \<noteq> 62 \<and> c \<noteq> 34)"

definition url_rx :: rx where
  "url_rx = Seq [Lit (ustr ''http''), Opt (Lit (ustr ''s'')), Lit (ustr ''://''), Plus url_char]"

text \<open>
  \<open>normalize_url\<close>: the pattern \<open>[.,;:!)]+$\<close> is deleted, then \<open>rstrip('/')\<close> takes every
  trailing slash away, then the rest is lowered.
\<close>

definition trailing_punct :: "nat \<Rightarrow> bool" where
  "trailing_punct c = (c = 46 \<or> c = 44 \<or> c = 59 \<or> c = 58 \<or> c = 33 \<or> c = 41)"

definition trailing_punct_rx :: rx where
  "trailing_punct_rx = Seq [Plus trailing_punct, Eol]"

definition normalize_url :: "pylib \<Rightarrow> pystr \<Rightarrow> pystr" where
  "normalize_url L u = lower L (rstrip (\<lambda>c. c = 47) (re_sub trailing_punct_rx [] u))"

definition link_removed :: pystr where
  "link_removed = ustr ''[Link removed - not in database]''"

definition link_not_available :: pystr where
  "link_not_available = ustr ''[Link not available in database]''"

text \<open>
  The URLs of one context record: those found in every value that is a non-empty
  string. The source collects them in a set and only tests membership, so the list of
  them in iteration order stands for the set.
\<close>

definition item_urls :: "pydict \<Rightarrow> pystr list" where
  "item_urls item =
     concat (map (\<lambda>(key, v). case v of
                                VStr s \<Rightarrow> if s \<noteq> [] then re_findall url_rx s else []
                              | _ \<Rightarrow> []) item)"

definition validate_urls_against_context :: "pylib \<Rightarrow> pystr \<Rightarrow> pydict list \<Rightarrow> pystr" where
  "validate_urls_against_context L text context =
     (if context = [] then re_sub url_rx link_removed text
      else
        let valid_urls = concat (map item_urls context);
            response_urls = re_findall url_rx text
        in if response_urls = [] then text
           else
             let normalized_valid_urls = set (map (normalize_url L) valid_urls)
             in foldl (\<lambda>validated_text url.
                         if normalize_url L url \<notin> normalized_valid_urls
                         then replace url link_not_available validated_text
                         else validated_text)
                      text response_urls)"


section \<open>The language detector (language\_detector.py)\<close>

datatype LanguageType = ARABIC_EGYPTIAN | ARABIC_FUSHA | ENGLISH | MIXED | UNKNOWN

text \<open>The \<open>value\<close> of each member of the enum.\<close>

fun lang_value :: "LanguageType \<Rightarrow> pystr" where
  "lang_value ARABIC_EGYPTIAN = ustr ''ar_EG''"
| "lang_value ARABIC_FUSHA = ustr ''ar''"
| "lang_value ENGLISH = ustr ''en''"
| "lang_value MIXED = ustr ''mixed''"
| "lang_value UNKNOWN = ustr ''unknown''"

text \<open>
  \<open>egyptian_patterns\<close>: six patterns \<open>\b(a|b|...)\b\<close>, the alternatives given by their
  code points in source order. They are compiled with \<open>IGNORECASE\<close>, which changes
  nothing on the Arabic letters and the space they consist of. \<open>\b\<close> depends on the
  class \<open>\w\<close>, a table of the Unicode database that is not part of the sources: it is
  \<open>lib_word L\<close>.
\<close>

definition egyptian_alternatives :: "pystr list list" where
  "egyptian_alternatives =
     [[[1575, 1586, 1610, 1603], [1573, 1586, 1610, 1603], [1575, 1586, 1575, 1609],
       [1573, 1586, 1575, 1609], [1575, 1610, 1607], [1571, 1610, 1607]],
      [[1593, 1575, 1605, 1604, 32, 1575, 1610, 1607],
       [1593, 1575, 1605, 1604, 1610, 1606, 32, 1575, 1610, 1607],
       [1593, 1575, 1605, 1604, 32, 1575, 1610, 1607, 32, 1610, 1575, 1587, 1591, 1575]],
      [[1578, 1605, 1575, 1605], [1605, 1575, 1588, 1610], [1582, 1604, 1575, 1589],
       [1576, 1602, 1575], [1610, 1575, 32, 1593, 1605],
       [1610, 1575, 32, 1576, 1575, 1588, 1575]],
      [[1605, 1593, 1604, 1588], [1610, 1575, 32, 1585, 1610, 1578],
       [1610, 1593, 1606, 1610], [1575, 1589, 1604], [1576, 1585, 1590, 1607],
       [1593, 1604, 1588, 1575, 1606]],
      [[1576, 1589], [1575, 1587, 1605, 1593], [1602, 1608, 1604], [1585, 1608, 1581],
       [1582, 1588], [1580, 1585, 1576], [1588, 1608, 1601]],
      [[1601, 1610, 1606], [1575, 1605, 1578, 1609], [1604, 1610, 1607],
       [1575, 1586, 1575, 1610], [1603, 1575, 1605], [1602, 1583, 32, 1575, 1610, 1607]]]"

definition compiled_patterns :: "pylib \<Rightarrow> rx list" where
  "compiled_patterns L =
     map (\<lambda>alts. Seq [WordB (lib_word L), Alt (map Lit alts), WordB (lib_word L)])
       egyptian_alternatives"

definition egyptian_education_terms :: "pystr list" where
  "egyptian_education_terms =
     [[1603, 1604, 1610, 1607], [1580, 1575, 1605, 1593, 1607],
      [1583, 1603, 1578, 1608, 1585], [1605, 1583, 1585, 1587, 1607],
      [1605, 1593, 1607, 1583], [1578, 1608, 1580, 1610, 1607, 1610],
      [1579, 1575, 1606, 1608, 1610, 1607], [1575, 1576, 1578, 1583, 1575, 1574, 1610],
      [1575, 1593, 1583, 1575, 1583, 1610], [1605, 1581, 1575, 1590, 1585, 1607],
      [1575, 1605, 1578, 1581, 1575, 1606], [1605, 1606, 1607, 1580],
      [1605, 1575, 1583, 1607], [1587, 1603, 1575, 1588, 1606]]"

text \<open>\<open>s.split()\<close>: the maximal runs of characters that are not whitespace.\<close>

fun split_on :: "(nat \<Rightarrow> bool) \<Rightarrow> pystr \<Rightarrow> pystr list" where
  "split_on p [] = [[]]"
| "split_on p (c # cs) =
     (if p c then [] # split_on p cs
      else case split_on p cs of
             [] \<Rightarrow> [[c]]
           | x # xs \<Rightarrow> (c # x) # xs)"

definition split :: "pystr \<Rightarrow> pystr list" where
  "split s = filter (\<lambda>x. x \<noteq> []) (split_on is_space s)"

text \<open>
  The scores are Python floats: every division, product and sum is rounded to
  binary64, and so is a literal that is multiplied or compared. A literal that is
  returned as a confidence is written as the decimal fraction of the source.
\<close>

definition calculate_egyptian_score :: "pylib \<Rightarrow> pystr \<Rightarrow> real" where
  "calculate_egyptian_score L text =
     (if text = [] then 0
      else
        let pattern_matches = length (filter (\<lambda>pattern. re_search pattern text)
                                        (compiled_patterns L));
            pattern_score = (if compiled_patterns L \<noteq> []
                             then binary64 (real pattern_matches
                                            / real (length (compiled_patterns L)))
                             else 0);
            words = split text;
            egyptian_education_words =
              length (filter (\<lambda>word. word \<in> set egyptian_education_terms) words);
            education_score = binary64 (real egyptian_education_words
                                        / real (max (length words) 1));
            total_score = binary64 (binary64 (pattern_score * binary64 (7 / 10))
                                    + binary64 (education_score * binary64 (3 / 10)))
        in total_score)"

text \<open>
  The classes counted by \<open>len(re.findall(...))\<close>, one match for each character of the
  class: the Arabic blocks, \<open>[a-zA-Z]\<close>, and \<open>[^\w\s]\<close>.
\<close>

definition arabic_char :: "nat \<Rightarrow> bool" where
  "arabic_char c =
     ((1536 \<le> c \<and> c \<le> 1791) \<or> (1872 \<le> c \<and> c \<le> 1919) \<or> (2208 \<le> c \<and> c \<le> 2303)
      \<or> (64336 \<le> c \<and> c \<le> 65023) \<or> (65136 \<le> c \<and> c \<le> 65279))"

definition english_char :: "nat \<Rightarrow> bool" where
  "english_char c = ((97 \<le> c \<and> c \<le> 122) \<or> (65 \<le> c \<and> c \<le> 90))"

definition other_char :: "pylib \<Rightarrow> nat \<Rightarrow> bool" where
  "other_char L c = (\<not> lib_word L c \<and> \<not> is_space c)"

definition common_english :: "pystr list" where
  "common_english =
     [ustr ''hi'', ustr ''ok'', ustr ''yes'', ustr ''no'', ustr ''hey'', ustr ''hello'']"

definition detect_with_confidence :: "pylib \<Rightarrow> pystr \<Rightarrow> LanguageType \<times> real" where
  "detect_with_confidence L text =
     (if text = [] then (UNKNOWN, 0)
      else
        let text_lower = strip (lower L text)
        in if text_lower \<in> set common_english then (ENGLISH, 1)
           else
             let egyptian_score = calculate_egyptian_score L text_lower
             in if egyptian_score > binary64 (6 / 10) then (ARABIC_EGYPTIAN, egyptian_score)
                else
                  let arabic_chars = length (filter arabic_char text);
                      english_chars = length (filter english_char text);
                      other_chars = length (filter (other_char L) text);
                      total_chars = max (arabic_chars + english_chars + other_chars) 1;
                      arabic_ratio = binary64 (real arabic_chars / real total_chars);
                      english_ratio = binary64 (real english_chars / real total_chars)
                  in if arabic_ratio > binary64 (5 / 10) then
                       (if egyptian_score > binary64 (3 / 10)
                        then (ARABIC_EGYPTIAN,
                              binary64 (binary64 (arabic_ratio + egyptian_score) / 2))
                        else (ARABIC_FUSHA, arabic_ratio))
                     else if english_ratio > binary64 (5 / 10) then (ENGLISH, english_ratio)
                     else if arabic_ratio > binary64 (2 / 10) \<and> english_ratio > binary64 (2 / 10)
                       then (MIXED, binary64 (binary64 (arabic_ratio + english_ratio) / 2))
                     else if english_chars > arabic_chars then (ENGLISH, 4 / 10)
                     else if arabic_chars > english_chars then (ARABIC_EGYPTIAN, 4 / 10)
                     else (UNKNOWN, 5 / 10))"

text \<open>
  A table for \<open>\w\<close> on the characters of the examples: the ASCII letters, digits and
  underscore, and the Arabic letters and digits.
\<close>

definition word_char :: "nat \<Rightarrow> bool" where
  "word_char c =
     ((97 \<le> c \<and> c \<le> 122) \<or> (65 \<le> c \<and> c \<le> 90) \<or> (48 \<le> c \<and> c \<le> 57) \<or> c = 95
      \<or> (1568 \<le> c \<and> c \<le> 1610) \<or> (1632 \<le> c \<and> c \<le> 1641))"


section \<open>The embedding service (embedding\_service.py)\<close>

text \<open>The exceptions that the modelled code can raise.\<close>

datatype py_error = ValueError | KeyError | AttributeError | TypeError | CollaboratorError

text \<open>
  Truth value of a Python object, as \<open>if value\<close> and \<open>if not value\<close> test it: an empty
  string, \<open>None\<close>, \<open>False\<close>, zero and an empty list are false.
\<close>

fun truthy :: "pyval \<Rightarrow> bool" where
  "truthy (VStr s) = (s \<noteq> [])"
| "truthy VNone = False"
| "truthy (VBool b) = b"
| "truthy (VNum r) = (r \<noteq> 0)"
| "truthy (VVec v) = (v \<noteq> [])"

text \<open>\<open>d.get(key)\<close>, which is \<open>None\<close> for a missing key, and \<open>d.get(key, '')\<close>.\<close>

definition dict_get :: "pydict \<Rightarrow> pystr \<Rightarrow> pyval" where
  "dict_get d key = (case map_of d key of None \<Rightarrow> VNone | Some v \<Rightarrow> v)"

definition dict_get_str :: "pydict \<Rightarrow> pystr \<Rightarrow> pyval" where
  "dict_get_str d key = (case map_of d key of None \<Rightarrow> VStr [] | Some v \<Rightarrow> v)"

text \<open>
  The model \<open>SentenceTransformer.encode\<close> is a collaborator: \<open>emb_encode\<close> is what it
  returns for a text, or the exception it raises. \<open>emb_available\<close> is \<open>self._available\<close>.
\<close>

record embedder =
  emb_available :: bool
  emb_encode :: "pystr \<Rightarrow> py_error + real list"

definition embedding_dim :: nat where
  "embedding_dim = 384"

definition generate_embedding :: "embedder \<Rightarrow> pystr \<Rightarrow> real list option" where
  "generate_embedding E text =
     (if text = [] \<or> strip text = [] then None
      else if \<not> emb_available E then None
      else case emb_encode E (strip text) of
             Inl e \<Rightarrow> None
           | Inr embedding \<Rightarrow>
               if length embedding \<noteq> embedding_dim then None else Some embedding)"

text \<open>
  \<open>np.dot\<close> on one-dimensional arrays raises \<open>ValueError\<close> when the two shapes differ;
  otherwise its value is the library's.
\<close>

definition np_dot :: "pylib \<Rightarrow> real list \<Rightarrow> real list \<Rightarrow> py_error + real" where
  "np_dot L a b = (if length a = length b then Inr (lib_dot L a b) else Inl ValueError)"

text \<open>
  \<open>_calculate_cosine_similarity\<close>: the two norms are taken first; when one of them is
  zero the function returns \<open>0.0\<close> there, and only otherwise it forms the dot product
  and divides it by the product of the norms. The quotient is returned as it is.
\<close>

definition calculate_cosine_similarity ::
  "pylib \<Rightarrow> real list \<Rightarrow> real list \<Rightarrow> py_error + real" where
  "calculate_cosine_similarity L vec1 vec2 =
     (let norm1 = lib_norm L vec1;
          norm2 = lib_norm L vec2
      in if norm1 = 0 \<or> norm2 = 0 then Inr 0
         else case np_dot L vec1 vec2 of
                Inl e \<Rightarrow> Inl e
              | Inr d \<Rightarrow> Inr (lib_div L d (lib_mul L norm1 norm2)))"

text \<open>
  \<open>xs.sort(key=..., reverse=True)\<close>: descending by the key, and stable (elements with
  equal keys keep their order), which is the stable ascending sort by the negated key.
\<close>

definition sort_desc :: "('a \<Rightarrow> real) \<Rightarrow> 'a list \<Rightarrow> 'a list" where
  "sort_desc k xs = sort_key (\<lambda>x. - k x) xs"

text \<open>
  The loop of \<open>search_similar_roadmaps\<close> over the candidates: a candidate without a
  truthy \<open>embedding\<close> is skipped, as is one whose array has another shape than the
  query's (a value that is not a list of numbers makes an array of shape \<open>()\<close>); the
  others are scored. The result pairs each scored candidate with its score.
\<close>

fun vector_scores ::
  "pylib \<Rightarrow> real list \<Rightarrow> pydict list \<Rightarrow> py_error + (pydict \<times> real) list" where
  "vector_scores L query_vec [] = Inr []"
| "vector_scores L query_vec (roadmap # roadmaps) =
     (let roadmap_emb = dict_get roadmap (ustr ''embedding'')
      in if \<not> truthy roadmap_emb then vector_scores L query_vec roadmaps
         else case roadmap_emb of
                VVec doc_vec \<Rightarrow>
                  if length query_vec \<noteq> length doc_vec then vector_scores L query_vec roadmaps
                  else (case calculate_cosine_similarity L query_vec doc_vec of
                          Inl e \<Rightarrow> Inl e
                        | Inr score \<Rightarrow>
                            (case vector_scores L query_vec roadmaps of
                               Inl e \<Rightarrow> Inl e
                             | Inr scored \<Rightarrow> Inr ((roadmap, score) # scored)))
              | _ \<Rightarrow> vector_scores L query_vec roadmaps)"

text \<open>\<open>{**roadmap, 'similarity': score, 'similarity_score': score}\<close>.\<close>

definition with_similarity :: "pydict \<times> real \<Rightarrow> pydict" where
  "with_similarity p =
     AList.update (ustr ''similarity_score'') (VNum (snd p))
       (AList.update (ustr ''similarity'') (VNum (snd p)) (fst p))"

text \<open>The sort key \<open>x['similarity']\<close> of a scored record.\<close>

definition similarity :: "pydict \<Rightarrow> real" where
  "similarity d = (case map_of d (ustr ''similarity'') of Some (VNum r) \<Rightarrow> r | _ \<Rightarrow> 0)"

text \<open>\<open>sep.join(parts)\<close>.\<close>

fun join :: "pystr \<Rightarrow> pystr list \<Rightarrow> pystr" where
  "join sep [] = []"
| "join sep [x] = x"
| "join sep (x # y # ys) = x @ sep @ join sep (y # ys)"

text \<open>
  \<open>str(t)\<close> for a value of a row: a string is itself, \<open>None\<close> and the booleans have
  their names, a number has the text that the library gives it, and a list of numbers
  is their texts between brackets, separated by a comma and a space.
\<close>

fun py_str :: "pylib \<Rightarrow> pyval \<Rightarrow> pystr" where
  "py_str L (VStr s) = s"
| "py_str L VNone = ustr ''None''"
| "py_str L (VBool b) = (if b then ustr ''True'' else ustr ''False'')"
| "py_str L (VNum r) = lib_repr L r"
| "py_str L (VVec v) = ustr ''['' @ join (ustr '', '') (map (lib_repr L) v) @ ustr '']''"

definition keyword_fields :: "pystr list" where
  "keyword_fields =
     [ustr ''title'', ustr ''description'', ustr ''category'', ustr ''question_ar'',
      ustr ''question_en'', ustr ''answer_ar'', ustr ''answer_en'']"

definition keyword_score :: "pylib \<Rightarrow> pystr \<Rightarrow> pydict \<Rightarrow> real" where
  "keyword_score L query_text item =
     (let query_parts = set (split (lower L query_text));
          text_parts = map (dict_get_str item) keyword_fields;
          item_text = lower L (join (ustr '' '') (map (py_str L) (filter truthy text_parts)));
          item_words = set (split item_text)
      in if item_words = {} \<or> query_parts = {} then 0
         else binary64 (real (card (query_parts \<inter> item_words)) / real (card query_parts)))"

text \<open>
  \<open>_keyword_search_fallback\<close>. \<open>xs[:limit]\<close> is \<open>take limit\<close>: the limit is a count (the
  callers pass 3 and 5).
\<close>

definition keyword_search_fallback ::
  "pylib \<Rightarrow> pystr \<Rightarrow> pydict list \<Rightarrow> nat \<Rightarrow> pydict list" where
  "keyword_search_fallback L query_text items limit =
     (let scored_items =
            map with_similarity
              (filter (\<lambda>p. snd p > 0) (map (\<lambda>item. (item, keyword_score L query_text item)) items))
      in take limit (sort_desc similarity scored_items))"

text \<open>
  The vector phase of \<open>search_similar_roadmaps\<close>: \<open>Inr (Some rs)\<close> when it returns \<open>rs\<close>,
  \<open>Inr None\<close> when it falls through to the fallback, \<open>Inl e\<close> when it raises.
\<close>

definition vector_phase ::
  "pylib \<Rightarrow> embedder \<Rightarrow> pystr \<Rightarrow> pydict list \<Rightarrow> nat \<Rightarrow> py_error + pydict list option" where
  "vector_phase L E query_text roadmaps limit =
     (if emb_available E then
        (case generate_embedding E query_text of
           None \<Rightarrow> Inr None
         | Some query_embedding \<Rightarrow>
             if query_embedding = [] then Inr None
             else (case vector_scores L query_embedding roadmaps of
                     Inl e \<Rightarrow> Inl e
                   | Inr scored \<Rightarrow>
                       if scored \<noteq> []
                       then Inr (Some (take limit (sort_desc similarity
                                                     (map with_similarity scored))))
                       else Inr None))
      else Inr None)"

definition search_similar_roadmaps ::
  "pylib \<Rightarrow> embedder \<Rightarrow> pystr \<Rightarrow> pydict list \<Rightarrow> nat \<Rightarrow> bool \<Rightarrow> pydict list" where
  "search_similar_roadmaps L E query_text roadmaps limit allow_fallback =
     (if roadmaps = [] then []
      else case vector_phase L E query_text roadmaps limit of
             Inr (Some results) \<Rightarrow> results
           | Inr None \<Rightarrow>
               if allow_fallback then keyword_search_fallback L query_text roadmaps limit
               else []
           | Inl e \<Rightarrow>
               if allow_fallback then keyword_search_fallback L query_text roadmaps limit
               else [])"


section \<open>The roadmap service (roadmap\_service.py)\<close>

text \<open>
  \<open>SYNONYMS\<close>, in the order of the source (a \<open>dict\<close> iterates in insertion order); the
  Arabic keys are given by their code points.
\<close>

definition SYNONYMS :: "(pystr \<times> pystr list) list" where
  "SYNONYMS =
     [([1584, 1603, 1575, 1569],
       [ustr ''ai'', ustr ''artificial intelligence'', ustr ''machine learning'',
        ustr ''data scientist'', ustr ''mlops'']),
      ([1575, 1589, 1591, 1606, 1575, 1593, 1610],
       [ustr ''ai'', ustr ''artificial intelligence'', ustr ''machine learning'',
        ustr ''data scientist'']),
      ([1584, 1603, 1575, 1569, 32, 1575, 1589, 1591, 1606, 1575, 1593, 1610],
       [ustr ''ai'', ustr ''artificial intelligence'', ustr ''machine learning'',
        ustr ''data scientist'', ustr ''mlops'']),
      (ustr ''ai'',
       [ustr ''artificial intelligence'', ustr ''machine learning'', ustr ''data scientist'',
        ustr ''mlops'', ustr ''data science'']),
      (ustr ''artificial intelligence'',
       [ustr ''ai'', ustr ''machine learning'', ustr ''data scientist'', ustr ''mlops'']),
      (ustr ''machine learning'',
       [ustr ''ai'', ustr ''data scientist'', ustr ''mlops'', ustr ''ml'']),
      (ustr ''ml'',
       [ustr ''machine learning'', ustr ''ai'', ustr ''mlops'', ustr ''data scientist'']),
      (ustr ''data science'',
       [ustr ''ai'', ustr ''data scientist'', ustr ''machine learning'']),
      ([1576, 1610, 1575, 1606, 1575, 1578],
       [ustr ''data'', ustr ''data scientist'', ustr ''ai'']),
      ([1608, 1610, 1576],
       [ustr ''web'', ustr ''frontend'', ustr ''backend'', ustr ''full stack'']),
      (ustr ''web'',
       [ustr ''frontend'', ustr ''backend'', ustr ''full stack'']),
      ([1601, 1585, 1608, 1606, 1578],
       [ustr ''frontend'', ustr ''react'', ustr ''javascript'']),
      ([1601, 1585, 1608, 1606, 1578, 32, 1575, 1606, 1583],
       [ustr ''frontend'', ustr ''react'', ustr ''javascript'', ustr ''web'']),
      ([1601, 1585, 1608, 1606, 1578, 32, 1573, 1606, 1583],
       [ustr ''frontend'', ustr ''react'', ustr ''javascript'', ustr ''web'']),
      ([1575, 1604, 1601, 1585, 1608, 1606, 1578],
       [ustr ''frontend'', ustr ''react'', ustr ''javascript'']),
      (ustr ''frontend'',
       [ustr ''react'', ustr ''javascript'', ustr ''web'']),
      ([1576, 1575, 1603],
       [ustr ''backend'', ustr ''node'', ustr ''python'', ustr ''java'']),
      ([1576, 1575, 1603, 32, 1575, 1606, 1583],
       [ustr ''backend'', ustr ''node'', ustr ''python'', ustr ''java'', ustr ''web'']),
      ([1576, 1575, 1603, 32, 1573, 1606, 1583],
       [ustr ''backend'', ustr ''node'', ustr ''python'', ustr ''java'', ustr ''web'']),
      ([1575, 1604, 1576, 1575, 1603],
       [ustr ''backend'', ustr ''node'', ustr ''python'', ustr ''java'']),
      (ustr ''backend'',
       [ustr ''node'', ustr ''python'', ustr ''java'', ustr ''web'']),
      (ustr ''full stack'',
       [ustr ''frontend'', ustr ''backend'', ustr ''web'']),
      ([1601, 1608, 1604, 32, 1587, 1578, 1575, 1603],
       [ustr ''full stack'', ustr ''frontend'', ustr ''backend'']),
      ([1605, 1608, 1576, 1575, 1610, 1604],
       [ustr ''mobile'', ustr ''android'', ustr ''flutter'', ustr ''react native'']),
      (ustr ''mobile'',
       [ustr ''android'', ustr ''flutter'', ustr ''react native'']),
      ([1575, 1606, 1583, 1585, 1608, 1610, 1583],
       [ustr ''android'', ustr ''mobile'']),
      (ustr ''android'',
       [ustr ''mobile'']),
      (ustr ''flutter'',
       [ustr ''mobile'']),
      ([1583, 1610, 1601, 32, 1575, 1608, 1576, 1587],
       [ustr ''devops'', ustr ''docker'', ustr ''kubernetes'']),
      (ustr ''devops'',
       [ustr ''docker'', ustr ''kubernetes'']),
      (ustr ''docker'',
       [ustr ''devops'', ustr ''kubernetes'']),
      (ustr ''kubernetes'',
       [ustr ''devops'', ustr ''docker'']),
      ([1575, 1605, 1606],
       [ustr ''security'', ustr ''cyber security'', ustr ''cyber'']),
      ([1575, 1605, 1575, 1606],
       [ustr ''security'', ustr ''cyber security'']),
      (ustr ''security'',
       [ustr ''cyber security'', ustr ''cyber'']),
      (ustr ''cyber'',
       [ustr ''security'', ustr ''cyber security'']),
      ([1602, 1608, 1575, 1593, 1583, 32, 1576, 1610, 1575, 1606, 1575, 1578],
       [ustr ''database'', ustr ''sql'', ustr ''mongodb'', ustr ''postgresql'']),
      (ustr ''database'',
       [ustr ''sql'', ustr ''mongodb'', ustr ''postgresql'']),
      (ustr ''sql'',
       [ustr ''database'', ustr ''postgresql'']),
      (ustr ''mongodb'',
       [ustr ''database'']),
      (ustr ''postgresql'',
       [ustr ''database'', ustr ''sql'']),
      ([1578, 1589, 1605, 1610, 1605],
       [ustr ''design'', ustr ''ux'']),
      (ustr ''design'',
       [ustr ''ux'']),
      (ustr ''ux'',
       [ustr ''design'']),
      ([1576, 1604, 1608, 1603, 1578, 1588, 1610, 1606],
       [ustr ''blockchain'']),
      (ustr ''blockchain'',
       [ustr ''web3'']),
      (ustr ''web3'',
       [ustr ''blockchain'']),
      (ustr ''python'',
       [ustr ''backend'', ustr ''ai'', ustr ''data scientist'']),
      (ustr ''java'',
       [ustr ''backend'']),
      (ustr ''javascript'',
       [ustr ''frontend'', ustr ''backend'', ustr ''node'']),
      (ustr ''react'',
       [ustr ''frontend'']),
      (ustr ''node'',
       [ustr ''backend'']),
      (ustr ''go'',
       [ustr ''backend'']),
      (ustr ''golang'',
       [ustr ''go'', ustr ''backend''])]"

text \<open>
  \<open>difflib.SequenceMatcher(None, a, b).ratio()\<close> belongs to the standard library, not
  to the sources: it is \<open>lib_ratio L\<close>.
\<close>

definition calculate_similarity :: "pylib \<Rightarrow> pystr \<Rightarrow> pystr \<Rightarrow> real" where
  "calculate_similarity L str1 str2 = lib_ratio L (lower L str1) (lower L str2)"

text \<open>
  \<open>_expand_query\<close>. The source returns \<open>list(set(expanded))\<close>, whose order is not
  specified; \<open>remdups\<close> gives the distinct elements in one order.
\<close>

definition expand_entry :: "pystr \<Rightarrow> pystr \<times> pystr list \<Rightarrow> pystr list" where
  "expand_entry query_lower entry =
     (let key = fst entry; synonyms = snd entry
      in (if contains query_lower key then synonyms else [])
         @ concat (map (\<lambda>synonym. if contains query_lower synonym then key # synonyms else [])
                     synonyms))"

definition expand_query :: "pylib \<Rightarrow> pystr \<Rightarrow> pystr list" where
  "expand_query L query =
     (let query_lower = lower L query;
          expanded = query_lower # concat (map (expand_entry query_lower) SYNONYMS)
      in remdups expanded)"

text \<open>
  The store is a collaborator. Each field is what one call returns (\<open>result.data\<close>) or
  the exception it raises: the rows of \<open>roadmaps\<close>, the active rows of \<open>faq\<close>, and the two
  similarity queries \<open>match_roadmaps\<close> and \<open>match_faqs\<close>, given the query embedding and
  \<open>match_count\<close> (the threshold is the constant 0.5).
\<close>

record store =
  roadmaps_table :: "py_error + pydict list"
  active_faqs :: "py_error + pydict list"
  match_roadmaps :: "real list \<Rightarrow> nat \<Rightarrow> py_error + pydict list"
  match_faqs :: "real list \<Rightarrow> nat \<Rightarrow> py_error + pydict list"

text \<open>
  \<open>roadmap['title']\<close> raises \<open>KeyError\<close> when the key is missing; \<open>.lower()\<close> raises
  \<open>AttributeError\<close> on a value that is not a string.
\<close>

definition as_str :: "pyval \<Rightarrow> py_error + pystr" where
  "as_str v = (case v of VStr s \<Rightarrow> Inr s | _ \<Rightarrow> Inl AttributeError)"

definition dict_item :: "pydict \<Rightarrow> pystr \<Rightarrow> py_error + pyval" where
  "dict_item d key = (case map_of d key of None \<Rightarrow> Inl KeyError | Some v \<Rightarrow> Inr v)"

definition clean_amp_hyphen :: "pystr \<Rightarrow> pystr" where
  "clean_amp_hyphen s = replace (ustr ''-'') (ustr '' '') (replace (ustr ''&'') (ustr ''and'') s)"

definition clean_slash_hyphen :: "pystr \<Rightarrow> pystr" where
  "clean_slash_hyphen s = replace (ustr ''-'') (ustr '' '') (replace (ustr ''/'') (ustr '' '') s)"

text \<open>
  The loop over the expanded queries for one roadmap, from the current \<open>max_score\<close>: a
  variant contained in the searchable text sets the score to \<open>max(max_score, 1.0)\<close> and
  leaves the loop.
\<close>

fun max_variant_score ::
  "pylib \<Rightarrow> pystr \<Rightarrow> pystr \<Rightarrow> pystr \<Rightarrow> pystr \<Rightarrow> real \<Rightarrow> pystr list \<Rightarrow> real"
  where
  "max_variant_score L searchable_text title_clean desc_clean cat_clean max_score [] =
     max_score"
| "max_variant_score L searchable_text title_clean desc_clean cat_clean max_score
     (exp_query # rest) =
     (let exp_query_clean = clean_amp_hyphen exp_query
      in if contains searchable_text exp_query_clean then max max_score 1
         else
           let title_score = calculate_similarity L exp_query_clean title_clean;
               desc_score = calculate_similarity L exp_query_clean desc_clean;
               cat_score = calculate_similarity L exp_query_clean cat_clean
           in max_variant_score L searchable_text title_clean desc_clean cat_clean
                (max (max (max max_score title_score) desc_score) cat_score) rest)"

text \<open>The three cleaned fields of a roadmap, or the exception of the first that fails.\<close>

definition roadmap_fields :: "pylib \<Rightarrow> pydict \<Rightarrow> py_error + (pystr \<times> pystr \<times> pystr)" where
  "roadmap_fields L roadmap =
     (case dict_item roadmap (ustr ''title'') of
        Inl e \<Rightarrow> Inl e
      | Inr tv \<Rightarrow>
        (case as_str tv of
           Inl e \<Rightarrow> Inl e
         | Inr title \<Rightarrow>
           (case as_str (dict_get_str roadmap (ustr ''description'')) of
              Inl e \<Rightarrow> Inl e
            | Inr description \<Rightarrow>
              (case as_str (dict_get_str roadmap (ustr ''category'')) of
                 Inl e \<Rightarrow> Inl e
               | Inr category \<Rightarrow>
                   Inr (clean_amp_hyphen (lower L title),
                        clean_amp_hyphen (lower L description),
                        clean_slash_hyphen (lower L category))))))"

definition fields_score :: "pylib \<Rightarrow> pystr list \<Rightarrow> pystr \<times> pystr \<times> pystr \<Rightarrow> real" where
  "fields_score L expanded_queries cleaned =
     (case cleaned of (title_clean, desc_clean, cat_clean) \<Rightarrow>
        let searchable_text = title_clean @ ustr '' '' @ desc_clean @ ustr '' '' @ cat_clean
        in max_variant_score L searchable_text title_clean desc_clean cat_clean 0
             expanded_queries)"

text \<open>
  The loop over the roadmaps: the pairs of a roadmap with \<open>max_score > 0.15\<close> and its
  score, in the order of the rows, or the first exception.
\<close>

fun fuzzy_scores ::
  "pylib \<Rightarrow> pystr list \<Rightarrow> pydict list \<Rightarrow> py_error + (pydict \<times> real) list"
  where
  "fuzzy_scores L expanded_queries [] = Inr []"
| "fuzzy_scores L expanded_queries (roadmap # roadmaps) =
     (case roadmap_fields L roadmap of
        Inl e \<Rightarrow> Inl e
      | Inr cleaned \<Rightarrow>
          let max_score = fields_score L expanded_queries cleaned
          in (case fuzzy_scores L expanded_queries roadmaps of
                Inl e \<Rightarrow> Inl e
              | Inr scored \<Rightarrow>
                  if max_score > binary64 (15 / 100) then Inr ((roadmap, max_score) # scored)
                  else Inr scored))"

text \<open>\<open>{**roadmap, 'similarity_score': max_score, 'similarity': max_score}\<close>.\<close>

definition with_similarity_score :: "pydict \<times> real \<Rightarrow> pydict" where
  "with_similarity_score p =
     AList.update (ustr ''similarity'') (VNum (snd p))
       (AList.update (ustr ''similarity_score'') (VNum (snd p)) (fst p))"

definition similarity_score :: "pydict \<Rightarrow> real" where
  "similarity_score d =
     (case map_of d (ustr ''similarity_score'') of Some (VNum r) \<Rightarrow> r | _ \<Rightarrow> 0)"

text \<open>
  The text matching of \<open>_fuzzy_search\<close> (its part after the client-side vector
  search): synonym expansion, scoring, the sort and the cut at \<open>limit\<close>.
\<close>

definition fuzzy_text_match ::
  "pylib \<Rightarrow> pystr \<Rightarrow> pydict list \<Rightarrow> nat \<Rightarrow> py_error + pydict list" where
  "fuzzy_text_match L query all_roadmaps limit =
     (let expanded_queries = expand_query L query
      in case fuzzy_scores L expanded_queries all_roadmaps of
           Inl e \<Rightarrow> Inl e
         | Inr scored \<Rightarrow>
             Inr (take limit (sort_desc similarity_score (map with_similarity_score scored))))"

definition fuzzy_search ::
  "pylib \<Rightarrow> embedder \<Rightarrow> store \<Rightarrow> pystr \<Rightarrow> nat \<Rightarrow> pydict list" where
  "fuzzy_search L E S query limit =
     (case roadmaps_table S of
        Inl e \<Rightarrow> []
      | Inr all_roadmaps \<Rightarrow>
          if all_roadmaps = [] then []
          else
            let vector_results =
                  (if list_ex (\<lambda>r. truthy (dict_get r (ustr ''embedding''))) all_roadmaps
                      \<and> emb_available E
                   then search_similar_roadmaps L E query all_roadmaps limit False
                   else [])
            in if vector_results \<noteq> [] then vector_results
               else (case fuzzy_text_match L query all_roadmaps limit of
                       Inl e \<Rightarrow> []
                     | Inr results \<Rightarrow> results))"

definition vector_search :: "embedder \<Rightarrow> store \<Rightarrow> pystr \<Rightarrow> nat \<Rightarrow> pydict list" where
  "vector_search E S query limit =
     (if \<not> emb_available E then []
      else case generate_embedding E query of
             None \<Rightarrow> []
           | Some query_embedding \<Rightarrow>
               if query_embedding = [] then []
               else (case match_roadmaps S query_embedding limit of
                       Inl e \<Rightarrow> []
                     | Inr data \<Rightarrow> data))"

text \<open>
  \<open>top_similarity > 0.6\<close> for the value of \<open>vector_results[0].get('similarity', 0)\<close>: a
  float is compared with the float \<open>0.6\<close>, \<open>True\<close> counts as 1 and \<open>False\<close> as 0, anything
  else raises \<open>TypeError\<close>.
\<close>

definition high_confidence :: "pydict \<Rightarrow> py_error + bool" where
  "high_confidence first_result =
     (case map_of first_result (ustr ''similarity'') of
        None \<Rightarrow> Inr False
      | Some (VNum r) \<Rightarrow> Inr (r > binary64 (6 / 10))
      | Some (VBool b) \<Rightarrow> Inr b
      | Some _ \<Rightarrow> Inl TypeError)"

definition search_roadmaps ::
  "pylib \<Rightarrow> embedder \<Rightarrow> store \<Rightarrow> pystr \<Rightarrow> nat \<Rightarrow> bool \<Rightarrow> pydict list" where
  "search_roadmaps L E S query limit use_embeddings =
     (let vector_results = (if use_embeddings then vector_search E S query limit else [])
      in case vector_results of
           [] \<Rightarrow> fuzzy_search L E S query limit
         | first_result # _ \<Rightarrow>
             (case high_confidence first_result of
                Inr True \<Rightarrow> vector_results
              | Inr False \<Rightarrow> fuzzy_search L E S query limit
              | Inl e \<Rightarrow> fuzzy_search L E S query limit))"

section \<open>The FAQ search (rag\_service.py)\<close>

definition search_faqs :: "pylib \<Rightarrow> embedder \<Rightarrow> store \<Rightarrow> pystr \<Rightarrow> pystr \<Rightarrow> pydict list" where
  "search_faqs L E S query language =
     (let rpc_results =
            (case generate_embedding E query of
               None \<Rightarrow> []
             | Some query_embedding \<Rightarrow>
                 if query_embedding = [] then []
                 else (case match_faqs S query_embedding 5 of
                         Inl rpc_error \<Rightarrow> []
                       | Inr data \<Rightarrow> data))
      in if rpc_results \<noteq> [] then rpc_results
         else (case active_faqs S of
                 Inl e \<Rightarrow> []
               | Inr all_faqs \<Rightarrow>
                   if all_faqs = [] then []
                   else search_similar_roadmaps L E query all_faqs 5 True))"


section \<open>The third tier as the specification words it\<close>

text \<open>
  The specification has one retriever for both corpora, whose third tier expands the
  query, builds for each candidate a searchable text from its text fields (title or
  question, description or answer, category) with ampersands turned into \<open>and\<close> and
  hyphens and slashes into spaces, scores 1.0 when a normalised variant is contained
  in it and otherwise the greatest similarity ratio between a variant and a field,
  drops the scores at or below 0.15, sorts and cuts. \<open>tier3_spec\<close> follows these words
  for a mapping \<open>gather\<close> of the fields; \<open>faq_fields_en\<close> is the mapping of an FAQ answered
  in English. It is what the claim about the cascade compares the code with.
\<close>

definition spec_normalize :: "pystr \<Rightarrow> pystr" where
  "spec_normalize s =
     replace (ustr ''/'') (ustr '' '')
       (replace (ustr ''-'') (ustr '' '') (replace (ustr ''&'') (ustr ''and'') s))"

definition spec_score :: "pylib \<Rightarrow> pystr list \<Rightarrow> pystr \<times> pystr \<times> pystr \<Rightarrow> real" where
  "spec_score L variants gathered =
     (case gathered of (title, description, category) \<Rightarrow>
        let searchable =
              spec_normalize (title @ ustr '' '' @ description @ ustr '' '' @ category)
        in if list_ex (\<lambda>v. contains searchable (spec_normalize v)) variants then 1
           else foldr max
                  (concat (map (\<lambda>v. [lib_ratio L v title, lib_ratio L v description,
                                    lib_ratio L v category])
                             variants)) 0)"

definition tier3_spec ::
  "pylib \<Rightarrow> (pydict \<Rightarrow> pystr \<times> pystr \<times> pystr) \<Rightarrow> pystr \<Rightarrow> pydict list \<Rightarrow> nat
     \<Rightarrow> pydict list" where
  "tier3_spec L gather query corpus limit =
     (let variants = expand_query L query;
          scored = filter (\<lambda>p. snd p > 15 / 100)
                     (map (\<lambda>doc. (doc, spec_score L variants (gather doc))) corpus)
      in take limit (sort_desc similarity (map with_similarity_score scored)))"

definition faq_fields_en :: "pylib \<Rightarrow> pydict \<Rightarrow> pystr \<times> pystr \<times> pystr" where
  "faq_fields_en L faq =
     (py_str L (dict_get_str faq (ustr ''question_en'')),
      py_str L (dict_get_str faq (ustr ''answer_en'')),
      (case dict_get faq (ustr ''category'') of VStr c \<Rightarrow> c | _ \<Rightarrow> []))"

section \<open>Example collaborators and rows\<close>

text \<open>
  An embedding service whose model is not loaded (as in production, where
  \<open>initialize_model\<close> leaves \<open>_available\<close> false), one whose model answers every text
  with the first unit vector of dimension 384, a ratio that is 1 on equal strings and 0
  otherwise, an FAQ, two roadmaps, and stores that hold them.

  \<open>sample_lib\<close> is a library for the examples: no case mapping beyond ASCII, the table
  \<open>word_char\<close> for \<open>\w\<close>, the ratio above, no text for numbers, and exact arithmetic for
  \<open>numpy\<close>. The strings of the examples are ASCII or Arabic and hold no number, and
  their vectors have the entries 0, 1 and -1, on which binary64 arithmetic is exact:
  on the examples \<open>sample_lib\<close> gives what Python gives.
\<close>

definition offline_embedder :: embedder where
  "offline_embedder = \<lparr>emb_available = False, emb_encode = (\<lambda>t. Inl CollaboratorError)\<rparr>"

definition unit_embedder :: embedder where
  "unit_embedder = \<lparr>emb_available = True, emb_encode = (\<lambda>t. Inr (1 # replicate 383 0))\<rparr>"

definition sample_ratio :: "pystr \<Rightarrow> pystr \<Rightarrow> real" where
  "sample_ratio a b = (if a = b then 1 else 0)"

definition sample_lib :: pylib where
  "sample_lib =
     \<lparr>lib_lower = (\<lambda>before c after. [c]),
      lib_word = word_char,
      lib_ratio = sample_ratio,
      lib_repr = (\<lambda>x. []),
      lib_norm = (\<lambda>v. sqrt (sum_list (map (\<lambda>x. x * x) v))),
      lib_dot = (\<lambda>a b. sum_list (map (\<lambda>(x, y). x * y) (zip a b))),
      lib_mul = (\<lambda>x y. x * y),
      lib_div = (\<lambda>x y. x / y)\<rparr>"

definition sample_faq :: pydict where
  "sample_faq =
     [(ustr ''question_en'', VStr (ustr ''backend'')),
      (ustr ''answer_en'', VStr (ustr ''server'')),
      (ustr ''question_ar'', VStr []),
      (ustr ''answer_ar'', VStr []),
      (ustr ''category'', VNone),
      (ustr ''is_active'', VBool True)]"

definition sample_roadmap :: pydict where
  "sample_roadmap =
     [(ustr ''title'', VStr (ustr ''Backend'')),
      (ustr ''description'', VStr (ustr ''Server-side development'')),
      (ustr ''category'', VStr (ustr ''web'')),
      (ustr ''url'', VStr (ustr ''https://roadmap.sh/backend'')),
      (ustr ''slug'', VStr (ustr ''backend'')),
      (ustr ''is_published'', VBool True)]"

definition opposite_roadmap :: pydict where
  "opposite_roadmap =
     [(ustr ''title'', VStr (ustr ''Frontend'')),
      (ustr ''embedding'', VVec (- 1 # replicate 383 0))]"

definition sample_store :: store where
  "sample_store =
     \<lparr>roadmaps_table = Inr [sample_roadmap],
      active_faqs = Inr [sample_faq],
      match_roadmaps = (\<lambda>e n. Inr []),
      match_faqs = (\<lambda>e n. Inr [])\<rparr>"

definition empty_store :: store where
  "empty_store =
     \<lparr>roadmaps_table = Inr [],
      active_faqs = Inr [],
      match_roadmaps = (\<lambda>e n. Inr []),
      match_faqs = (\<lambda>e n. Inr [])\<rparr>"

section \<open>The URL normalisation as the specification words it\<close>





section \<open>The completion service (llm\_service.py)\<close>

text \<open>
  The completion model is a collaborator. A call is described by what the prompt is
  built from: for \<open>contextualize_query\<close> the message and the last two turns, for
  \<open>generate_response\<close> the language of the system prompt, the last two turns, the
  context and the message. It answers with a text and a token count or raises; a rate
  limit, a connection error and a timeout are the transient errors that the \<open>retry\<close>
  decorator names.
\<close>

record turn =
  t_role :: pystr
  t_content :: pystr

datatype llm_call =
    Contextualize pystr "turn list"
  | Generate LanguageType "turn list" "pydict list" pystr

datatype llm_error = RateLimitError | APIConnectionError | APITimeoutError | APIError

fun transient :: "llm_error \<Rightarrow> bool" where
  "transient RateLimitError = True"
| "transient APIConnectionError = True"
| "transient APITimeoutError = True"
| "transient APIError = False"

text \<open>A row written to \<open>conversations\<close> (without its time stamp).\<close>

record saved_turn =
  s_session_id :: pystr
  s_role :: pystr
  s_content :: pystr
  s_language :: pystr

text \<open>
  The world of one request: the libraries, the embedding service, the store, the read
  of the conversation history (the rows of a session, newest first, or an exception),
  the completion model (its answer may depend on how many calls came before), whether
  an insert into \<open>conversations\<close> succeeds, and the identifier that \<open>uuid4\<close> draws.
\<close>

record world =
  w_lib :: pylib
  w_embedder :: embedder
  w_store :: store
  w_history :: "pystr \<Rightarrow> nat \<Rightarrow> py_error + turn list"
  w_complete :: "nat \<Rightarrow> llm_call \<Rightarrow> llm_error + pystr \<times> nat"
  w_insert :: "saved_turn \<Rightarrow> bool"
  w_uuid :: pystr

text \<open>
  The effects of a request: the calls made to the completion model, in order, and the
  rows appended to \<open>conversations\<close>.
\<close>

record effects =
  llm_log :: "llm_call list"
  saved :: "saved_turn list"

definition call_llm ::
  "world \<Rightarrow> llm_call \<Rightarrow> effects \<Rightarrow> (llm_error + pystr \<times> nat) \<times> effects" where
  "call_llm W c st = (w_complete W (length (llm_log st)) c, st\<lparr>llm_log := llm_log st @ [c]\<rparr>)"

text \<open>\<open>history[-2:]\<close>.\<close>

definition last_two :: "'a list \<Rightarrow> 'a list" where
  "last_two xs = drop (length xs - 2) xs"

text \<open>
  \<open>_clean_foreign_characters\<close>: the five forbidden blocks (CJK, Hiragana, Katakana,
  Hangul, Cyrillic) are deleted, then the forbidden words, then three English words
  are replaced, whitespace runs become one space, the text is stripped, and three or
  more newlines become two.
\<close>

definition forbidden_classes :: "(nat \<Rightarrow> bool) list" where
  "forbidden_classes =
     [\<lambda>c. 19968 \<le> c \<and> c \<le> 40959,
      \<lambda>c. 12352 \<le> c \<and> c \<le> 12447,
      \<lambda>c. 12448 \<le> c \<and> c \<le> 12543,
      \<lambda>c. 44032 \<le> c \<and> c \<le> 55215,
      \<lambda>c. 1024 \<le> c \<and> c \<le> 1279]"

definition forbidden_words :: "pystr list" where
  "forbidden_words =
     [[28982, 32780], [23454, 38469], [26102, 38388], [35752, 35770], [30340], [20102],
      [49892, 51228], [49884, 44036], [12398], [12399], [1080, 1083, 1080], [1080]]"

definition replacements :: "(pystr \<times> pystr) list" where
  "replacements =
     [(ustr ''coverage'', []), (ustr ''however'', [1604, 1603, 1606]), (ustr ''moreover'', [])]"

definition newlines_rx :: rx where
  "newlines_rx = Seq [Lit [10], Star is_space, Lit [10], Star is_space, Plus (\<lambda>c. c = 10)]"

definition clean_foreign_characters :: "pystr \<Rightarrow> pystr" where
  "clean_foreign_characters text =
     (let cleaned = foldl (\<lambda>cleaned p. re_sub (Cls p) [] cleaned) text forbidden_classes;
          cleaned = foldl (\<lambda>cleaned word. replace word [] cleaned) cleaned forbidden_words;
          cleaned = foldl (\<lambda>cleaned r. replace (fst r) (snd r) cleaned) cleaned replacements;
          cleaned = strip (re_sub (Plus is_space) (ustr '' '') cleaned);
          cleaned = re_sub newlines_rx [10, 10] cleaned
      in cleaned)"

record llm_response =
  resp_text :: pystr
  resp_confidence :: real
  resp_tokens_used :: nat

text \<open>The \<open>error_messages\<close> of \<open>generate_response\<close>, with the Egyptian one as default.\<close>

fun llm_error_message :: "LanguageType \<Rightarrow> pystr" where
  "llm_error_message ARABIC_FUSHA =
     [1593, 1584, 1585, 1575, 1611, 1548, 32, 1581, 1583, 1579, 32, 1582, 1591, 1571, 46]"
| "llm_error_message ENGLISH = ustr ''Sorry, an error occurred.''"
| "llm_error_message _ =
     [1605, 1593, 1604, 1588, 1548, 32, 1601, 1610, 1607, 32, 1605, 1588, 1603, 1604, 1577,
      46, 32, 1581, 1575, 1608, 1604, 32, 1578, 1575, 1606, 1610, 46]"

text \<open>
  The body of \<open>generate_response\<close>: one call of the completion model inside
  \<open>try\<close>; \<open>except Exception\<close> catches whatever it raises and returns the error text
  with confidence 0.3. The body therefore returns in every case (the result is always
  \<open>Inr\<close>); its type keeps the exception for the decorator around it.
\<close>

definition generate_response_body ::
  "world \<Rightarrow> pystr \<Rightarrow> pydict list \<Rightarrow> turn list \<Rightarrow> LanguageType \<Rightarrow> effects
     \<Rightarrow> (llm_error + llm_response) \<times> effects" where
  "generate_response_body W message context conversation_history user_language st =
     (case call_llm W (Generate user_language (last_two conversation_history) context message) st
      of (Inr (raw_text, total_tokens), st') \<Rightarrow>
           (let cleaned_text = clean_foreign_characters raw_text;
                validated_text = validate_urls_against_context (w_lib W) cleaned_text context
            in (Inr \<lparr>resp_text = validated_text, resp_confidence = 9 / 10,
                      resp_tokens_used = total_tokens\<rparr>,
                st'))
       | (Inl e, st') \<Rightarrow>
           (Inr \<lparr>resp_text = llm_error_message user_language, resp_confidence = 3 / 10,
                 resp_tokens_used = 0\<rparr>,
            st'))"

text \<open>
  The decorator \<open>@retry(retry_if_exception_type(...), stop_after_attempt(n))\<close>: the
  function is called again while it raises a transient error and attempts are left;
  another exception is raised on, and after the last attempt \<open>RetryError\<close> is raised.
  The waiting between attempts is not modelled.
\<close>

datatype raised = RetryError llm_error | Reraised llm_error

fun with_retry ::
  "nat \<Rightarrow> (effects \<Rightarrow> (llm_error + 'a) \<times> effects) \<Rightarrow> effects \<Rightarrow> (raised + 'a) \<times> effects" where
  "with_retry 0 f st = (case f st of
                          (Inr r, st') \<Rightarrow> (Inr r, st')
                        | (Inl e, st') \<Rightarrow> (Inl (Reraised e), st'))"
| "with_retry (Suc n) f st =
     (case f st of
        (Inr r, st') \<Rightarrow> (Inr r, st')
      | (Inl e, st') \<Rightarrow>
          if transient e then
            (if n = 0 then (Inl (RetryError e), st') else with_retry n f st')
          else (Inl (Reraised e), st'))"

definition generate_response ::
  "world \<Rightarrow> pystr \<Rightarrow> pydict list \<Rightarrow> turn list \<Rightarrow> LanguageType \<Rightarrow> effects
     \<Rightarrow> (raised + llm_response) \<times> effects" where
  "generate_response W message context conversation_history user_language st =
     with_retry 3 (generate_response_body W message context conversation_history user_language)
       st"

definition contextualize_query ::
  "world \<Rightarrow> pystr \<Rightarrow> turn list \<Rightarrow> effects \<Rightarrow> pystr \<times> effects" where
  "contextualize_query W message history st =
     (if history = [] then (message, st)
      else case call_llm W (Contextualize message (last_two history)) st of
             (Inr (reply, total_tokens), st') \<Rightarrow>
               (replace [39] [] (replace [34] [] (strip reply)), st')
           | (Inl e, st') \<Rightarrow> (message, st'))"

section \<open>The orchestrator (chat\_service.py)\<close>

text \<open>\<open>LanguageType(preferred)\<close>, which raises \<open>ValueError\<close> for any other string.\<close>

definition language_of_value :: "pystr \<Rightarrow> LanguageType option" where
  "language_of_value v =
     (if v = ustr ''ar_EG'' then Some ARABIC_EGYPTIAN
      else if v = ustr ''ar'' then Some ARABIC_FUSHA
      else if v = ustr ''en'' then Some ENGLISH
      else if v = ustr ''mixed'' then Some MIXED
      else if v = ustr ''unknown'' then Some UNKNOWN
      else None)"

definition determine_response_language :: "LanguageType \<Rightarrow> pystr \<Rightarrow> LanguageType" where
  "determine_response_language detected preferred =
     (case (if preferred \<noteq> ustr ''auto'' then language_of_value preferred else None) of
        Some l \<Rightarrow> l
      | None \<Rightarrow>
          if detected \<in> set [ARABIC_EGYPTIAN, ARABIC_FUSHA, ENGLISH] then detected
          else ARABIC_EGYPTIAN)"

text \<open>
  The response of \<open>process_message\<close>. The three places that build it give different
  keys: \<open>detected_language\<close> is missing from the error response and
  \<open>language_confidence\<close> from the error and the fallback response. The time stamp is
  left out.
\<close>

record chat_response =
  r_response :: pystr
  r_session_id :: pystr
  r_user_language :: pystr
  r_detected_language :: "pystr option"
  r_language_confidence :: "real option"
  r_response_language :: pystr
  r_is_egyptian :: bool
  r_confidence :: real

text \<open>The \<open>messages\<close> of \<open>_generate_fallback_response\<close>, the Egyptian one as default.\<close>

fun fallback_message :: "LanguageType \<Rightarrow> pystr" where
  "fallback_message ARABIC_FUSHA =
     [1593, 1584, 1585, 1575, 1611, 1548, 32, 1604, 1575, 32, 1610, 1608, 1580, 1583, 32,
      1585, 1608, 1583, 1605, 1575, 1576, 32, 1605, 1578, 1575, 1581, 32, 1604, 1607, 1584,
      1575, 32, 1575, 1604, 1605, 1580, 1575, 1604, 32, 1581, 1575, 1604, 1610, 1575, 1611,
      46]"
| "fallback_message ENGLISH = ustr ''Sorry, no roadmap available for this field right now.''"
| "fallback_message _ =
     [1605, 1593, 1604, 1588, 32, 1610, 1575, 32, 1576, 1575, 1588, 1575, 1548, 32, 1605,
      1601, 1610, 1588, 32, 1585, 1608, 1583, 32, 1605, 1575, 1576, 32, 1605, 1578, 1575,
      1581, 32, 1604, 1604, 1605, 1580, 1575, 1604, 32, 1583, 1607, 32, 1583, 1604, 1608,
      1602, 1578, 1610, 46]"

definition generate_fallback_response ::
  "LanguageType \<Rightarrow> pystr \<Rightarrow> pystr \<Rightarrow> chat_response" where
  "generate_fallback_response user_language session_id detected_lang =
     \<lparr>r_response = fallback_message user_language,
      r_session_id = session_id,
      r_user_language = lang_value user_language,
      r_detected_language = Some detected_lang,
      r_language_confidence = None,
      r_response_language = lang_value user_language,
      r_is_egyptian = (user_language = ARABIC_EGYPTIAN),
      r_confidence = 8 / 10\<rparr>"

definition error_message :: "pystr \<Rightarrow> pystr" where
  "error_message target_lang =
     (if target_lang = ustr ''ar'' then
        [1581, 1583, 1579, 32, 1582, 1591, 1571, 46, 32, 1581, 1575, 1608, 1604, 32, 1605,
         1585, 1577, 32, 1571, 1582, 1585, 1609, 46]
      else if target_lang = ustr ''en'' then ustr ''An error occurred. Try again.''
      else
        [1601, 1610, 1607, 32, 1605, 1588, 1603, 1604, 1577, 32, 1583, 1604, 1608, 1602,
         1578, 1610, 46, 32, 1581, 1575, 1608, 1604, 32, 1578, 1575, 1606, 1610, 46])"

definition generate_error_response :: "pystr \<Rightarrow> pystr \<Rightarrow> chat_response" where
  "generate_error_response preferred_language session_id =
     (let target_lang = (if preferred_language = ustr ''auto'' then ustr ''ar_EG''
                         else preferred_language)
      in \<lparr>r_response = error_message target_lang,
          r_session_id = session_id,
          r_user_language = preferred_language,
          r_detected_language = None,
          r_language_confidence = None,
          r_response_language = preferred_language,
          r_is_egyptian = (preferred_language = ustr ''ar_EG''),
          r_confidence = 0\<rparr>)"

definition get_conversation_history :: "world \<Rightarrow> pystr \<Rightarrow> nat \<Rightarrow> turn list" where
  "get_conversation_history W session_id limit =
     (case w_history W session_id limit of
        Inl e \<Rightarrow> []
      | Inr rows \<Rightarrow> rev rows)"

text \<open>
  The four patterns of \<open>_detect_roadmap_request\<close>, searched in the lowered message:
  the Arabic words for path, road map (with \<open>\s*\<close> inside), map and way; how do I
  learn and I want to learn (with \<open>\s+\<close>); \<open>roadmap|road\s*map|path|guide\<close>; and
  \<open>how\s+to\s+learn|learning\s+path\<close>.
\<close>

definition roadmap_keywords :: "rx list" where
  "roadmap_keywords =
     [Alt [Lit [1605, 1587, 1575, 1585],
           Seq [Lit [1585, 1608, 1583], Star is_space, Lit [1605, 1575, 1576]],
           Lit [1582, 1585, 1610, 1591, 1577],
           Lit [1591, 1585, 1610, 1602]],
      Alt [Seq [Lit [1575, 1586, 1575, 1610], Plus is_space, Lit [1575, 1578, 1593, 1604, 1605]],
           Seq [Lit [1603, 1610, 1601], Plus is_space, Lit [1575, 1578, 1593, 1604, 1605]],
           Seq [Lit [1593, 1575, 1610, 1586], Plus is_space, Lit [1575, 1578, 1593, 1604, 1605]]],
      Alt [Lit (ustr ''roadmap''),
           Seq [Lit (ustr ''road''), Star is_space, Lit (ustr ''map'')],
           Lit (ustr ''path''),
           Lit (ustr ''guide'')],
      Alt [Seq [Lit (ustr ''how''), Plus is_space, Lit (ustr ''to''), Plus is_space,
                Lit (ustr ''learn'')],
           Seq [Lit (ustr ''learning''), Plus is_space, Lit (ustr ''path'')]]]"

definition detect_roadmap_request :: "pylib \<Rightarrow> pystr \<Rightarrow> pystr option" where
  "detect_roadmap_request L message =
     (let message_lower = lower L message
      in if list_ex (\<lambda>pattern. re_search pattern message_lower) roadmap_keywords
         then Some message_lower else None)"

text \<open>
  \<open>_format_roadmap_context\<close>: \<open>roadmap['title']\<close>, \<open>roadmap['description']\<close> and
  \<open>roadmap['url']\<close> raise \<open>KeyError\<close> when missing; an f-string takes \<open>str\<close> of the value.
\<close>

definition format_roadmap :: "pylib \<Rightarrow> pydict \<Rightarrow> py_error + pydict" where
  "format_roadmap L roadmap =
     (case dict_item roadmap (ustr ''title'') of
        Inl e \<Rightarrow> Inl e
      | Inr title \<Rightarrow>
        (case dict_item roadmap (ustr ''description'') of
           Inl e \<Rightarrow> Inl e
         | Inr description \<Rightarrow>
           (case dict_item roadmap (ustr ''url'') of
              Inl e \<Rightarrow> Inl e
            | Inr url \<Rightarrow>
                Inr [(ustr ''question_ar'',
                        VStr ([1605, 1575, 32, 1607, 1608, 32, 1605, 1587, 1575, 1585, 32]
                              @ py_str L title @ [1567])),
                     (ustr ''answer_ar'',
                        VStr (py_str L description
                              @ [10, 10, 1575, 1604, 1585, 1575, 1576, 1591, 58, 32]
                              @ py_str L url)),
                     (ustr ''question_en'',
                        VStr (ustr ''What is the '' @ py_str L title @ ustr '' roadmap?'')),
                     (ustr ''answer_en'',
                        VStr (py_str L description @ [10, 10] @ ustr ''Link: '' @ py_str L url))])))"

fun format_roadmap_context :: "pylib \<Rightarrow> pydict list \<Rightarrow> py_error + pydict list" where
  "format_roadmap_context L [] = Inr []"
| "format_roadmap_context L (roadmap # roadmaps) =
     (case format_roadmap L roadmap of
        Inl e \<Rightarrow> Inl e
      | Inr formatted \<Rightarrow>
          (case format_roadmap_context L roadmaps of
             Inl e \<Rightarrow> Inl e
           | Inr rest \<Rightarrow> Inr (formatted # rest)))"

text \<open>
  \<open>_save_conversation\<close>: the user turn, then the assistant turn; an insert that fails
  raises, which ends the function (the exception is logged and swallowed).
\<close>

definition save_conversation ::
  "world \<Rightarrow> pystr \<Rightarrow> pystr \<Rightarrow> pystr \<Rightarrow> pystr \<Rightarrow> effects \<Rightarrow> effects" where
  "save_conversation W session_id user_message bot_response language st =
     (let user_turn = \<lparr>s_session_id = session_id, s_role = ustr ''user'',
                        s_content = user_message, s_language = language\<rparr>;
          bot_turn = \<lparr>s_session_id = session_id, s_role = ustr ''assistant'',
                       s_content = bot_response, s_language = language\<rparr>
      in if \<not> w_insert W user_turn then st
         else if \<not> w_insert W bot_turn then st\<lparr>saved := saved st @ [user_turn]\<rparr>
         else st\<lparr>saved := saved st @ [user_turn, bot_turn]\<rparr>)"

text \<open>
  \<open>process_message\<close>, stage by stage. \<open>prepare\<close> is the stages 1 to 4 (session
  identifier, language, history, contextualisation) and gives the values that the later
  stages use. \<open>retrieve\<close> is the stages 5 and 6: \<open>Inr (Some context)\<close> when the pipeline
  goes on with a context, \<open>Inr None\<close> when the roadmap search found nothing, \<open>Inl e\<close> when
  formatting the roadmaps raised.
\<close>

record prepared =
  p_session_id :: pystr
  p_detected_lang :: LanguageType
  p_language_confidence :: real
  p_user_language :: LanguageType
  p_history :: "turn list"
  p_refined_message :: pystr

definition prepare ::
  "world \<Rightarrow> pystr \<Rightarrow> pystr option \<Rightarrow> pystr \<Rightarrow> effects \<Rightarrow> prepared \<times> effects" where
  "prepare W message session_id preferred_language st =
     (let session_id = (case session_id of
                          None \<Rightarrow> w_uuid W
                        | Some s \<Rightarrow> if s = [] then w_uuid W else s);
          detected = detect_with_confidence (w_lib W) message;
          user_language = determine_response_language (fst detected) preferred_language;
          conversation_history = get_conversation_history W session_id 8;
          refined = (if conversation_history \<noteq> []
                     then contextualize_query W message conversation_history st
                     else (message, st))
      in (\<lparr>p_session_id = session_id,
           p_detected_lang = fst detected,
           p_language_confidence = snd detected,
           p_user_language = user_language,
           p_history = conversation_history,
           p_refined_message = fst refined\<rparr>,
          snd refined))"

definition retrieve ::
  "world \<Rightarrow> pystr \<Rightarrow> LanguageType \<Rightarrow> py_error + pydict list option" where
  "retrieve W refined_message user_language =
     (case detect_roadmap_request (w_lib W) refined_message of
        Some roadmap_query \<Rightarrow>
          (let roadmaps = search_roadmaps (w_lib W) (w_embedder W) (w_store W)
                            refined_message 3 True
           in if roadmaps \<noteq> [] then
                (case format_roadmap_context (w_lib W) roadmaps of
                   Inl e \<Rightarrow> Inl e
                 | Inr context \<Rightarrow> Inr (Some context))
              else Inr None)
      | None \<Rightarrow>
          Inr (Some (search_faqs (w_lib W) (w_embedder W) (w_store W) refined_message
                       (lang_value user_language))))"

definition process_message ::
  "world \<Rightarrow> pystr \<Rightarrow> pystr option \<Rightarrow> pystr \<Rightarrow> effects \<Rightarrow> chat_response \<times> effects" where
  "process_message W message session_id preferred_language st =
     (case prepare W message session_id preferred_language st of
        (p, st1) \<Rightarrow>
          (case retrieve W (p_refined_message p) (p_user_language p) of
             Inl e \<Rightarrow> (generate_error_response preferred_language (p_session_id p), st1)
           | Inr None \<Rightarrow>
               (generate_fallback_response (p_user_language p) (p_session_id p)
                  (lang_value (p_detected_lang p)),
                st1)
           | Inr (Some context) \<Rightarrow>
               (case generate_response W message context (p_history p) (p_user_language p) st1
                of (Inl e, st2) \<Rightarrow>
                     (generate_error_response preferred_language (p_session_id p), st2)
                 | (Inr response, st2) \<Rightarrow>
                     (\<lparr>r_response = resp_text response,
                       r_session_id = p_session_id p,
                       r_user_language = lang_value (p_user_language p),
                       r_detected_language = Some (lang_value (p_detected_lang p)),
                       r_language_confidence = Some (p_language_confidence p),
                       r_response_language = lang_value (p_user_language p),
                       r_is_egyptian = (p_user_language p = ARABIC_EGYPTIAN),
                       r_confidence = resp_confidence response\<rparr>,
                      save_conversation W (p_session_id p) message (resp_text response)
                        (lang_value (p_user_language p)) st2))))"


section \<open>Example worlds\<close>

text \<open>
  Three worlds for the orchestrator. In \<open>failing_world\<close> the session has no history,
  the embedding service is offline and the completion model answers every call with a
  rate-limit error. \<open>flaky_world\<close> differs in the completion model only: its first call
  fails with a rate-limit error and every later call answers. In \<open>history_world\<close> the
  session has one earlier turn, the completion model rewrites the follow-up into
  \<open>backend roadmap\<close>, and the store holds no roadmap.
\<close>

definition failing_world :: world where
  "failing_world =
     \<lparr>w_lib = sample_lib,
      w_embedder = offline_embedder,
      w_store = sample_store,
      w_history = (\<lambda>s n. Inr []),
      w_complete = (\<lambda>n c. Inl RateLimitError),
      w_insert = (\<lambda>t. True),
      w_uuid = ustr ''session-1''\<rparr>"

definition flaky_world :: world where
  "flaky_world =
     failing_world
       \<lparr>w_complete := (\<lambda>n c. if n = 0 then Inl RateLimitError
                              else Inr (ustr ''Backend is the server side.'', 12))\<rparr>"

definition history_world :: world where
  "history_world =
     \<lparr>w_lib = sample_lib,
      w_embedder = offline_embedder,
      w_store = empty_store,
      w_history = (\<lambda>s n. Inr [\<lparr>t_role = ustr ''user'', t_content = ustr ''backend''\<rparr>]),
      w_complete = (\<lambda>n c. Inr (ustr ''backend roadmap'', 7)),
      w_insert = (\<lambda>t. True),
      w_uuid = ustr ''session-1''\<rparr>"

definition no_effects :: effects where
  "no_effects = \<lparr>llm_log = [], saved = []\<rparr>"


section \<open>Auxiliary notions for the proofs\<close>

text \<open>
  \<open>url_at t\<close>: the pattern \<open>https?://[^\s<>"]+\<close> matches at the start of \<open>t\<close>; \<open>no_url t\<close>:
  it matches nowhere in \<open>t\<close>; \<open>url_shaped u\<close>: it matches the whole of \<open>u\<close>.
\<close>

definition url_at :: "pystr \<Rightarrow> bool" where
  "url_at t =
     ((take 7 t = ustr ''http://'' \<and> 7 < length t \<and> url_char (t ! 7))
      \<or> (take 8 t = ustr ''https://'' \<and> 8 < length t \<and> url_char (t ! 8)))"

definition no_url :: "pystr \<Rightarrow> bool" where
  "no_url t = (\<forall>i. \<not> url_at (drop i t))"

definition url_shaped :: "pystr \<Rightarrow> bool" where
  "url_shaped u = (length u \<in> set (rx_ends url_rx u 0))"

text \<open>
  \<open>interleave gaps fills\<close>: the first gap, the first filling, the second gap, and so
  on, as one string.
\<close>

fun interleave :: "pystr list \<Rightarrow> pystr list \<Rightarrow> pystr" where
  "interleave [] fs = []"
| "interleave (g # gs) [] = g"
| "interleave (g # gs) (f # fs) = g @ f @ interleave gs fs"


text \<open>
  \<open>comparable q d\<close>: the candidate \<open>d\<close> carries a non-empty embedding of the dimension of
  the query embedding \<open>q\<close>.
\<close>

definition comparable :: "real list \<Rightarrow> pydict \<Rightarrow> bool" where
  "comparable q d =
     (case dict_get d (ustr ''embedding'') of
        VVec v \<Rightarrow> v \<noteq> [] \<and> length v = length q
      | _ \<Rightarrow> False)"

text \<open>\<open>fuzzy_hit L vs r\<close>: the roadmap \<open>r\<close> scores above the threshold 0.15.\<close>

definition fuzzy_hit :: "pylib \<Rightarrow> pystr list \<Rightarrow> pydict \<Rightarrow> bool" where
  "fuzzy_hit L vs r =
     (case roadmap_fields L r of
        Inl e \<Rightarrow> False
      | Inr cleaned \<Rightarrow> fields_score L vs cleaned > binary64 (15 / 100))"

section \<open>Properties of the rounding to binary64\<close>

text \<open>
  Zero is kept, the sign is kept, and a power of two (from \<open>2 ^ -1022\<close> on) is a bound
  that rounding does not cross: the powers of two are binary64 numbers.
\<close>

lemma binary64_zero: "binary64 0 = 0"
  by (simp add: binary64_def)

lemma round_half_even_nonneg: "0 \<le> q \<Longrightarrow> 0 \<le> round_half_even q"
  by (auto simp: round_half_even_def Let_def)

lemma binary64_nonneg: "0 \<le> x \<Longrightarrow> 0 \<le> binary64 x"
  by (auto simp: binary64_def Let_def intro!: mult_nonneg_nonneg round_half_even_nonneg)

lemma round_half_even_int: "round_half_even (of_int n) = n"
  by (simp add: round_half_even_def)

lemma round_half_even_le:
  assumes "q \<le> of_int n"
  shows "round_half_even q \<le> n"
proof -
  have f: "\<lfloor>q\<rfloor> \<le> n" using assms by (simp add: floor_le_iff)
  show ?thesis
  proof (cases "\<lfloor>q\<rfloor> = n")
    case True
    then have "q - of_int \<lfloor>q\<rfloor> \<le> 0" using assms by simp
    then show ?thesis using True by (simp add: round_half_even_def Let_def)
  next
    case False
    then have "\<lfloor>q\<rfloor> + 1 \<le> n" using f by simp
    then show ?thesis by (simp add: round_half_even_def Let_def)
  qed
qed

lemma round_half_even_ge:
  assumes "of_int n \<le> q"
  shows "n \<le> round_half_even q"
proof -
  have f: "n \<le> \<lfloor>q\<rfloor>" using assms by (simp add: le_floor_iff)
  then show ?thesis by (simp add: round_half_even_def Let_def)
qed


lemma two_powr_int: "0 \<le> k \<Longrightarrow> (2::real) powr of_int k = of_int (2 ^ nat k)"
  by (simp add: powr_real_of_int)

lemma two_powr_add: "(2::real) powr of_int (a + b) = 2 powr of_int a * 2 powr of_int b"
  by (simp add: powr_add)

lemma floor_log2_le:
  assumes "0 < x" "x \<le> 2 powr of_int k"
  shows "\<lfloor>log 2 x\<rfloor> \<le> k"
proof -
  have "log 2 x \<le> log 2 (2 powr of_int k)" using assms by (simp del: log_powr_cancel)
  then have "log 2 x \<le> of_int k" by simp
  then show ?thesis by (simp add: floor_le_iff)
qed

lemma floor_log2_ge:
  assumes "2 powr of_int k \<le> x"
  shows "k \<le> \<lfloor>log 2 x\<rfloor>"
proof -
  have p: "0 < (2::real) powr of_int k" by simp
  then have x: "0 < x" using assms by linarith
  have "log 2 (2 powr of_int k) \<le> log 2 x" using assms p x by (simp del: log_powr_cancel)
  then have "of_int k \<le> log 2 x" by simp
  then show ?thesis by (simp add: le_floor_iff)
qed

lemma binary64_le_power:
  assumes x: "0 < x" and le: "x \<le> 2 powr of_int k" and k: "- 1022 \<le> k"
  shows "binary64 x \<le> 2 powr of_int k"
proof -
  define e where "e = max \<lfloor>log 2 \<bar>x\<bar>\<rfloor> (- 1022) - 52"
  define u :: real where "u = 2 powr of_int e"
  have u0: "0 < u" by (simp add: u_def)
  have "\<lfloor>log 2 \<bar>x\<bar>\<rfloor> \<le> k" using floor_log2_le[OF x le] x by simp
  then have ke: "0 \<le> k - e" using k by (simp add: e_def)
  have "2 powr of_int k = 2 powr of_int ((k - e) + e)" by simp
  also have "\<dots> = 2 powr of_int (k - e) * u" unfolding u_def by (rule two_powr_add)
  finally have split: "2 powr of_int k = of_int (2 ^ nat (k - e)) * u"
    using two_powr_int[OF ke] by simp
  have "x / u \<le> of_int (2 ^ nat (k - e))"
    using le u0 unfolding split by (simp add: field_simps)
  then have "round_half_even (x / u) \<le> 2 ^ nat (k - e)" by (rule round_half_even_le)
  then have "of_int (round_half_even (x / u)) \<le> (of_int (2 ^ nat (k - e)) :: real)"
    by (simp only: of_int_le_iff)
  then have "of_int (round_half_even (x / u)) * u \<le> of_int (2 ^ nat (k - e)) * u"
    using u0 by (simp only: mult_le_cancel_right) simp
  moreover have "binary64 x = of_int (round_half_even (x / u)) * u"
    using x by (simp add: binary64_def Let_def e_def u_def)
  ultimately show ?thesis using split by simp
qed

lemma binary64_ge_power:
  assumes ge: "2 powr of_int k \<le> x" and k: "- 1022 \<le> k"
  shows "2 powr of_int k \<le> binary64 x"
proof -
  have p: "0 < (2::real) powr of_int k" by simp
  then have x: "0 < x" using ge by linarith
  define e0 where "e0 = \<lfloor>log 2 \<bar>x\<bar>\<rfloor>"
  define u :: real where "u = 2 powr of_int (e0 - 52)"
  have u0: "0 < u" by (simp add: u_def)
  have ke: "k \<le> e0" using floor_log2_ge[OF ge] x by (simp add: e0_def)
  then have m: "max e0 (- 1022) = e0" using k by simp
  have fl: "2 powr of_int e0 \<le> x"
    using floor_log_eq_powr_iff[of x 2 e0] x by (simp add: e0_def)
  have "2 powr of_int e0 = 2 powr of_int (52 + (e0 - 52))" by simp
  also have "\<dots> = 2 powr of_int 52 * u" unfolding u_def by (rule two_powr_add)
  finally have split: "2 powr of_int e0 = of_int (2 ^ 52) * u"
    using two_powr_int[of 52] by simp
  have "of_int (2 ^ 52) \<le> x / u"
    using fl u0 unfolding split by (simp add: field_simps)
  then have "2 ^ 52 \<le> round_half_even (x / u)" by (rule round_half_even_ge)
  then have "(of_int (2 ^ 52) :: real) \<le> of_int (round_half_even (x / u))"
    by (simp only: of_int_le_iff)
  then have "of_int (2 ^ 52) * u \<le> of_int (round_half_even (x / u)) * u"
    using u0 by (simp only: mult_le_cancel_right) simp
  moreover have "binary64 x = of_int (round_half_even (x / u)) * u"
    using x m by (simp add: binary64_def Let_def e0_def u_def)
  moreover have "(2::real) powr of_int k \<le> 2 powr of_int e0" using ke by simp
  ultimately show ?thesis using split by simp
qed

lemma binary64_power: "- 1022 \<le> k \<Longrightarrow> binary64 (2 powr of_int k) = 2 powr of_int k"
  using binary64_le_power[of "2 powr of_int k" k] binary64_ge_power[of k "2 powr of_int k"]
  by simp

lemma binary64_one: "binary64 1 = 1"
  using binary64_power[of 0] by simp

lemma binary64_half: "binary64 (1 / 2) = 1 / 2"
  using binary64_power[of "- 1"] by (simp add: powr_neg_one)

lemma binary64_le_one: "x \<le> 1 \<Longrightarrow> binary64 x \<le> 1"
proof (cases "0 < x")
  case True
  assume "x \<le> 1"
  then show ?thesis using binary64_le_power[of x 0] True by simp
next
  case False
  then have "x = 0 \<or> x < 0" by linarith
  then show ?thesis
  proof
    assume "x = 0" then show ?thesis by (simp add: binary64_zero)
  next
    assume n: "x < 0"
    have "round_half_even (x / 2 powr of_int (max \<lfloor>log 2 \<bar>x\<bar>\<rfloor> (- 1022) - 52)) \<le> 0"
      by (rule round_half_even_le) (use n in \<open>simp add: divide_nonpos_pos less_imp_le\<close>)
    then have "binary64 x \<le> 0"
      using n by (simp add: binary64_def Let_def mult_nonpos_nonneg)
    then show ?thesis by simp
  qed
qed

text \<open>
  The value of \<open>binary64\<close> at a number whose exponent is known, which evaluates it at
  any given rational, and its value at the literals of the detector.
\<close>

lemma binary64_eval:
  assumes "2 powr of_int e \<le> \<bar>x\<bar>" "\<bar>x\<bar> < 2 powr of_int (e + 1)" "- 1022 \<le> e"
  shows "binary64 x =
           of_int (round_half_even (x / 2 powr of_int (e - 52))) * 2 powr of_int (e - 52)"
proof -
  have p: "0 < (2::real) powr of_int e" by simp
  then have x: "0 < \<bar>x\<bar>" using assms(1) by linarith
  then have f: "\<lfloor>log 2 \<bar>x\<bar>\<rfloor> = e"
    using floor_log_eq_powr_iff[of "\<bar>x\<bar>" 2 e] assms(1,2) by simp
  have "x \<noteq> 0" using x by simp
  then show ?thesis using assms(3) by (simp add: binary64_def Let_def f)
qed

lemmas binary64_simps = powr_neg_numeral powr_numeral round_half_even_def Let_def

lemma binary64_seven_tenths: "binary64 (7 / 10) = 3152519739159347 / 4503599627370496"
  using binary64_eval[of "- 1" "7 / 10"] by (simp add: binary64_simps)

lemma binary64_three_tenths: "binary64 (3 / 10) = 5404319552844595 / 18014398509481984"
  using binary64_eval[of "- 2" "3 / 10"] by (simp add: binary64_simps)

lemma binary64_six_tenths: "binary64 (6 / 10) = 5404319552844595 / 9007199254740992"
  using binary64_eval[of "- 1" "6 / 10"] by (simp add: binary64_simps)

lemma binary64_five_sixths: "binary64 (5 / 6) = 7505999378950827 / 9007199254740992"
  using binary64_eval[of "- 1" "5 / 6"] by (simp add: binary64_simps)

lemma binary64_one_eighteenth: "binary64 (1 / 18) = 2001599834386887 / 36028797018963968"
  using binary64_eval[of "- 5" "1 / 18"] by (simp add: binary64_simps)

text \<open>
  The score of a text that matches five of the six patterns and has one education term
  among eighteen words: over the reals it would be the threshold 0.6 itself; the floats
  give \<open>0.6000000000000001\<close>, which is above the float \<open>0.6\<close>.
\<close>

lemma rounding_crosses_threshold:
  "(5 / 6) * (7 / 10) + (1 / 18) * (3 / 10) = (6 / 10 :: real)
   \<and> binary64 (binary64 (binary64 (5 / 6) * binary64 (7 / 10))
                + binary64 (binary64 (1 / 18) * binary64 (3 / 10)))
       = 1351079888211149 / 2251799813685248
   \<and> binary64 (binary64 (binary64 (5 / 6) * binary64 (7 / 10))
                + binary64 (binary64 (1 / 18) * binary64 (3 / 10)))
       > binary64 (6 / 10)"
proof -
  have p1: "binary64 (binary64 (5 / 6) * binary64 (7 / 10))
            = 5254199565265579 / 9007199254740992"
    unfolding binary64_five_sixths binary64_seven_tenths
    using binary64_eval[of "- 1" "7505999378950827 / 9007199254740992
                                   * (3152519739159347 / 4503599627370496)"]
    by (simp add: binary64_simps)
  have p2: "binary64 (binary64 (1 / 18) * binary64 (3 / 10))
            = 4803839602528529 / 288230376151711744"
    unfolding binary64_one_eighteenth binary64_three_tenths
    using binary64_eval[of "- 6" "2001599834386887 / 36028797018963968
                                   * (5404319552844595 / 18014398509481984)"]
    by (simp add: binary64_simps)
  have s: "binary64 (5254199565265579 / 9007199254740992
                     + 4803839602528529 / 288230376151711744)
           = 1351079888211149 / 2251799813685248"
    using binary64_eval[of "- 1" "5254199565265579 / 9007199254740992
                                   + 4803839602528529 / 288230376151711744"]
    by (simp add: binary64_simps)
  show ?thesis unfolding p1 p2 s binary64_six_tenths by simp
qed

section \<open>Properties of \<open>lower\<close>\<close>

text \<open>On ASCII and whitespace \<open>lower\<close> asks no table.\<close>

lemma lower_from_plain:
  "list_all (\<lambda>c. c < 128 \<or> is_space c) s \<Longrightarrow> lower_from L before s = map lower_cp s"
  by (induction s arbitrary: before) auto

lemma lower_plain:
  "list_all (\<lambda>c. c < 128 \<or> is_space c) s \<Longrightarrow> lower L s = map lower_cp s"
  by (simp add: lower_def lower_from_plain)


section \<open>Properties of the grounding validator\<close>

lemma ustr_http: "ustr ''http'' = [104,116,116,112]"
  by (simp add: ustr_def)
lemma ustr_s: "ustr ''s'' = [115]"
  by (simp add: ustr_def)
lemma ustr_css: "ustr ''://'' = [58,47,47]"
  by (simp add: ustr_def)
lemma ustr_http7: "ustr ''http://'' = [104,116,116,112,58,47,47]"
  by (simp add: ustr_def)
lemma ustr_https8: "ustr ''https://'' = [104,116,116,112,115,58,47,47]"
  by (simp add: ustr_def)

lemma take_nth_split:
  assumes "take n t = l" "n < length t"
  shows "t = l @ t ! n # drop (Suc n) t"
proof -
  have "t = take n t @ drop n t" by simp
  also have "drop n t = t ! n # drop (Suc n) t" using assms(2) by (simp add: Cons_nth_drop_Suc)
  finally show ?thesis using assms(1) by simp
qed

lemma url_at_iff:
  "url_at t \<longleftrightarrow> (\<exists>x r. url_char x \<and> (t = ustr ''http://'' @ x # r \<or> t = ustr ''https://'' @ x # r))"
proof
  assume "url_at t"
  then consider "take 7 t = ustr ''http://''" "7 < length t" "url_char (t ! 7)"
    | "take 8 t = ustr ''https://''" "8 < length t" "url_char (t ! 8)"
    unfolding url_at_def by blast
  then show "\<exists>x r. url_char x \<and> (t = ustr ''http://'' @ x # r \<or> t = ustr ''https://'' @ x # r)"
  proof cases
    case 1
    from take_nth_split[OF 1(1) 1(2)] 1(3) show ?thesis by blast
  next
    case 2
    from take_nth_split[OF 2(1) 2(2)] 2(3) show ?thesis by blast
  qed
next
  assume "\<exists>x r. url_char x \<and> (t = ustr ''http://'' @ x # r \<or> t = ustr ''https://'' @ x # r)"
  then show "url_at t"
    by (auto simp: url_at_def ustr_http7 ustr_https8)
qed

lemma drop_plus: "drop (i + k) s = drop k (drop i s)"
  by (simp add: add.commute)

lemma plus_ends_Cons:
  "drop k s = x # r \<Longrightarrow> p x \<Longrightarrow>
   rx_ends (Plus p) s k \<noteq> [] \<and> hd (rx_ends (Plus p) s k) = k + Suc (length (takeWhile p r))"
  by (simp add: hd_rev)

lemma plus_ends_empty:
  "rx_ends (Plus p) s k \<noteq> [] \<Longrightarrow> drop k s \<noteq> [] \<and> p (hd (drop k s))"
  by (cases "drop k s") (auto split: if_splits)

lemma seq_lit_ends:
  "rx_ends (Seq (Lit l # rs)) s i =
     (if take (length l) (drop i s) = l then rx_ends (Seq rs) s (i + length l) else [])"
  by simp

lemma seq_opt_ends:
  "rx_ends (Seq (Opt r # rs)) s i =
     concat (map (rx_ends (Seq rs) s) (rx_ends r s i)) @ rx_ends (Seq rs) s i"
  by simp

lemma concat_single: "concat (map (\<lambda>j. [j]) xs) = xs"
  by (induction xs) auto

lemma seq_one_ends: "rx_ends (Seq [r]) s i = rx_ends r s i"
proof -
  have "rx_ends (Seq []) s = (\<lambda>j. [j])" by (rule ext) simp
  then show ?thesis by (simp add: concat_single)
qed

lemma lit_ends_eq:
  "rx_ends (Lit l) s i = (if take (length l) (drop i s) = l then [i + length l] else [])"
  by simp

lemma len_http: "length (ustr ''http'') = 4"
  by (simp add: ustr_def)

lemma len_s: "length (ustr ''s'') = 1"
  by (simp add: ustr_def)

lemma len_css: "length (ustr ''://'') = 3"
  by (simp add: ustr_def)

lemma url_ends_unfold:
  "rx_ends url_rx s i =
     (if take 4 (drop i s) = ustr ''http'' then
        (if take 1 (drop (i + 4) s) = ustr ''s'' then
           (if take 3 (drop (i + 4 + 1) s) = ustr ''://''
            then rx_ends (Plus url_char) s (i + 4 + 1 + 3) else [])
         else []) @
        (if take 3 (drop (i + 4) s) = ustr ''://''
         then rx_ends (Plus url_char) s (i + 4 + 3) else [])
      else [])"
  unfolding url_rx_def seq_lit_ends seq_opt_ends seq_one_ends lit_ends_eq len_http len_s len_css
  by (simp del: rx_ends.simps)

lemma url_ends_http:
  assumes "drop i s = ustr ''http://'' @ x # r" "url_char x"
  shows "rx_ends url_rx s i \<noteq> [] \<and> hd (rx_ends url_rx s i) = i + 8 + length (takeWhile url_char r)"
proof -
  have "drop (i + 4 + 3) s = drop 7 (drop i s)" by (simp add: add.commute)
  then have d7: "drop (i + 4 + 3) s = x # r" using assms(1) by (simp add: ustr_http7)
  have "drop (i + 4) s = drop 4 (drop i s)" by (simp add: add.commute)
  then have d4: "drop (i + 4) s = ustr ''://'' @ x # r"
    using assms(1) by (simp add: ustr_http7 ustr_css)
  have t4: "take 4 (drop i s) = ustr ''http''"
    using assms(1) by (simp add: ustr_http7 ustr_http)
  have e: "rx_ends url_rx s i = rx_ends (Plus url_char) s (i + 4 + 3)"
    unfolding url_ends_unfold d4 using t4 by (simp add: ustr_css ustr_s del: rx_ends.simps)
  show ?thesis using plus_ends_Cons[where p=url_char, OF d7 assms(2)] e by simp
qed

lemma url_ends_https:
  assumes "drop i s = ustr ''https://'' @ x # r" "url_char x"
  shows "rx_ends url_rx s i \<noteq> [] \<and> hd (rx_ends url_rx s i) = i + 9 + length (takeWhile url_char r)"
proof -
  have "drop (i + 4 + 1 + 3) s = drop 8 (drop i s)" by (simp add: add.commute)
  then have d8: "drop (i + 4 + 1 + 3) s = x # r" using assms(1) by (simp add: ustr_https8)
  have "drop (i + 4 + 1) s = drop 5 (drop i s)" by (simp add: add.commute)
  then have d5: "drop (i + 4 + 1) s = ustr ''://'' @ x # r"
    using assms(1) by (simp add: ustr_https8 ustr_css)
  have "drop (i + 4) s = drop 4 (drop i s)" by (simp add: add.commute)
  then have d4: "drop (i + 4) s = ustr ''s'' @ ustr ''://'' @ x # r"
    using assms(1) by (simp add: ustr_https8 ustr_css ustr_s)
  have t4: "take 4 (drop i s) = ustr ''http''"
    using assms(1) by (simp add: ustr_https8 ustr_http)
  have e: "rx_ends url_rx s i = rx_ends (Plus url_char) s (i + 4 + 1 + 3)"
    unfolding url_ends_unfold d4 d5 using t4 plus_ends_Cons[where p=url_char, OF d8 assms(2)]
    by (simp add: ustr_css ustr_s del: rx_ends.simps)
  show ?thesis using plus_ends_Cons[where p=url_char, OF d8 assms(2)] e by simp
qed

lemma url_ends_at:
  assumes "rx_ends url_rx s i \<noteq> []"
  shows "url_at (drop i s)"
proof -
  let ?t = "drop i s"
  from assms have t4: "take 4 ?t = ustr ''http''"
    unfolding url_ends_unfold by (simp split: if_splits del: rx_ends.simps)
  from assms consider
      (s) "take 1 (drop 4 ?t) = ustr ''s''" "take 3 (drop 5 ?t) = ustr ''://''"
          "rx_ends (Plus url_char) s (i + 4 + 1 + 3) \<noteq> []"
    | (p) "take 3 (drop 4 ?t) = ustr ''://''" "rx_ends (Plus url_char) s (i + 4 + 3) \<noteq> []"
    unfolding url_ends_unfold
    by (auto split: if_splits simp: add.commute simp del: rx_ends.simps)
  then show ?thesis
  proof cases
    case s
    from plus_ends_empty[OF s(3)] have "drop 8 ?t \<noteq> []" "url_char (hd (drop 8 ?t))"
      by (simp_all add: add.commute)
    then have "8 < length ?t" "url_char (?t ! 8)"
      by (simp_all add: hd_drop_conv_nth add.commute)
    moreover have "take 8 ?t = ustr ''https://''"
    proof -
      have a: "take (4 + 4) ?t = take 4 ?t @ take 4 (drop 4 ?t)"
        by (rule take_add)
      have b: "take (1 + 3) (drop 4 ?t) = take 1 (drop 4 ?t) @ take 3 (drop 1 (drop 4 ?t))"
        by (rule take_add)
      have c: "drop 1 (drop 4 ?t) = drop 5 ?t" by simp
      from a b c show ?thesis using t4 s(1,2) by (simp add: ustr_def)
    qed
    ultimately show ?thesis by (simp add: url_at_def)
  next
    case p
    from plus_ends_empty[OF p(2)] have "drop 7 ?t \<noteq> []" "url_char (hd (drop 7 ?t))"
      by (simp_all add: add.commute)
    then have "7 < length ?t" "url_char (?t ! 7)"
      by (simp_all add: hd_drop_conv_nth add.commute)
    moreover have "take 7 ?t = ustr ''http://''"
    proof -
      have "take (4 + 3) ?t = take 4 ?t @ take 3 (drop 4 ?t)"
        by (rule take_add)
      then show ?thesis using t4 p(1) by (simp add: ustr_def)
    qed
    ultimately show ?thesis by (simp add: url_at_def)
  qed
qed


lemma url_ends_iff: "rx_ends url_rx s i \<noteq> [] \<longleftrightarrow> url_at (drop i s)"
proof
  assume "rx_ends url_rx s i \<noteq> []" then show "url_at (drop i s)" by (rule url_ends_at)
next
  assume "url_at (drop i s)"
  then obtain x r where "url_char x"
    "drop i s = ustr ''http://'' @ x # r \<or> drop i s = ustr ''https://'' @ x # r"
    unfolding url_at_iff by blast
  then show "rx_ends url_rx s i \<noteq> []"
    using url_ends_http[of i s x r] url_ends_https[of i s x r] by blast
qed

lemma url_at_hd: "url_at t \<Longrightarrow> t \<noteq> [] \<and> hd t = 104"
  unfolding url_at_iff by (auto simp: ustr_http7 ustr_https8)

lemma url_ends_gt: "rx_ends url_rx s i = j # js \<Longrightarrow> i < j"
proof -
  assume a: "rx_ends url_rx s i = j # js"
  then have "url_at (drop i s)" using url_ends_iff[of s i] by simp
  then obtain x r where "url_char x"
    "drop i s = ustr ''http://'' @ x # r \<or> drop i s = ustr ''https://'' @ x # r"
    unfolding url_at_iff by blast
  then have "hd (rx_ends url_rx s i) > i"
    using url_ends_http[of i s x r] url_ends_https[of i s x r] by auto
  then show ?thesis using a by simp
qed

lemma no_url_findall: "no_url t \<Longrightarrow> re_findall_from url_rx t i = []"
proof (induction url_rx t i rule: re_findall_from.induct)
  case (1 s i)
  have e: "rx_ends url_rx s i = []" using 1(3) url_ends_iff[of s i] by (simp add: no_url_def)
  show ?case
  proof (cases "length s < i")
    case True then show ?thesis by (simp add: re_findall_from.simps)
  next
    case False
    then show ?thesis using 1(1)[OF False e 1(3)] e by (subst re_findall_from.simps) simp
  qed
qed

lemma sub_end: "length s \<le> k \<Longrightarrow> re_sub_from url_rx P s k = []"
proof -
  assume a: "length s \<le> k"
  have e: "rx_ends url_rx s k = []" using a url_ends_iff[of s k] url_at_hd[of "drop k s"] by auto
  show ?thesis
  proof (cases "length s < k")
    case True then show ?thesis by (subst re_sub_from.simps) simp
  next
    case False
    then have "re_sub_from url_rx P s k = re_sub_from url_rx P s (Suc k)"
      using e a by (subst re_sub_from.simps) simp
    also have "\<dots> = []" using a by (subst re_sub_from.simps) simp
    finally show ?thesis .
  qed
qed

lemma sub_step_nomatch:
  assumes "rx_ends url_rx s k = []" "k < length s"
  shows "re_sub_from url_rx P s k = s ! k # re_sub_from url_rx P s (Suc k)"
  using assms by (subst re_sub_from.simps) (simp add: take_Suc_conv_app_nth hd_drop_conv_nth)

lemma sub_step_match:
  assumes "rx_ends url_rx s k = j # js"
  shows "re_sub_from url_rx P s k = P @ re_sub_from url_rx P s j \<and> k < j \<and> k < length s"
proof -
  have kj: "k < j" using url_ends_gt[OF assms] .
  have "url_at (drop k s)" using assms url_ends_iff[of s k] by simp
  then have "drop k s \<noteq> []" using url_at_hd by blast
  then have lt: "k < length s" by simp
  have "re_sub_from url_rx P s k = P @ re_sub_from url_rx P s j"
    using assms kj lt by (subst re_sub_from.simps) simp
  then show ?thesis using kj lt by simp
qed

lemma sub_prefix:
  assumes "P \<noteq> []" "hd P \<notin> set pre" "take (length pre) (re_sub_from url_rx P s k) = pre"
  shows "take (length pre) (drop k s) = pre \<and>
         re_sub_from url_rx P s k = pre @ re_sub_from url_rx P s (k + length pre)"
  using assms
proof (induction pre arbitrary: k)
  case Nil
  then show ?case by simp
next
  case (Cons x pre)
  let ?out = "re_sub_from url_rx P s k"
  from Cons.prems(3) have ne: "?out \<noteq> []" by auto
  then have lt: "k < length s" using sub_end[of s k P] by (cases "k < length s") auto
  have nomatch: "rx_ends url_rx s k = []"
  proof (cases "rx_ends url_rx s k")
    case Nil then show ?thesis .
  next
    case (Cons j js)
    from sub_step_match[OF Cons, of P] have "hd ?out = hd P" using Cons.prems(1) by simp
    moreover have "hd ?out = x" using Cons.prems(3) ne by (cases ?out) auto
    ultimately show ?thesis using Cons.prems(2) by simp
  qed
  have out: "?out = s ! k # re_sub_from url_rx P s (Suc k)"
    using sub_step_nomatch[OF nomatch lt] .
  from Cons.prems(3) out have x: "x = s ! k"
    and t: "take (length pre) (re_sub_from url_rx P s (Suc k)) = pre" by auto
  from Cons.prems(2) have "hd P \<notin> set pre" by simp
  from Cons.IH[OF Cons.prems(1) this t]
  have ih: "take (length pre) (drop (Suc k) s) = pre"
    "re_sub_from url_rx P s (Suc k) = pre @ re_sub_from url_rx P s (Suc k + length pre)" by auto
  have "drop k s = s ! k # drop (Suc k) s" using lt by (simp add: Cons_nth_drop_Suc)
  then show ?case using ih x out by simp
qed

lemma url_char_h: "url_char 104"
  by (simp add: url_char_def is_space_def)

lemma sub_keeps_nomatch:
  assumes P: "P \<noteq> []" "hd P \<notin> {116, 112, 58, 47, 115}"
    and at: "url_at (c # re_sub_from url_rx P s k)"
  shows "url_at (c # drop k s)"
proof -
  let ?R = "re_sub_from url_rx P s k"
  from at obtain x r where x: "url_char x"
    and cr: "c # ?R = ustr ''http://'' @ x # r \<or> c # ?R = ustr ''https://'' @ x # r"
    unfolding url_at_iff by blast
  have key: "url_at (c # drop k s)"
    if pre: "hd P \<notin> set pre" and R: "?R = pre @ x # r"
      and shape: "\<And>y t. url_char y \<Longrightarrow> url_at (c # pre @ y # t)" for pre
  proof -
    have "take (length pre) ?R = pre" using R by simp
    from sub_prefix[OF P(1) pre this]
    have tk: "take (length pre) (drop k s) = pre"
      and Req: "?R = pre @ re_sub_from url_rx P s (k + length pre)" by auto
    let ?k' = "k + length pre"
    have ne: "re_sub_from url_rx P s ?k' = x # r" using R Req by simp
    then have lt: "?k' < length s" using sub_end[of s ?k' P] by (cases "?k' < length s") auto
    have uc: "url_char (s ! ?k')"
    proof (cases "rx_ends url_rx s ?k'")
      case Nil
      from sub_step_nomatch[OF Nil lt, of P] ne x show ?thesis by simp
    next
      case (Cons j js)
      then have "url_at (drop ?k' s)" using url_ends_iff[of s ?k'] by simp
      then have "hd (drop ?k' s) = 104" using url_at_hd by blast
      then have "s ! ?k' = 104" using lt by (simp add: hd_drop_conv_nth)
      then show ?thesis using url_char_h by simp
    qed
    have "length pre < length (drop k s)" using lt by simp
    from take_nth_split[OF tk this]
    have "drop k s = pre @ s ! ?k' # drop (Suc (length pre)) (drop k s)"
      using lt by (simp add: add.commute)
    then show ?thesis using shape[OF uc] by metis
  qed
  from cr show ?thesis
  proof
    assume "c # ?R = ustr ''http://'' @ x # r"
    then have c: "c = 104" and R: "?R = [116, 116, 112, 58, 47, 47] @ x # r"
      by (simp_all add: ustr_http7)
    show ?thesis
    proof (rule key[OF _ R])
      show "hd P \<notin> set [116, 116, 112, 58, 47, 47]" using P(2) by simp
      show "\<And>y t. url_char y \<Longrightarrow> url_at (c # [116, 116, 112, 58, 47, 47] @ y # t)"
        unfolding url_at_iff c by (auto simp: ustr_http7)
    qed
  next
    assume "c # ?R = ustr ''https://'' @ x # r"
    then have c: "c = 104" and R: "?R = [116, 116, 112, 115, 58, 47, 47] @ x # r"
      by (simp_all add: ustr_https8)
    show ?thesis
    proof (rule key[OF _ R])
      show "hd P \<notin> set [116, 116, 112, 115, 58, 47, 47]" using P(2) by simp
      show "\<And>y t. url_char y \<Longrightarrow> url_at (c # [116, 116, 112, 115, 58, 47, 47] @ y # t)"
        unfolding url_at_iff c by (auto simp: ustr_https8)
    qed
  qed
qed

lemma no_url_Nil: "no_url []"
  using url_at_hd by (auto simp: no_url_def)

lemma no_url_Cons: "\<not> url_at (c # t) \<Longrightarrow> no_url t \<Longrightarrow> no_url (c # t)"
  unfolding no_url_def
proof (intro allI)
  fix i assume a: "\<not> url_at (c # t)" "\<forall>i. \<not> url_at (drop i t)"
  show "\<not> url_at (drop i (c # t))" using a by (cases i) auto
qed

lemma no_url_append:
  assumes "104 \<notin> set P" "no_url t"
  shows "no_url (P @ t)"
  using assms(1)
proof (induction P)
  case Nil then show ?case using assms(2) by simp
next
  case (Cons p P)
  then have "no_url (P @ t)" by simp
  moreover have "\<not> url_at (p # P @ t)" using url_at_hd[of "p # P @ t"] Cons.prems by auto
  ultimately show ?case using no_url_Cons by simp
qed

lemma sub_no_url:
  assumes "P \<noteq> []" "hd P \<notin> {116, 112, 58, 47, 115}" "104 \<notin> set P"
  shows "no_url (re_sub_from url_rx P s i)"
  using assms
proof (induction url_rx P s i rule: re_sub_from.induct)
  case (1 P s i)
  show ?case
  proof (cases "i < length s")
    case False
    then show ?thesis using sub_end[of s i P] no_url_Nil by simp
  next
    case lt: True
    then have nl: "\<not> length s < i" by simp
    show ?thesis
    proof (cases "rx_ends url_rx s i")
      case Nil
      have ih: "no_url (re_sub_from url_rx P s (Suc i))"
        using 1(1)[OF nl Nil 1(4) 1(5) 1(6)] .
      have "\<not> url_at (drop i s)" using Nil url_ends_iff[of s i] by simp
      then have "\<not> url_at (s ! i # drop (Suc i) s)" using lt by (simp add: Cons_nth_drop_Suc)
      then have "\<not> url_at (s ! i # re_sub_from url_rx P s (Suc i))"
        using sub_keeps_nomatch[OF 1(4) 1(5)] by blast
      then show ?thesis using sub_step_nomatch[OF Nil lt, of P] ih no_url_Cons by simp
    next
      case (Cons j js)
      from sub_step_match[OF Cons, of P]
      have e: "re_sub_from url_rx P s i = P @ re_sub_from url_rx P s j" and ij: "i < j" by auto
      have ih: "no_url (re_sub_from url_rx P s j)"
        using 1(2)[OF nl Cons ij 1(4) 1(5) 1(6)] .
      show ?thesis unfolding e using no_url_append[OF 1(6) ih] .
    qed
  qed
qed


lemma take_pre_takeWhile:
  "length pre = n \<Longrightarrow> take (n + length (takeWhile p r)) (pre @ r) = pre @ takeWhile p r"
  by (simp add: takeWhile_eq_take[symmetric])

lemma findall_elem_shape:
  "u \<in> set (re_findall_from url_rx s i) \<Longrightarrow>
   \<exists>x r. url_char x \<and> (u = ustr ''http://'' @ x # takeWhile url_char r
                       \<or> u = ustr ''https://'' @ x # takeWhile url_char r)"
proof (induction url_rx s i rule: re_findall_from.induct)
  case (1 s i)
  show ?case
  proof (cases "length s < i")
    case True
    then show ?thesis using 1(3) by (subst (asm) re_findall_from.simps) simp
  next
    case nl: False
    show ?thesis
    proof (cases "rx_ends url_rx s i")
      case Nil
      then have "u \<in> set (re_findall_from url_rx s (Suc i))"
        using 1(3) nl by (subst (asm) re_findall_from.simps) simp
      then show ?thesis using 1(1)[OF nl Nil] by simp
    next
      case (Cons j js)
      have ij: "i < j" using url_ends_gt[OF Cons] .
      from 1(3) have "u = take (j - i) (drop i s) \<or> u \<in> set (re_findall_from url_rx s j)"
        using Cons nl ij by (subst (asm) re_findall_from.simps) simp
      then show ?thesis
      proof
        assume u: "u = take (j - i) (drop i s)"
        have "url_at (drop i s)" using Cons url_ends_iff[of s i] by simp
        then obtain x r where x: "url_char x"
          and d: "drop i s = ustr ''http://'' @ x # r \<or> drop i s = ustr ''https://'' @ x # r"
          unfolding url_at_iff by blast
        from d show ?thesis
        proof
          assume d: "drop i s = ustr ''http://'' @ x # r"
          from url_ends_http[OF d x] Cons have "j = i + 8 + length (takeWhile url_char r)" by simp
          then have "u = ustr ''http://'' @ x # takeWhile url_char r"
            using u d take_pre_takeWhile[of "ustr ''http://'' @ [x]" 8 url_char r]
            by (simp add: ustr_http7)
          then show ?thesis using x by blast
        next
          assume d: "drop i s = ustr ''https://'' @ x # r"
          from url_ends_https[OF d x] Cons have "j = i + 9 + length (takeWhile url_char r)" by simp
          then have "u = ustr ''https://'' @ x # takeWhile url_char r"
            using u d take_pre_takeWhile[of "ustr ''https://'' @ [x]" 9 url_char r]
            by (simp add: ustr_https8)
          then show ?thesis using x by blast
        qed
      next
        assume "u \<in> set (re_findall_from url_rx s j)"
        then show ?thesis using 1(2)[OF nl Cons] ij by simp
      qed
    qed
  qed
qed

lemma findall_elem_url_at: "u \<in> set (re_findall_from url_rx s i) \<Longrightarrow> url_at u"
  using findall_elem_shape[of u s i] unfolding url_at_iff by blast

lemma findall_elem_url_shaped: "u \<in> set (re_findall_from url_rx s i) \<Longrightarrow> url_shaped u"
proof -
  assume "u \<in> set (re_findall_from url_rx s i)"
  then obtain x r where x: "url_char x"
    and d: "u = ustr ''http://'' @ x # takeWhile url_char r
            \<or> u = ustr ''https://'' @ x # takeWhile url_char r"
    using findall_elem_shape by blast
  from d have "rx_ends url_rx u 0 \<noteq> [] \<and> hd (rx_ends url_rx u 0) = length u"
  proof
    assume u: "u = ustr ''http://'' @ x # takeWhile url_char r"
    then have "drop 0 u = ustr ''http://'' @ x # takeWhile url_char r" by simp
    from url_ends_http[OF this x] show ?thesis
      using u by (simp add: ustr_http7)
  next
    assume u: "u = ustr ''https://'' @ x # takeWhile url_char r"
    then have "drop 0 u = ustr ''https://'' @ x # takeWhile url_char r" by simp
    from url_ends_https[OF this x] show ?thesis
      using u by (simp add: ustr_https8)
  qed
  then show ?thesis unfolding url_shaped_def by (metis list.set_sel(1))
qed

lemma contains_drop: "contains t u \<Longrightarrow> \<exists>i r. drop i t = u @ r"
proof (induction t)
  case Nil
  then show ?case by simp
next
  case (Cons c t)
  from Cons.prems have "take (length u) (c # t) = u \<or> contains t u" by simp
  then show ?case
  proof
    assume "take (length u) (c # t) = u"
    then have "drop 0 (c # t) = u @ drop (length u) (c # t)"
      by (metis append_take_drop_id drop0)
    then show ?thesis by blast
  next
    assume "contains t u"
    then obtain i r where "drop i t = u @ r" using Cons.IH by blast
    then have "drop (Suc i) (c # t) = u @ r" by simp
    then show ?thesis by blast
  qed
qed

lemma url_at_append: "url_at u \<Longrightarrow> url_at (u @ r)"
  unfolding url_at_iff by (metis append_Cons append_assoc)

lemma no_url_contains: "no_url t \<Longrightarrow> url_at u \<Longrightarrow> \<not> contains t u"
  using contains_drop[of t u] url_at_append[of u] unfolding no_url_def by metis

lemma link_removed_props:
  "link_removed \<noteq> []" "hd link_removed \<notin> {116, 112, 58, 47, 115}" "104 \<notin> set link_removed"
  by (simp_all add: link_removed_def ustr_def)

lemma findall_end: "length s \<le> k \<Longrightarrow> re_findall_from url_rx s k = []"
proof -
  assume a: "length s \<le> k"
  have e: "rx_ends url_rx s k = []" using a url_ends_iff[of s k] url_at_hd[of "drop k s"] by auto
  show ?thesis
  proof (cases "length s < k")
    case True then show ?thesis by (subst re_findall_from.simps) simp
  next
    case False
    then have "re_findall_from url_rx s k = re_findall_from url_rx s (Suc k)"
      using e by (subst re_findall_from.simps) simp
    also have "\<dots> = []" using a by (subst re_findall_from.simps) simp
    finally show ?thesis .
  qed
qed

lemma findall_step_nomatch:
  assumes "rx_ends url_rx s k = []" "k < length s"
  shows "re_findall_from url_rx s k = re_findall_from url_rx s (Suc k)"
  using assms by (subst re_findall_from.simps) simp

lemma findall_step_match:
  assumes "rx_ends url_rx s k = j # js"
  shows "re_findall_from url_rx s k = take (j - k) (drop k s) # re_findall_from url_rx s j"
proof -
  from sub_step_match[OF assms, of "[]"] have "k < j" "k < length s" by auto
  then show ?thesis using assms by (subst re_findall_from.simps) simp
qed

lemma sub_interleave:
  "\<exists>gaps. length gaps = Suc (length (re_findall_from url_rx s i))
     \<and> drop i s = interleave gaps (re_findall_from url_rx s i)
     \<and> re_sub_from url_rx P s i
         = interleave gaps (map (\<lambda>u. P) (re_findall_from url_rx s i))"
proof (induction url_rx P s i rule: re_sub_from.induct)
  case (1 P s i)
  show ?case
  proof (cases "i < length s")
    case False
    then have "re_findall_from url_rx s i = []" "re_sub_from url_rx P s i = []" "drop i s = []"
      using findall_end[of s i] sub_end[of s i P] by auto
    then have "length [[]::pystr] = Suc (length (re_findall_from url_rx s i))
       \<and> drop i s = interleave [[]] (re_findall_from url_rx s i)
       \<and> re_sub_from url_rx P s i
           = interleave [[]] (map (\<lambda>u. P) (re_findall_from url_rx s i))"
      by simp
    then show ?thesis by blast
  next
    case lt: True
    then have nl: "\<not> length s < i" by simp
    show ?thesis
    proof (cases "rx_ends url_rx s i")
      case Nil
      from 1(1)[OF nl Nil] obtain gaps where
        g: "length gaps = Suc (length (re_findall_from url_rx s (Suc i)))"
        "drop (Suc i) s = interleave gaps (re_findall_from url_rx s (Suc i))"
        "re_sub_from url_rx P s (Suc i)
           = interleave gaps (map (\<lambda>u. P) (re_findall_from url_rx s (Suc i)))"
        by blast
      from g(1) obtain g0 gs where gaps: "gaps = g0 # gs" by (cases gaps) auto
      let ?gaps = "(s ! i # g0) # gs"
      have f: "re_findall_from url_rx s i = re_findall_from url_rx s (Suc i)"
        using findall_step_nomatch[OF Nil lt] .
      have d: "drop i s = s ! i # drop (Suc i) s" using lt by (simp add: Cons_nth_drop_Suc)
      have "length ?gaps = Suc (length (re_findall_from url_rx s i))
         \<and> drop i s = interleave ?gaps (re_findall_from url_rx s i)
         \<and> re_sub_from url_rx P s i
             = interleave ?gaps (map (\<lambda>u. P) (re_findall_from url_rx s i))"
        using g gaps sub_step_nomatch[OF Nil lt, of P] d
        unfolding f by (cases "re_findall_from url_rx s (Suc i)") auto
      then show ?thesis by blast
    next
      case (Cons j js)
      from sub_step_match[OF Cons, of P]
      have e: "re_sub_from url_rx P s i = P @ re_sub_from url_rx P s j" and ij: "i < j" by auto
      from 1(2)[OF nl Cons ij] obtain gaps where
        g: "length gaps = Suc (length (re_findall_from url_rx s j))"
        "drop j s = interleave gaps (re_findall_from url_rx s j)"
        "re_sub_from url_rx P s j
           = interleave gaps (map (\<lambda>u. P) (re_findall_from url_rx s j))"
        by blast
      let ?gaps = "[] # gaps"
      have f: "re_findall_from url_rx s i
                 = take (j - i) (drop i s) # re_findall_from url_rx s j"
        using findall_step_match[OF Cons] .
      have "drop (j - i) (drop i s) = drop j s" using ij by simp
      then have d: "drop i s = take (j - i) (drop i s) @ drop j s"
        by (metis append_take_drop_id)
      have "length ?gaps = Suc (length (re_findall_from url_rx s i))
         \<and> drop i s = interleave ?gaps (re_findall_from url_rx s i)
         \<and> re_sub_from url_rx P s i
             = interleave ?gaps (map (\<lambda>u. P) (re_findall_from url_rx s i))"
        using g e d unfolding f by simp
      then show ?thesis by blast
    qed
  qed
qed

lemma findall_nonempty:
  assumes "url_at (drop i s)" "k \<le> i"
  shows "re_findall_from url_rx s k \<noteq> []"
  using assms(2)
proof (induction "i - k" arbitrary: k rule: less_induct)
  case less
  have "drop i s \<noteq> []" using assms(1) url_at_hd by blast
  then have il: "i < length s" by simp
  then have kl: "k < length s" using less.prems by simp
  show ?case
  proof (cases "rx_ends url_rx s k")
    case (Cons j js)
    then show ?thesis using findall_step_match[OF Cons] by simp
  next
    case Nil
    then have "k \<noteq> i" using assms(1) url_ends_iff[of s i] by auto
    then have "Suc k \<le> i" "i - Suc k < i - k" using less.prems by auto
    from less.hyps[OF this(2) this(1)] show ?thesis
      using findall_step_nomatch[OF Nil kl] by simp
  qed
qed

lemma findall_empty_iff: "re_findall url_rx t = [] \<longleftrightarrow> no_url t"
proof
  assume a: "re_findall url_rx t = []"
  show "no_url t"
    unfolding no_url_def
  proof (intro allI notI)
    fix i assume "url_at (drop i t)"
    from findall_nonempty[OF this, of 0] a show False by (simp add: re_findall_def)
  qed
next
  assume "no_url t"
  then show "re_findall url_rx t = []" using no_url_findall by (simp add: re_findall_def)
qed

text \<open>
  Claim C1. With an empty grounding context the validator returns the text in which
  \<open>re.sub\<close> has put the placeholder \<open>[Link removed - not in database]\<close> for every match
  of the URL pattern: the text is its URLs (the matches that \<open>re.findall\<close> reports)
  with gaps between them, and the result is the same gaps with the placeholder in the
  place of every URL. The pattern matches nowhere in the result, and no URL found in
  the text occurs in the result.
\<close>

theorem validate_empty_context_removes_urls:
  "validate_urls_against_context L text [] = re_sub url_rx link_removed text
   \<and> (\<exists>gaps. length gaps = Suc (length (re_findall url_rx text))
          \<and> text = interleave gaps (re_findall url_rx text)
          \<and> validate_urls_against_context L text []
              = interleave gaps (map (\<lambda>u. link_removed) (re_findall url_rx text)))
   \<and> re_findall url_rx (validate_urls_against_context L text []) = []
   \<and> (\<forall>u \<in> set (re_findall url_rx text).
         \<not> contains (validate_urls_against_context L text []) u)"
proof -
  let ?out = "validate_urls_against_context L text []"
  have out: "?out = re_sub_from url_rx link_removed text 0"
    by (simp add: validate_urls_against_context_def re_sub_def)
  have nu: "no_url ?out"
    unfolding out using sub_no_url[OF link_removed_props] .
  have "re_findall url_rx ?out = []"
    unfolding re_findall_def using no_url_findall[OF nu] .
  moreover have "\<not> contains ?out u" if "u \<in> set (re_findall url_rx text)" for u
    using that no_url_contains[OF nu] findall_elem_url_at unfolding re_findall_def by blast
  moreover have "\<exists>gaps. length gaps = Suc (length (re_findall url_rx text))
          \<and> text = interleave gaps (re_findall url_rx text)
          \<and> ?out = interleave gaps (map (\<lambda>u. link_removed) (re_findall url_rx text))"
    using sub_interleave[of "text" 0 link_removed] unfolding out re_findall_def by simp
  ultimately show ?thesis by (simp add: validate_urls_against_context_def re_sub_def)
qed

lemmas validator_eval = ustr_def url_rx_def url_char_def is_space_def re_findall_def re_sub_def
  re_findall_from.simps re_sub_from.simps link_removed_def link_not_available_def
  validate_urls_against_context_def item_urls_def normalize_url_def trailing_punct_rx_def
  trailing_punct_def lower_def lower_cp_def rstrip_def sample_lib_def

theorem validate_empty_context_removes_urls_witness:
  "ustr ''http://a.b'' \<in> set (re_findall url_rx (ustr ''see http://a.b now''))
   \<and> \<not> contains (validate_urls_against_context sample_lib (ustr ''see http://a.b now'') []) (ustr ''http://a.b'')
   \<and> validate_urls_against_context sample_lib (ustr ''see http://a.b now'') []
       = ustr ''see [Link removed - not in database] now''"
proof -
  have f: "re_findall url_rx (ustr ''see http://a.b now'') = [ustr ''http://a.b'']"
    by (simp add: validator_eval)
  have v: "validate_urls_against_context sample_lib (ustr ''see http://a.b now'') []
       = ustr ''see [Link removed - not in database] now''"
    by (simp add: validator_eval)
  from validate_empty_context_removes_urls[of sample_lib "ustr ''see http://a.b now''"]
  have "\<forall>u \<in> set (re_findall url_rx (ustr ''see http://a.b now'')).
         \<not> contains (validate_urls_against_context sample_lib (ustr ''see http://a.b now'') []) u"
    by blast
  then have "\<not> contains (validate_urls_against_context sample_lib (ustr ''see http://a.b now'') [])
                (ustr ''http://a.b'')"
    unfolding f by simp
  then show ?thesis using f v by simp
qed


text \<open>
  A response whose URLs all have their normal form in the normalised allow-list is
  returned as it is: both sides go through the same \<open>normalize_url\<close>.
\<close>

lemma foldl_if_filter:
  "foldl (\<lambda>a x. if P x then f a x else a) a xs = foldl f a (filter P xs)"
  by (induction xs arbitrary: a) auto


section \<open>The normalisation of URLs\<close>
















text \<open>
  Claim C10. With a non-empty grounding context, a text in which the URL pattern
  matches nowhere is returned unchanged; and in general the result is the text after
  \<open>str.replace\<close> of some of the URLs found in it, each of them a full match of the URL
  pattern, by the placeholder: nothing else is rewritten.
\<close>

theorem validate_rewrites_only_urls:
  assumes "context \<noteq> []"
  shows "(re_findall url_rx text = [] \<longrightarrow> validate_urls_against_context L text context = text)
    \<and> (\<exists>us. (\<forall>u \<in> set us. u \<in> set (re_findall url_rx text) \<and> url_shaped u)
           \<and> validate_urls_against_context L text context
               = foldl (\<lambda>t u. replace u link_not_available t) text us)"
proof
  show "re_findall url_rx text = [] \<longrightarrow> validate_urls_against_context L text context = text"
    using assms by (simp add: validate_urls_against_context_def)
next
  let ?N = "set (map (normalize_url L) (concat (map item_urls context)))"
  let ?us = "filter (\<lambda>u. normalize_url L u \<notin> ?N) (re_findall url_rx text)"
  have "\<forall>u \<in> set ?us. u \<in> set (re_findall url_rx text) \<and> url_shaped u"
    using findall_elem_url_shaped unfolding re_findall_def by auto
  moreover have "validate_urls_against_context L text context
      = foldl (\<lambda>t u. replace u link_not_available t) text ?us"
    using assms
    by (cases "re_findall url_rx text = []")
       (simp_all add: validate_urls_against_context_def Let_def foldl_if_filter)
  ultimately show "\<exists>us. (\<forall>u \<in> set us. u \<in> set (re_findall url_rx text) \<and> url_shaped u)
           \<and> validate_urls_against_context L text context
               = foldl (\<lambda>t u. replace u link_not_available t) text us"
    by blast
qed

theorem validate_rewrites_only_urls_witness:
  "[[(ustr ''answer'', VStr (ustr ''See https://roadmap.sh/frontend''))]] \<noteq> []
   \<and> re_findall url_rx (ustr ''No links here'') = []
   \<and> validate_urls_against_context sample_lib (ustr ''No links here'')
         [[(ustr ''answer'', VStr (ustr ''See https://roadmap.sh/frontend''))]]
       = ustr ''No links here''"
proof -
  have c: "[[(ustr ''answer'', VStr (ustr ''See https://roadmap.sh/frontend''))]] \<noteq> []"
    by simp
  have f: "re_findall url_rx (ustr ''No links here'') = []"
    by (simp add: validator_eval)
  from validate_rewrites_only_urls[OF c, of "ustr ''No links here''"] f
  show ?thesis by simp
qed


section \<open>Properties of the language detector\<close>

lemma space_not_upper: "is_space c \<Longrightarrow> lower_cp c = c"
  by (auto simp: is_space_def lower_cp_def)

lemma space_not_arabic: "is_space c \<Longrightarrow> \<not> arabic_char c"
  by (auto simp: is_space_def arabic_char_def)

lemma space_not_english: "is_space c \<Longrightarrow> \<not> english_char c"
  by (auto simp: is_space_def english_char_def)

lemma lower_spaces: "list_all is_space s \<Longrightarrow> lower L s = s"
proof -
  assume a: "list_all is_space s"
  then have "list_all (\<lambda>c. c < 128 \<or> is_space c) s" by (simp add: list_all_iff)
  then have "lower L s = map lower_cp s" by (rule lower_plain)
  also have "\<dots> = s" using a by (induction s) (auto simp: space_not_upper)
  finally show ?thesis .
qed

lemma thresholds_nonneg:
  "\<not> 0 > binary64 (6 / 10)" "\<not> 0 > binary64 (5 / 10)" "\<not> 0 > binary64 (2 / 10)"
  using binary64_nonneg[of "6 / 10"] binary64_nonneg[of "5 / 10"] binary64_nonneg[of "2 / 10"]
  by simp_all

lemma strip_spaces:
  assumes "list_all is_space s"
  shows "strip s = []"
proof -
  have "\<forall>x \<in> set s. is_space x" using assms by (simp add: list_all_iff)
  then have d: "dropWhile is_space s = []" by (induction s) auto
  show ?thesis unfolding strip_def rstrip_def d by simp
qed

lemma filter_none: "list_all p s \<Longrightarrow> (\<And>c. p c \<Longrightarrow> \<not> q c) \<Longrightarrow> filter q s = []"
  by (induction s) auto

lemma empty_not_common: "[] \<notin> set common_english"
  by (simp add: common_english_def ustr_def)

text \<open>
  Claim C9, as the code has it. The guard \<open>if not text\<close> returns \<open>(UNKNOWN, 0.0)\<close> for the
  empty text only. A non-empty text of whitespace passes the guard, counts no Arabic,
  English or other character, and leaves through the last branch: \<open>(UNKNOWN, 0.5)\<close>.
\<close>

theorem detect_empty_and_whitespace:
  "detect_with_confidence L [] = (UNKNOWN, 0)
   \<and> (text \<noteq> [] \<and> list_all is_space text \<longrightarrow> detect_with_confidence L text = (UNKNOWN, 5 / 10))"
proof
  show "detect_with_confidence L [] = (UNKNOWN, 0)"
    by (simp add: detect_with_confidence_def)
next
  show "text \<noteq> [] \<and> list_all is_space text \<longrightarrow> detect_with_confidence L text = (UNKNOWN, 5 / 10)"
  proof
    assume a: "text \<noteq> [] \<and> list_all is_space text"
    then have sp: "list_all is_space text" by simp
    have l: "strip (lower L text) = []" using sp by (simp add: lower_spaces strip_spaces)
    have s: "calculate_egyptian_score L [] = 0" by (simp add: calculate_egyptian_score_def)
    have ar: "filter arabic_char text = []"
      using filter_none[OF sp] space_not_arabic by blast
    have en: "filter english_char text = []"
      using filter_none[OF sp] space_not_english by blast
    have ot: "filter (other_char L) text = []"
      using filter_none[OF sp, of "other_char L"] by (simp add: other_char_def)
    show "detect_with_confidence L text = (UNKNOWN, 5 / 10)"
      using a thresholds_nonneg
      by (simp add: detect_with_confidence_def l s ar en ot empty_not_common binary64_zero)
  qed
qed

theorem detect_empty_and_whitespace_witness:
  "ustr ''   '' \<noteq> [] \<and> list_all is_space (ustr ''   '')
   \<and> detect_with_confidence sample_lib (ustr ''   '') = (UNKNOWN, 5 / 10)"
proof -
  have a: "ustr ''   '' \<noteq> [] \<and> list_all is_space (ustr ''   '')"
    by (simp add: ustr_def is_space_def)
  from detect_empty_and_whitespace[of sample_lib "ustr ''   ''"] a
  show ?thesis by blast
qed

text \<open>
  Claim C9 as stated fails on the text of one space: the confidence is \<open>0.5\<close>, not
  \<open>0.0\<close>.
\<close>

theorem detect_whitespace_counterexample:
  "list_all is_space (ustr '' '')
   \<and> detect_with_confidence sample_lib (ustr '' '') \<noteq> (UNKNOWN, 0)"
proof -
  have l: "strip (lower sample_lib (ustr '' '')) = []"
    by (simp add: ustr_def lower_def lower_cp_def strip_def rstrip_def is_space_def)
  have s: "calculate_egyptian_score sample_lib [] = 0"
    by (simp add: calculate_egyptian_score_def)
  have "detect_with_confidence sample_lib (ustr '' '') = (UNKNOWN, 5 / 10)"
    unfolding detect_with_confidence_def l
    using thresholds_nonneg
    by (simp add: s empty_not_common)
       (simp add: ustr_def arabic_char_def english_char_def other_char_def is_space_def
          binary64_zero sample_lib_def word_char_def)
  then show ?thesis by (simp add: ustr_def is_space_def)
qed

section \<open>Properties of the cosine similarity\<close>

lemma cosine_zero_norm:
  "lib_norm L a = 0 \<or> lib_norm L b = 0 \<Longrightarrow> calculate_cosine_similarity L a b = Inr 0"
  by (auto simp: calculate_cosine_similarity_def Let_def)

lemma cosine_quotient:
  "lib_norm L a \<noteq> 0 \<Longrightarrow> lib_norm L b \<noteq> 0 \<Longrightarrow> length a = length b \<Longrightarrow>
     calculate_cosine_similarity L a b
       = Inr (lib_div L (lib_dot L a b) (lib_mul L (lib_norm L a) (lib_norm L b)))"
  by (simp add: calculate_cosine_similarity_def Let_def np_dot_def)

lemma cosine_commute:
  assumes "lib_dot L a b = lib_dot L b a"
    and "lib_mul L (lib_norm L a) (lib_norm L b) = lib_mul L (lib_norm L b) (lib_norm L a)"
  shows "calculate_cosine_similarity L a b = calculate_cosine_similarity L b a"
  using assms by (auto simp: calculate_cosine_similarity_def Let_def np_dot_def)

text \<open>
  Claim C6, as the code has it. For every library: when either norm is zero the
  function returns exactly 0, whatever the division of the library would give (it is
  not reached); for two vectors of one dimension with non-zero norms it returns the
  quotient of the dot product by the product of the norms, as the library computes
  them and without clamping; and it is symmetric in its arguments when the dot product
  and the product of the two norms are (also in the \<open>ValueError\<close> that \<open>np.dot\<close> raises
  for two dimensions). No range is claimed for the quotient.
\<close>

theorem cosine_symmetric_zero_norm:
  "(lib_norm L a = 0 \<or> lib_norm L b = 0 \<longrightarrow> calculate_cosine_similarity L a b = Inr 0)
   \<and> (lib_norm L a \<noteq> 0 \<and> lib_norm L b \<noteq> 0 \<and> length a = length b \<longrightarrow>
        calculate_cosine_similarity L a b
          = Inr (lib_div L (lib_dot L a b) (lib_mul L (lib_norm L a) (lib_norm L b))))
   \<and> (lib_dot L a b = lib_dot L b a
        \<and> lib_mul L (lib_norm L a) (lib_norm L b) = lib_mul L (lib_norm L b) (lib_norm L a)
        \<longrightarrow> calculate_cosine_similarity L a b = calculate_cosine_similarity L b a)"
  using cosine_zero_norm[of L a b] cosine_quotient[of L a b] cosine_commute[of L a b]
  by blast

lemma sample_norm_unit: "lib_norm sample_lib [1, 0] = 1"
  by (simp add: sample_lib_def)

lemma sample_norm_zero: "lib_norm sample_lib [0, 0] = 0"
  by (simp add: sample_lib_def)

theorem cosine_symmetric_zero_norm_witness:
  "lib_norm sample_lib [0, 0] = 0
   \<and> calculate_cosine_similarity sample_lib [0, 0] [1, 0] = Inr 0
   \<and> lib_norm sample_lib [1, 0] \<noteq> 0 \<and> length [1, 0 :: real] = length [1, 0 :: real]
   \<and> calculate_cosine_similarity sample_lib [1, 0] [1, 0] = Inr 1
   \<and> lib_dot sample_lib [0, 0] [1, 0] = lib_dot sample_lib [1, 0] [0, 0]
   \<and> lib_mul sample_lib (lib_norm sample_lib [0, 0]) (lib_norm sample_lib [1, 0])
       = lib_mul sample_lib (lib_norm sample_lib [1, 0]) (lib_norm sample_lib [0, 0])
   \<and> calculate_cosine_similarity sample_lib [0, 0] [1, 0]
       = calculate_cosine_similarity sample_lib [1, 0] [0, 0]"
proof -
  have d: "lib_dot sample_lib [0, 0] [1, 0] = lib_dot sample_lib [1, 0] [0, 0]"
    by (simp add: sample_lib_def)
  have m: "lib_mul sample_lib (lib_norm sample_lib [0, 0]) (lib_norm sample_lib [1, 0])
       = lib_mul sample_lib (lib_norm sample_lib [1, 0]) (lib_norm sample_lib [0, 0])"
    by (simp add: sample_lib_def)
  have q: "lib_div sample_lib (lib_dot sample_lib [1, 0] [1, 0])
             (lib_mul sample_lib (lib_norm sample_lib [1, 0]) (lib_norm sample_lib [1, 0])) = 1"
    by (simp add: sample_lib_def)
  from cosine_symmetric_zero_norm[of sample_lib "[0, 0]" "[1, 0]"] sample_norm_zero d m
  have z: "calculate_cosine_similarity sample_lib [0, 0] [1, 0] = Inr 0
           \<and> calculate_cosine_similarity sample_lib [0, 0] [1, 0]
               = calculate_cosine_similarity sample_lib [1, 0] [0, 0]"
    by blast
  from cosine_symmetric_zero_norm[of sample_lib "[1, 0]" "[1, 0]"] sample_norm_unit
  have u: "calculate_cosine_similarity sample_lib [1, 0] [1, 0] = Inr 1"
    unfolding q by simp
  from z have z1: "calculate_cosine_similarity sample_lib [0, 0] [1, 0] = Inr 0"
    and z2: "calculate_cosine_similarity sample_lib [1, 0] [0, 0] = Inr 0"
    by metis+
  show ?thesis using m by (simp add: z1 z2 u d sample_norm_zero sample_norm_unit)
qed

text \<open>
  Claim C6 as stated fails on the range: two opposite vectors have the similarity
  \<open>-1\<close>, which is not in \<open>[0, 1]\<close>. (On \<open>[1.0]\<close> and \<open>[-1.0]\<close> every operation is exact in
  binary64, so \<open>-1.0\<close> is also what \<open>numpy\<close> returns.)
\<close>

theorem cosine_negative_counterexample:
  "calculate_cosine_similarity sample_lib [1] [- 1] = Inr (- 1)
   \<and> \<not> (0 \<le> (- 1 :: real) \<and> (- 1 :: real) \<le> 1)"
  by (simp add: calculate_cosine_similarity_def np_dot_def sample_lib_def)



section \<open>Properties of the client-side vector search\<close>

lemma cosine_same_length:
  "length a = length b \<Longrightarrow> \<exists>r. calculate_cosine_similarity L a b = Inr r"
  by (simp add: calculate_cosine_similarity_def Let_def np_dot_def)

lemma vector_scores_total:
  "\<exists>scored. vector_scores L q roadmaps = Inr scored
     \<and> map fst scored = filter (comparable q) roadmaps
     \<and> (\<forall>p \<in> set scored. \<exists>v. dict_get (fst p) (ustr ''embedding'') = VVec v
            \<and> length v = length q \<and> calculate_cosine_similarity L q v = Inr (snd p))"
proof (induction roadmaps)
  case Nil
  then show ?case by simp
next
  case (Cons d ds)
  then obtain scored where ih: "vector_scores L q ds = Inr scored"
    "map fst scored = filter (comparable q) ds"
    "\<forall>p \<in> set scored. \<exists>v. dict_get (fst p) (ustr ''embedding'') = VVec v
            \<and> length v = length q \<and> calculate_cosine_similarity L q v = Inr (snd p)"
    by blast
  show ?case
  proof (cases "comparable q d")
    case True
    then obtain v where v: "dict_get d (ustr ''embedding'') = VVec v" "v \<noteq> []"
      "length v = length q"
      by (auto simp: comparable_def split: pyval.splits)
    then obtain r where r: "calculate_cosine_similarity L q v = Inr r"
      using cosine_same_length[of q v L] by auto
    have "vector_scores L q (d # ds) = Inr ((d, r) # scored)"
      using v r ih(1) by simp
    then show ?thesis using ih(2,3) True v r by auto
  next
    case False
    then have "vector_scores L q (d # ds) = vector_scores L q ds"
      by (auto simp: comparable_def Let_def split: pyval.splits)
    then show ?thesis using ih False by auto
  qed
qed

text \<open>
  Claim C5. The scoring loop of the client-side vector search raises nothing, whatever
  the embeddings of the candidates are: it returns the scores of exactly the candidates
  that carry a non-empty embedding of the query's dimension, in their order. A candidate
  whose embedding has another dimension is in no scored pair, and every score is the
  cosine similarity of two vectors of equal dimension.
\<close>

theorem dimension_mismatch_is_skipped:
  "\<exists>scored. vector_scores L q roadmaps = Inr scored
     \<and> map fst scored = filter (comparable q) roadmaps
     \<and> (\<forall>d \<in> set roadmaps. \<forall>v. dict_get d (ustr ''embedding'') = VVec v \<and> length v \<noteq> length q
            \<longrightarrow> d \<notin> fst ` set scored)
     \<and> (\<forall>p \<in> set scored. \<exists>v. dict_get (fst p) (ustr ''embedding'') = VVec v
            \<and> length v = length q \<and> calculate_cosine_similarity L q v = Inr (snd p))"
proof -
  obtain scored where s: "vector_scores L q roadmaps = Inr scored"
    "map fst scored = filter (comparable q) roadmaps"
    "\<forall>p \<in> set scored. \<exists>v. dict_get (fst p) (ustr ''embedding'') = VVec v
            \<and> length v = length q \<and> calculate_cosine_similarity L q v = Inr (snd p)"
    using vector_scores_total by blast
  have "d \<notin> fst ` set scored"
    if "dict_get d (ustr ''embedding'') = VVec v" "length v \<noteq> length q" for d v
  proof
    assume "d \<in> fst ` set scored"
    then have "d \<in> set (map fst scored)" by simp
    then have "comparable q d" unfolding s(2) by simp
    then show False using that by (simp add: comparable_def)
  qed
  then show ?thesis using s by blast
qed

theorem dimension_mismatch_is_skipped_witness:
  "vector_scores sample_lib [1, 0]
     [[(ustr ''title'', VStr (ustr ''a'')), (ustr ''embedding'', VVec [1, 0, 0])],
      [(ustr ''title'', VStr (ustr ''b'')), (ustr ''embedding'', VVec [1, 0])]]
   = Inr [([(ustr ''title'', VStr (ustr ''b'')), (ustr ''embedding'', VVec [1, 0])], 1)]
   \<and> dict_get [(ustr ''title'', VStr (ustr ''a'')), (ustr ''embedding'', VVec [1, 0, 0])]
        (ustr ''embedding'') = VVec [1, 0, 0]
   \<and> length [1, 0, 0 :: real] \<noteq> length [1, 0 :: real]"
proof -
  let ?a = "[(ustr ''title'', VStr (ustr ''a'')), (ustr ''embedding'', VVec [1, 0, 0])]"
  let ?b = "[(ustr ''title'', VStr (ustr ''b'')), (ustr ''embedding'', VVec [1, 0])]"
  have ga: "dict_get ?a (ustr ''embedding'') = VVec [1, 0, 0]"
    by (simp add: dict_get_def ustr_def)
  have gb: "dict_get ?b (ustr ''embedding'') = VVec [1, 0]"
    by (simp add: dict_get_def ustr_def)
  have ca: "\<not> comparable [1, 0] ?a" by (simp add: comparable_def ga)
  have cb: "comparable [1, 0] ?b" by (simp add: comparable_def gb)
  have c: "calculate_cosine_similarity sample_lib [1, 0] [1, 0] = Inr 1"
    by (simp add: calculate_cosine_similarity_def np_dot_def sample_lib_def)
  from dimension_mismatch_is_skipped[of sample_lib "[1, 0]" "[?a, ?b]"]
  obtain scored where s: "vector_scores sample_lib [1, 0] [?a, ?b] = Inr scored"
    "map fst scored = filter (comparable [1, 0]) [?a, ?b]"
    "\<forall>p \<in> set scored. \<exists>v. dict_get (fst p) (ustr ''embedding'') = VVec v
            \<and> length v = length [1, 0 :: real]
            \<and> calculate_cosine_similarity sample_lib [1, 0] v = Inr (snd p)"
    by blast
  from s(2) ca cb have "map fst scored = [?b]" by simp
  then obtain r where sc: "scored = [(?b, r)]" by (cases scored) auto
  from s(3) sc gb c have "r = 1" by auto
  then show ?thesis using s(1) sc ga by simp
qed


section \<open>Properties of the search tiers\<close>

lemma similarity_keys_differ: "ustr ''similarity'' \<noteq> ustr ''similarity_score''"
  by (simp add: ustr_def)

lemma similarity_with_similarity: "similarity (with_similarity (d, s)) = s"
  using similarity_keys_differ
  by (simp add: similarity_def with_similarity_def update_conv')

lemma similarity_with_similarity_score: "similarity (with_similarity_score (d, s)) = s"
  by (simp add: similarity_def with_similarity_score_def update_conv')

lemma similarity_score_with_similarity_score:
  "similarity_score (with_similarity_score (d, s)) = s"
  using similarity_keys_differ
  by (simp add: similarity_score_def with_similarity_score_def update_conv')

lemma set_sort_desc: "set (sort_desc k xs) = set xs"
  by (simp add: sort_desc_def)

lemma sort_desc_stable: "filter (\<lambda>x. k x = c) (sort_desc k xs) = filter (\<lambda>x. k x = c) xs"
proof -
  have "filter (\<lambda>x. - k x = - c) (sort_key (\<lambda>x. - k x) xs) = filter (\<lambda>x. - k x = - c) xs"
    by (rule sort_key_stable)
  then show ?thesis by (simp add: sort_desc_def)
qed

lemma sort_desc_sorted: "sorted_wrt (\<lambda>a b. k b \<le> k a) (sort_desc k xs)"
proof -
  have "sorted (map (\<lambda>x. - k x) (sort_key (\<lambda>x. - k x) xs))"
    by (rule sorted_sort_key)
  then show ?thesis by (simp add: sort_desc_def sorted_map)
qed

lemma max_variant_score_bounds:
  assumes "\<forall>a b. 0 \<le> lib_ratio L a b \<and> lib_ratio L a b \<le> 1" "0 \<le> m" "m \<le> 1"
  shows "0 \<le> max_variant_score L st t d c m vs \<and> max_variant_score L st t d c m vs \<le> 1"
  using assms(2,3)
proof (induction vs arbitrary: m)
  case Nil
  then show ?case by simp
next
  case (Cons v vs)
  let ?m' = "max (max (max m (calculate_similarity L (clean_amp_hyphen v) t))
                    (calculate_similarity L (clean_amp_hyphen v) d))
               (calculate_similarity L (clean_amp_hyphen v) c)"
  have "0 \<le> ?m'" "?m' \<le> 1"
    using Cons.prems assms(1) by (auto simp: calculate_similarity_def max_def)
  from Cons.IH[OF this] show ?case using Cons.prems by (simp add: Let_def)
qed

lemma max_variant_score_hit:
  assumes "\<forall>a b. lib_ratio L a b \<le> 1" "m \<le> 1"
    and "\<exists>v \<in> set vs. contains st (clean_amp_hyphen v)"
  shows "max_variant_score L st t d c m vs = 1"
  using assms(2,3)
proof (induction vs arbitrary: m)
  case Nil
  then show ?case by simp
next
  case (Cons v vs)
  show ?case
  proof (cases "contains st (clean_amp_hyphen v)")
    case True
    then show ?thesis using Cons.prems(1) by (simp add: Let_def)
  next
    case False
    let ?m' = "max (max (max m (calculate_similarity L (clean_amp_hyphen v) t))
                    (calculate_similarity L (clean_amp_hyphen v) d))
               (calculate_similarity L (clean_amp_hyphen v) c)"
    have m': "?m' \<le> 1"
      using Cons.prems(1) assms(1) by (auto simp: calculate_similarity_def max_def)
    have "\<exists>v \<in> set vs. contains st (clean_amp_hyphen v)" using Cons.prems(2) False by auto
    from Cons.IH[OF m' this] show ?thesis using False by (simp add: Let_def)
  qed
qed

lemma fuzzy_scores_bounds:
  assumes "\<forall>a b. 0 \<le> lib_ratio L a b \<and> lib_ratio L a b \<le> 1"
    and "fuzzy_scores L vs roadmaps = Inr scored"
  shows "map fst scored = filter (fuzzy_hit L vs) roadmaps
         \<and> (\<forall>p \<in> set scored. binary64 (15 / 100) < snd p \<and> snd p \<le> 1)"
  using assms(2)
proof (induction roadmaps arbitrary: scored)
  case Nil
  then show ?case by simp
next
  case (Cons r rs)
  from Cons.prems obtain f where f: "roadmap_fields L r = Inr f"
    by (cases "roadmap_fields L r") auto
  from Cons.prems f obtain rest where rest: "fuzzy_scores L vs rs = Inr rest"
    by (cases "fuzzy_scores L vs rs") (auto simp: Let_def)
  have b: "fields_score L vs f \<le> 1"
    using max_variant_score_bounds[OF assms(1), of 0]
    by (cases f) (simp add: fields_score_def Let_def)
  from Cons.IH[OF rest] Cons.prems f rest b show ?case
    by (auto simp: Let_def fuzzy_hit_def split: if_splits)
qed

lemma keyword_score_bounds: "0 \<le> keyword_score L q item \<and> keyword_score L q item \<le> 1"
proof -
  have c: "card (A \<inter> B) \<le> card A" if "finite A" for A B :: "pystr set"
    using that by (simp add: card_mono)
  have "0 \<le> binary64 (real (card (A \<inter> B)) / real (card A))
        \<and> binary64 (real (card (A \<inter> B)) / real (card A)) \<le> 1"
    if "finite A" for A B :: "pystr set"
  proof
    show "0 \<le> binary64 (real (card (A \<inter> B)) / real (card A))"
      by (rule binary64_nonneg) simp
    have "real (card (A \<inter> B)) / real (card A) \<le> 1"
      using c[OF that, of B] by (auto simp: divide_le_eq_1)
    then show "binary64 (real (card (A \<inter> B)) / real (card A)) \<le> 1"
      by (rule binary64_le_one)
  qed
  then show ?thesis
    by (simp add: keyword_score_def Let_def)
qed


section \<open>The cascade without embeddings\<close>

lemma vector_phase_unavailable:
  "generate_embedding E query = None \<Longrightarrow> vector_phase L E query roadmaps limit = Inr None"
  by (simp add: vector_phase_def)

lemma keyword_search_fallback_Nil: "keyword_search_fallback L query [] limit = []"
  by (simp add: keyword_search_fallback_def sort_desc_def)

lemma search_similar_unavailable:
  assumes "generate_embedding E query = None"
  shows "search_similar_roadmaps L E query roadmaps limit allow_fallback =
           (if allow_fallback then keyword_search_fallback L query roadmaps limit else [])"
  using vector_phase_unavailable[OF assms]
  by (simp add: search_similar_roadmaps_def keyword_search_fallback_Nil)

lemma vector_search_unavailable:
  "generate_embedding E query = None \<Longrightarrow> vector_search E S query limit = []"
  by (simp add: vector_search_def)

lemma fuzzy_text_match_Nil: "fuzzy_text_match L query [] limit = Inr []"
  by (simp add: fuzzy_text_match_def sort_desc_def)

lemma fuzzy_search_unavailable:
  assumes "generate_embedding E query = None"
  shows "fuzzy_search L E S query limit =
           (case roadmaps_table S of
              Inl e \<Rightarrow> []
            | Inr all_roadmaps \<Rightarrow>
                (case fuzzy_text_match L query all_roadmaps limit of
                   Inl e \<Rightarrow> []
                 | Inr results \<Rightarrow> results))"
  using search_similar_unavailable[OF assms, of _ _ limit False]
  by (simp add: fuzzy_search_def fuzzy_text_match_Nil split: sum.splits)

text \<open>
  Claim C4, as the code has it. When the embedding service gives no embedding for the
  query (it is not available, or its model fails), the roadmap search returns the
  synonym-expanded fuzzy text matching over the rows of \<open>roadmaps\<close>, and the FAQ search
  returns the keyword-overlap fallback over the active FAQs with the limit 5: the two
  corpora do not share the third tier.
\<close>

theorem unavailable_embedding_cascade:
  assumes "generate_embedding E query = None"
  shows "search_roadmaps L E S query limit use_embeddings =
           (case roadmaps_table S of
              Inl e \<Rightarrow> []
            | Inr all_roadmaps \<Rightarrow>
                (case fuzzy_text_match L query all_roadmaps limit of
                   Inl e \<Rightarrow> []
                 | Inr results \<Rightarrow> results))
       \<and> search_faqs L E S query language =
           (case active_faqs S of
              Inl e \<Rightarrow> []
            | Inr all_faqs \<Rightarrow> keyword_search_fallback L query all_faqs 5)"
proof
  have "search_roadmaps L E S query limit use_embeddings = fuzzy_search L E S query limit"
    using vector_search_unavailable[OF assms] by (simp add: search_roadmaps_def)
  then show "search_roadmaps L E S query limit use_embeddings =
           (case roadmaps_table S of
              Inl e \<Rightarrow> []
            | Inr all_roadmaps \<Rightarrow>
                (case fuzzy_text_match L query all_roadmaps limit of
                   Inl e \<Rightarrow> []
                 | Inr results \<Rightarrow> results))"
    using fuzzy_search_unavailable[OF assms] by simp
next
  show "search_faqs L E S query language =
           (case active_faqs S of
              Inl e \<Rightarrow> []
            | Inr all_faqs \<Rightarrow> keyword_search_fallback L query all_faqs 5)"
    using assms search_similar_unavailable[OF assms, of _ _ 5 True]
    by (simp add: search_faqs_def keyword_search_fallback_Nil split: sum.splits)
qed

lemma offline_no_embedding: "generate_embedding offline_embedder query = None"
  by (simp add: generate_embedding_def offline_embedder_def)

theorem unavailable_embedding_cascade_witness:
  "generate_embedding offline_embedder (ustr ''backend xyz'') = None
   \<and> search_roadmaps sample_lib offline_embedder sample_store (ustr ''backend xyz'') 3 True =
       (case fuzzy_text_match sample_lib (ustr ''backend xyz'') [sample_roadmap] 3 of
          Inl e \<Rightarrow> []
        | Inr results \<Rightarrow> results)
   \<and> search_faqs sample_lib offline_embedder sample_store (ustr ''backend xyz'') (ustr ''en'') =
       keyword_search_fallback sample_lib (ustr ''backend xyz'') [sample_faq] 5"
proof -
  have h: "generate_embedding offline_embedder (ustr ''backend xyz'') = None"
    by (rule offline_no_embedding)
  from unavailable_embedding_cascade[OF h, of sample_lib sample_store 3 True "ustr ''en''"]
  show ?thesis using h by (simp add: sample_store_def)
qed

lemma keyword_score_sample: "keyword_score sample_lib (ustr ''backend xyz'') sample_faq = 1 / 2"
proof -
  have q: "split (lower sample_lib (ustr ''backend xyz'')) = [ustr ''backend'', ustr ''xyz'']"
    by (simp add: ustr_def lower_def lower_cp_def split_def is_space_def)
  have t: "filter truthy (map (dict_get_str sample_faq) keyword_fields)
           = [VStr (ustr ''backend''), VStr (ustr ''server'')]"
    by (simp add: sample_faq_def keyword_fields_def dict_get_str_def ustr_def)
  have w: "split (lower sample_lib (join (ustr '' '') (map (py_str sample_lib) [VStr (ustr ''backend''), VStr (ustr ''server'')])))
           = [ustr ''backend'', ustr ''server'']"
    by (simp add: ustr_def lower_def lower_cp_def split_def is_space_def)
  have i: "set [ustr ''backend'', ustr ''xyz''] \<inter> set [ustr ''backend'', ustr ''server'']
           = {ustr ''backend''}"
    by (auto simp: ustr_def)
  have c: "card (set [ustr ''backend'', ustr ''xyz'']) = 2"
    by (simp add: ustr_def)
  have n1: "set [ustr ''backend'', ustr ''server''] \<noteq> {}" by simp
  have n2: "set [ustr ''backend'', ustr ''xyz''] \<noteq> {}" by simp
  show ?thesis
    unfolding keyword_score_def Let_def q t w i c using n1 n2 by (simp add: binary64_half)
qed

lemma sort_desc_single: "sort_desc k [x] = [x]"
  by (simp add: sort_desc_def)

lemma search_faqs_sample:
  "search_faqs sample_lib offline_embedder sample_store (ustr ''backend xyz'') (ustr ''en'')
     = [with_similarity (sample_faq, 1 / 2)]"
proof -
  have "search_similar_roadmaps sample_lib offline_embedder (ustr ''backend xyz'') [sample_faq] 5 True
        = keyword_search_fallback sample_lib (ustr ''backend xyz'') [sample_faq] 5"
    using search_similar_unavailable[OF offline_no_embedding] by simp
  also have "\<dots> = [with_similarity (sample_faq, 1 / 2)]"
    by (simp add: keyword_search_fallback_def keyword_score_sample sort_desc_single)
  finally show ?thesis
    by (simp add: search_faqs_def offline_no_embedding sample_store_def)
qed

lemma set_expand_query:
  "set (expand_query L query) =
     insert (lower L query)
       (\<Union>entry \<in> set SYNONYMS. set (expand_entry (lower L query) entry))"
  by (simp add: expand_query_def Let_def del: remdups.simps)

lemma web_entry:
  "(ustr ''web'', [ustr ''frontend'', ustr ''backend'', ustr ''full stack'']) \<in> set SYNONYMS"
  by (simp add: SYNONYMS_def)

lemma backend_variant: "ustr ''backend'' \<in> set (expand_query sample_lib (ustr ''backend xyz''))"
proof -
  have c: "contains (lower sample_lib (ustr ''backend xyz'')) (ustr ''backend'')"
    by (simp add: ustr_def lower_def lower_cp_def)
  have "ustr ''backend'' \<in> set (expand_entry (lower sample_lib (ustr ''backend xyz''))
          (ustr ''web'', [ustr ''frontend'', ustr ''backend'', ustr ''full stack'']))"
    using c by (simp add: expand_entry_def Let_def)
  then show ?thesis unfolding set_expand_query using web_entry by blast
qed

lemma tier3_spec_sample:
  "tier3_spec sample_lib (faq_fields_en sample_lib) (ustr ''backend xyz'') [sample_faq] 5
     = [with_similarity_score (sample_faq, 1)]"
proof -
  have g: "faq_fields_en sample_lib sample_faq = (ustr ''backend'', ustr ''server'', [])"
    by (simp add: faq_fields_en_def sample_faq_def dict_get_str_def dict_get_def ustr_def)
  have s: "spec_normalize (ustr ''backend'' @ ustr '' '' @ ustr ''server'' @ ustr '' '')
           = ustr ''backend server ''"
    by (simp add: spec_normalize_def ustr_def replace.simps)
  have n: "spec_normalize (ustr ''backend'') = ustr ''backend''"
    by (simp add: spec_normalize_def ustr_def replace.simps)
  have c: "contains (ustr ''backend server '') (ustr ''backend'')"
    by (simp add: ustr_def)
  have "list_ex (\<lambda>v. contains (ustr ''backend server '') (spec_normalize v))
          (expand_query sample_lib (ustr ''backend xyz''))"
    unfolding list_ex_iff using backend_variant n c by force
  then have "spec_score sample_lib (expand_query sample_lib (ustr ''backend xyz''))
               (ustr ''backend'', ustr ''server'', []) = 1"
    by (simp add: spec_score_def s)
  then show ?thesis
    by (simp add: tier3_spec_def Let_def g sort_desc_single)
qed

lemma fuzzy_text_match_sample:
  "fuzzy_text_match sample_lib (ustr ''backend xyz'') [sample_faq] 5 = Inl KeyError"
proof -
  have "roadmap_fields sample_lib sample_faq = Inl KeyError"
    by (simp add: roadmap_fields_def dict_item_def sample_faq_def ustr_def)
  then show ?thesis by (simp add: fuzzy_text_match_def)
qed

text \<open>
  Claim C4 as stated fails on the FAQ corpus. With the embedding service unavailable,
  the query \<open>backend xyz\<close> and the one FAQ \<open>backend\<close>, the FAQ search returns the FAQ with
  the keyword score 0.5; the third tier as the specification words it returns it with
  the score 1.0, and the text matching of the roadmap service, run on this corpus,
  raises \<open>KeyError\<close> (the FAQ has no title), which the service turns into no result.
\<close>

theorem faq_fallback_counterexample:
  "generate_embedding offline_embedder (ustr ''backend xyz'') = None
   \<and> search_faqs sample_lib offline_embedder sample_store (ustr ''backend xyz'') (ustr ''en'')
       = [with_similarity (sample_faq, 1 / 2)]
   \<and> tier3_spec sample_lib (faq_fields_en sample_lib) (ustr ''backend xyz'') [sample_faq] 5
       = [with_similarity_score (sample_faq, 1)]
   \<and> fuzzy_text_match sample_lib (ustr ''backend xyz'') [sample_faq] 5 = Inl KeyError
   \<and> search_faqs sample_lib offline_embedder sample_store (ustr ''backend xyz'') (ustr ''en'')
       \<noteq> tier3_spec sample_lib (faq_fields_en sample_lib) (ustr ''backend xyz'') [sample_faq] 5
   \<and> search_faqs sample_lib offline_embedder sample_store (ustr ''backend xyz'') (ustr ''en'') \<noteq> []"
proof -
  have "similarity (with_similarity (sample_faq, 1 / 2))
        \<noteq> similarity (with_similarity_score (sample_faq, 1))"
    by (simp add: similarity_with_similarity similarity_with_similarity_score)
  then have "with_similarity (sample_faq, 1 / 2) \<noteq> with_similarity_score (sample_faq, 1)"
    by metis
  then show ?thesis
    using offline_no_embedding search_faqs_sample tier3_spec_sample fuzzy_text_match_sample
    by simp
qed


section \<open>Range and order of the scored documents\<close>

lemma vector_phase_results:
  assumes "vector_phase L E query roadmaps limit = Inr (Some results)"
  shows "\<exists>q scored. generate_embedding E query = Some q
           \<and> vector_scores L q roadmaps = Inr scored
           \<and> results = take limit (sort_desc similarity (map with_similarity scored))"
  using assms
  by (auto simp: vector_phase_def split: if_splits option.splits sum.splits)

lemma in_take_sort_desc:
  "d \<in> set (take limit (sort_desc k (map f scored))) \<Longrightarrow> \<exists>p \<in> set scored. d = f p"
  using in_set_takeD[of d limit "sort_desc k (map f scored)"]
  by (auto simp: set_sort_desc)

lemma vector_phase_scores:
  assumes "vector_phase L E query roadmaps limit = Inr (Some results)"
  shows "\<exists>q. generate_embedding E query = Some q
           \<and> (\<forall>d \<in> set results. \<exists>r v. r \<in> set roadmaps
                  \<and> dict_get r (ustr ''embedding'') = VVec v
                  \<and> calculate_cosine_similarity L q v = Inr (similarity d)
                  \<and> d = with_similarity (r, similarity d))"
proof -
  from vector_phase_results[OF assms] obtain q scored where
    g: "generate_embedding E query = Some q"
    and s: "vector_scores L q roadmaps = Inr scored"
    and r: "results = take limit (sort_desc similarity (map with_similarity scored))"
    by blast
  from vector_scores_total[of L q roadmaps] s
  have m: "map fst scored = filter (comparable q) roadmaps"
    and c: "\<forall>p \<in> set scored. \<exists>v. dict_get (fst p) (ustr ''embedding'') = VVec v
            \<and> length v = length q \<and> calculate_cosine_similarity L q v = Inr (snd p)"
    by auto
  have "\<exists>r v. r \<in> set roadmaps \<and> dict_get r (ustr ''embedding'') = VVec v
          \<and> calculate_cosine_similarity L q v = Inr (similarity d)
          \<and> d = with_similarity (r, similarity d)"
    if "d \<in> set results" for d
  proof -
    from that r obtain p where p: "p \<in> set scored" "d = with_similarity p"
      using in_take_sort_desc[of d limit similarity with_similarity scored] by auto
    have sd: "similarity d = snd p"
      using p(2) similarity_with_similarity[of "fst p" "snd p"] by simp
    from p(1) have "fst p \<in> set (map fst scored)" by simp
    then have "fst p \<in> set roadmaps" unfolding m by simp
    moreover from c p(1) obtain v where "dict_get (fst p) (ustr ''embedding'') = VVec v"
      "calculate_cosine_similarity L q v = Inr (snd p)" by blast
    moreover have "d = with_similarity (fst p, snd p)" using p(2) by simp
    ultimately show ?thesis unfolding sd by blast
  qed
  then show ?thesis using g by blast
qed

lemma fuzzy_text_match_results:
  assumes "fuzzy_text_match L query roadmaps limit = Inr results"
  shows "\<exists>scored. fuzzy_scores L (expand_query L query) roadmaps = Inr scored
           \<and> results = take limit (sort_desc similarity_score (map with_similarity_score scored))"
  using assms by (auto simp: fuzzy_text_match_def Let_def split: sum.splits)

lemma fuzzy_text_match_bounds:
  assumes "\<forall>a b. 0 \<le> lib_ratio L a b \<and> lib_ratio L a b \<le> 1"
    and "fuzzy_text_match L query roadmaps limit = Inr results" "d \<in> set results"
  shows "binary64 (15 / 100) < similarity d \<and> similarity d \<le> 1
         \<and> similarity_score d = similarity d"
proof -
  from fuzzy_text_match_results[OF assms(2)] obtain scored where
    s: "fuzzy_scores L (expand_query L query) roadmaps = Inr scored"
    and r: "results = take limit (sort_desc similarity_score (map with_similarity_score scored))"
    by blast
  from assms(3) r obtain p where p: "p \<in> set scored" "d = with_similarity_score p"
    using in_take_sort_desc[of d limit similarity_score with_similarity_score scored] by auto
  from fuzzy_scores_bounds[OF assms(1) s] p(1)
  have "binary64 (15 / 100) < snd p \<and> snd p \<le> 1" by blast
  moreover have "similarity d = snd p" "similarity_score d = snd p"
    using p(2) similarity_with_similarity_score[of "fst p" "snd p"]
      similarity_score_with_similarity_score[of "fst p" "snd p"] by simp_all
  ultimately show ?thesis by simp
qed

lemma keyword_search_bounds:
  assumes "d \<in> set (keyword_search_fallback L query items limit)"
  shows "0 < similarity d \<and> similarity d \<le> 1"
proof -
  let ?scored = "filter (\<lambda>p. snd p > 0) (map (\<lambda>item. (item, keyword_score L query item)) items)"
  from assms have "d \<in> set (take limit (sort_desc similarity (map with_similarity ?scored)))"
    by (simp add: keyword_search_fallback_def Let_def)
  from in_take_sort_desc[OF this] obtain p where p: "p \<in> set ?scored" "d = with_similarity p"
    by blast
  from p(1) have "0 < snd p \<and> snd p \<le> 1" using keyword_score_bounds by auto
  moreover have "similarity d = snd p"
    using p(2) similarity_with_similarity[of "fst p" "snd p"] by simp
  ultimately show ?thesis by simp
qed

lemma threshold_positive: "0 < binary64 (15 / 100)"
proof -
  have "(2::real) powr of_int (- 3) \<le> 15 / 100" by (simp add: powr_neg_numeral)
  from binary64_ge_power[OF this] have "(2::real) powr of_int (- 3) \<le> binary64 (15 / 100)"
    by simp
  moreover have "0 < (2::real) powr of_int (- 3)" by simp
  ultimately show ?thesis by linarith
qed

text \<open>
  Claim C7, as the code has it. Given that \<open>SequenceMatcher.ratio\<close> is in \<open>[0, 1]\<close>: a
  document returned by the fuzzy text matching has a similarity above the float \<open>0.15\<close>
  (which is above 0) and at most 1, and one returned by the keyword fallback a
  similarity above 0 and at most 1. A document returned by the client-side vector
  scoring is a candidate of the corpus with, as its similarity, the cosine similarity
  of the query embedding and its own embedding, as the function above returns it: no
  range is claimed for it. Each tier returns its scored documents, gathered in the order
  of the corpus, after the descending sort and the cut; the sort is stable, so documents
  with equal scores keep their input order.
\<close>

theorem scored_documents_range_and_order:
  assumes "\<forall>a b. 0 \<le> lib_ratio L a b \<and> lib_ratio L a b \<le> 1"
  shows "(\<forall>results. vector_phase L E query roadmaps limit = Inr (Some results) \<longrightarrow>
            (\<exists>q. generate_embedding E query = Some q
               \<and> (\<forall>d \<in> set results. \<exists>r v. r \<in> set roadmaps
                      \<and> dict_get r (ustr ''embedding'') = VVec v
                      \<and> calculate_cosine_similarity L q v = Inr (similarity d)
                      \<and> d = with_similarity (r, similarity d))
               \<and> (\<exists>scored. vector_scores L q roadmaps = Inr scored
                      \<and> map fst scored = filter (comparable q) roadmaps
                      \<and> results = take limit (sort_desc similarity
                                                (map with_similarity scored)))))
       \<and> (\<forall>results. fuzzy_text_match L query roadmaps limit = Inr results \<longrightarrow>
            (\<forall>d \<in> set results. 0 < binary64 (15 / 100)
                  \<and> binary64 (15 / 100) < similarity d \<and> similarity d \<le> 1)
            \<and> (\<exists>scored. map fst scored = filter (fuzzy_hit L (expand_query L query)) roadmaps
                  \<and> results = take limit (sort_desc similarity_score
                                            (map with_similarity_score scored))))
       \<and> (\<forall>d \<in> set (keyword_search_fallback L query roadmaps limit).
            0 < similarity d \<and> similarity d \<le> 1)
       \<and> (\<forall>k c. \<forall>xs :: pydict list.
            filter (\<lambda>d. k d = c) (sort_desc k xs) = filter (\<lambda>d. k d = c) xs
            \<and> sorted_wrt (\<lambda>a b. k b \<le> k a) (sort_desc k xs))"
proof (intro conjI allI impI)
  fix results assume a: "vector_phase L E query roadmaps limit = Inr (Some results)"
  from vector_phase_scores[OF a] obtain q where
    g: "generate_embedding E query = Some q"
    and c: "\<forall>d \<in> set results. \<exists>r v. r \<in> set roadmaps
                      \<and> dict_get r (ustr ''embedding'') = VVec v
                      \<and> calculate_cosine_similarity L q v = Inr (similarity d)
                      \<and> d = with_similarity (r, similarity d)"
    by blast
  from vector_phase_results[OF a] g obtain scored where
    s: "vector_scores L q roadmaps = Inr scored"
    and r: "results = take limit (sort_desc similarity (map with_similarity scored))"
    by auto
  from vector_scores_total[of L q roadmaps] s
  have "map fst scored = filter (comparable q) roadmaps" by auto
  then show "\<exists>q. generate_embedding E query = Some q
               \<and> (\<forall>d \<in> set results. \<exists>r v. r \<in> set roadmaps
                      \<and> dict_get r (ustr ''embedding'') = VVec v
                      \<and> calculate_cosine_similarity L q v = Inr (similarity d)
                      \<and> d = with_similarity (r, similarity d))
               \<and> (\<exists>scored. vector_scores L q roadmaps = Inr scored
                      \<and> map fst scored = filter (comparable q) roadmaps
                      \<and> results = take limit (sort_desc similarity
                                                (map with_similarity scored)))"
    using g c s r by blast
next
  fix results assume a: "fuzzy_text_match L query roadmaps limit = Inr results"
  show "\<forall>d \<in> set results. 0 < binary64 (15 / 100)
                  \<and> binary64 (15 / 100) < similarity d \<and> similarity d \<le> 1"
    using fuzzy_text_match_bounds[OF assms a] threshold_positive by blast
  from fuzzy_text_match_results[OF a] obtain scored where
    s: "fuzzy_scores L (expand_query L query) roadmaps = Inr scored"
    and r: "results = take limit (sort_desc similarity_score (map with_similarity_score scored))"
    by blast
  from fuzzy_scores_bounds[OF assms s] r
  show "\<exists>scored. map fst scored = filter (fuzzy_hit L (expand_query L query)) roadmaps
                  \<and> results = take limit (sort_desc similarity_score
                                            (map with_similarity_score scored))"
    by blast
next
  show "\<forall>d \<in> set (keyword_search_fallback L query roadmaps limit).
            0 < similarity d \<and> similarity d \<le> 1"
    using keyword_search_bounds by blast
next
  fix k :: "pydict \<Rightarrow> real" and c and xs :: "pydict list"
  show "filter (\<lambda>d. k d = c) (sort_desc k xs) = filter (\<lambda>d. k d = c) xs"
    by (rule sort_desc_stable)
  show "sorted_wrt (\<lambda>a b. k b \<le> k a) (sort_desc k xs)"
    by (rule sort_desc_sorted)
qed

lemma sample_ratio_range:
  "\<forall>a b. 0 \<le> lib_ratio sample_lib a b \<and> lib_ratio sample_lib a b \<le> 1"
  by (simp add: sample_ratio_def sample_lib_def)

lemma unit_embedding:
  "generate_embedding unit_embedder (ustr ''frontend'') = Some (1 # replicate 383 0)"
  by (simp add: generate_embedding_def unit_embedder_def embedding_dim_def ustr_def strip_def
      rstrip_def is_space_def)

lemma sumsq_zeros: "sum_list (map (\<lambda>x. x * x) (replicate n (0 :: real))) = 0"
  by (induction n) auto

lemma dot_zeros:
  "sum_list (map (\<lambda>(x, y). x * y) (zip (replicate n (0 :: real)) (replicate n 0))) = 0"
  by (induction n) auto

lemma cosine_opposite:
  "calculate_cosine_similarity sample_lib (1 # replicate n 0) (- 1 # replicate n 0)
     = Inr (- 1)"
proof -
  have n1: "lib_norm sample_lib (1 # replicate n 0) = 1"
    using sumsq_zeros[of n] by (simp add: sample_lib_def del: map_replicate)
  have n2: "lib_norm sample_lib (- 1 # replicate n 0) = 1"
    using sumsq_zeros[of n] by (simp add: sample_lib_def del: map_replicate)
  have d: "np_dot sample_lib (1 # replicate n 0) (- 1 # replicate n 0) = Inr (- 1)"
    using dot_zeros[of n]
    by (simp add: np_dot_def sample_lib_def del: zip_replicate map_replicate)
  have q: "lib_div sample_lib (- 1) (lib_mul sample_lib 1 1) = - 1"
    by (simp add: sample_lib_def)
  show ?thesis by (simp add: calculate_cosine_similarity_def n1 n2 d q)
qed

lemma opposite_embedding:
  "dict_get opposite_roadmap (ustr ''embedding'') = VVec (- 1 # replicate 383 0)"
  by (simp add: dict_get_def opposite_roadmap_def ustr_def)

lemma vector_scores_opposite:
  "vector_scores sample_lib (1 # replicate 383 0) [opposite_roadmap]
     = Inr [(opposite_roadmap, - 1)]"
  by (simp add: opposite_embedding cosine_opposite)

lemma vector_phase_opposite:
  "vector_phase sample_lib unit_embedder (ustr ''frontend'') [opposite_roadmap] 5
     = Inr (Some [with_similarity (opposite_roadmap, - 1)])"
proof -
  have a: "emb_available unit_embedder" by (simp add: unit_embedder_def)
  show ?thesis
    using a
    by (simp add: vector_phase_def unit_embedding vector_scores_opposite sort_desc_single
          del: vector_scores.simps)
qed

lemma roadmap_fields_sample:
  "roadmap_fields sample_lib sample_roadmap
     = Inr (ustr ''backend'', ustr ''server side development'', ustr ''web'')"
  by (simp add: roadmap_fields_def dict_item_def dict_get_str_def as_str_def sample_roadmap_def
      clean_amp_hyphen_def clean_slash_hyphen_def lower_def lower_cp_def ustr_def replace.simps)

lemma fuzzy_text_match_roadmap:
  "fuzzy_text_match sample_lib (ustr ''backend'') [sample_roadmap] 3
     = Inr [with_similarity_score (sample_roadmap, 1)]"
proof -
  have v: "ustr ''backend'' \<in> set (expand_query sample_lib (ustr ''backend''))"
    unfolding set_expand_query by (simp add: lower_def lower_cp_def ustr_def)
  have n: "clean_amp_hyphen (ustr ''backend'') = ustr ''backend''"
    by (simp add: clean_amp_hyphen_def ustr_def replace.simps)
  have c: "contains (ustr ''backend'' @ ustr '' '' @ ustr ''server side development''
                       @ ustr '' '' @ ustr ''web'') (ustr ''backend'')"
    by (simp add: ustr_def)
  have "\<exists>v \<in> set (expand_query sample_lib (ustr ''backend'')).
          contains (ustr ''backend'' @ ustr '' '' @ ustr ''server side development''
                       @ ustr '' '' @ ustr ''web'') (clean_amp_hyphen v)"
    using v n c by force
  then have "fields_score sample_lib (expand_query sample_lib (ustr ''backend''))
               (ustr ''backend'', ustr ''server side development'', ustr ''web'') = 1"
    using max_variant_score_hit[of sample_lib 0] sample_ratio_range
    by (simp add: fields_score_def Let_def)
  moreover have "binary64 (15 / 100) < 1"
    using binary64_le_power[of "15 / 100" "- 2"] by (simp add: powr_neg_numeral)
  ultimately show ?thesis
    by (simp add: fuzzy_text_match_def Let_def roadmap_fields_sample sort_desc_single)
qed

theorem scored_documents_range_and_order_witness:
  "list_all (\<lambda>p. 0 \<le> lib_ratio sample_lib (fst p) (snd p)
                  \<and> lib_ratio sample_lib (fst p) (snd p) \<le> 1)
     [(ustr ''a'', ustr ''a''), (ustr ''a'', ustr ''b'')]
   \<and> vector_phase sample_lib unit_embedder (ustr ''frontend'') [opposite_roadmap] 5
       = Inr (Some [with_similarity (opposite_roadmap, - 1)])
   \<and> generate_embedding unit_embedder (ustr ''frontend'') = Some (1 # replicate 383 0)
   \<and> dict_get opposite_roadmap (ustr ''embedding'') = VVec (- 1 # replicate 383 0)
   \<and> calculate_cosine_similarity sample_lib (1 # replicate 383 0) (- 1 # replicate 383 0)
       = Inr (similarity (with_similarity (opposite_roadmap, - 1)))
   \<and> fuzzy_text_match sample_lib (ustr ''backend'') [sample_roadmap] 3
       = Inr [with_similarity_score (sample_roadmap, 1)]
   \<and> binary64 (15 / 100) < similarity (with_similarity_score (sample_roadmap, 1))
   \<and> similarity (with_similarity_score (sample_roadmap, 1)) \<le> 1"
proof -
  note t = scored_documents_range_and_order[OF sample_ratio_range]
  from t[of unit_embedder "ustr ''frontend''" "[opposite_roadmap]" 5] vector_phase_opposite
  obtain q where q: "generate_embedding unit_embedder (ustr ''frontend'') = Some q"
    and c: "\<forall>d \<in> set [with_similarity (opposite_roadmap, - 1)].
              \<exists>r v. r \<in> set [opposite_roadmap]
                \<and> dict_get r (ustr ''embedding'') = VVec v
                \<and> calculate_cosine_similarity sample_lib q v = Inr (similarity d)
                \<and> d = with_similarity (r, similarity d)"
    by blast
  from q have qe: "q = 1 # replicate 383 0" using unit_embedding by simp
  from c have "calculate_cosine_similarity sample_lib (1 # replicate 383 0)
                 (- 1 # replicate 383 0)
               = Inr (similarity (with_similarity (opposite_roadmap, - 1)))"
    unfolding qe using opposite_embedding by auto
  moreover
  from t[of _ "ustr ''backend''" "[sample_roadmap]" 3] fuzzy_text_match_roadmap
  have "\<forall>d \<in> set [with_similarity_score (sample_roadmap, 1)].
          0 < binary64 (15 / 100) \<and> binary64 (15 / 100) < similarity d \<and> similarity d \<le> 1"
    by blast
  moreover have "list_all (\<lambda>p. 0 \<le> lib_ratio sample_lib (fst p) (snd p)
                  \<and> lib_ratio sample_lib (fst p) (snd p) \<le> 1)
     [(ustr ''a'', ustr ''a''), (ustr ''a'', ustr ''b'')]"
    using sample_ratio_range by simp
  ultimately show ?thesis
    using vector_phase_opposite fuzzy_text_match_roadmap unit_embedding opposite_embedding
    by simp
qed

text \<open>
  Claim C7 as stated fails for the client-side vector scoring: for a query embedding
  and a candidate embedding that point in opposite directions the returned document
  has the similarity \<open>-1\<close>, which is below 0. (The two embeddings have the entries 0, 1
  and -1, on which binary64 arithmetic is exact.)
\<close>

theorem vector_similarity_counterexample:
  "search_similar_roadmaps sample_lib unit_embedder (ustr ''frontend'') [opposite_roadmap] 5
       False
     = [with_similarity (opposite_roadmap, - 1)]
   \<and> similarity (with_similarity (opposite_roadmap, - 1)) = - 1
   \<and> \<not> (0 \<le> similarity (with_similarity (opposite_roadmap, - 1)))"
  by (simp add: search_similar_roadmaps_def vector_phase_opposite similarity_with_similarity)


section \<open>Properties of the orchestrator\<close>

lemma call_llm_log: "llm_log (snd (call_llm W c st)) = llm_log st @ [c]"
  by (simp add: call_llm_def)

lemma call_llm_saved: "saved (snd (call_llm W c st)) = saved st"
  by (simp add: call_llm_def)

lemma generate_response_body_failure:
  assumes "w_complete W (length (llm_log st))
             (Generate ul (last_two history) context message) = Inl e"
  shows "generate_response_body W message context history ul st =
           (Inr \<lparr>resp_text = llm_error_message ul, resp_confidence = 3 / 10,
                 resp_tokens_used = 0\<rparr>,
            st\<lparr>llm_log := llm_log st @ [Generate ul (last_two history) context message]\<rparr>)"
  using assms by (simp add: generate_response_body_def call_llm_def)

lemma generate_response_body_returns:
  "\<exists>r. generate_response_body W message context history ul st =
          (Inr r, st\<lparr>llm_log := llm_log st @ [Generate ul (last_two history) context message]\<rparr>)"
  by (cases "w_complete W (length (llm_log st)) (Generate ul (last_two history) context message)")
     (auto simp: generate_response_body_def call_llm_def Let_def)

lemma with_retry_returns: "f st = (Inr r, st') \<Longrightarrow> with_retry n f st = (Inr r, st')"
  by (cases n) simp_all

lemma generate_response_failure:
  assumes "w_complete W (length (llm_log st))
             (Generate ul (last_two history) context message) = Inl e"
  shows "generate_response W message context history ul st =
           (Inr \<lparr>resp_text = llm_error_message ul, resp_confidence = 3 / 10,
                 resp_tokens_used = 0\<rparr>,
            st\<lparr>llm_log := llm_log st @ [Generate ul (last_two history) context message]\<rparr>)"
  unfolding generate_response_def
  by (rule with_retry_returns) (rule generate_response_body_failure[OF assms])

lemma contextualize_effects:
  "saved (snd (contextualize_query W message history st)) = saved st
   \<and> llm_log (snd (contextualize_query W message history st)) =
       llm_log st @ (if history = [] then [] else [Contextualize message (last_two history)])"
  by (cases "w_complete W (length (llm_log st)) (Contextualize message (last_two history))")
     (auto simp: contextualize_query_def call_llm_def)

lemma prepare_effects:
  assumes "prepare W message session_id preferred_language st = (p, st1)"
  shows "saved st1 = saved st
         \<and> llm_log st1 = llm_log st @ (if p_history p = [] then []
                                       else [Contextualize message (last_two (p_history p))])"
proof -
  let ?sid = "case session_id of None \<Rightarrow> w_uuid W | Some s \<Rightarrow> if s = [] then w_uuid W else s"
  let ?h = "get_conversation_history W ?sid 8"
  from assms have h: "p_history p = ?h"
    and st1: "st1 = snd (if ?h \<noteq> [] then contextualize_query W message ?h st else (message, st))"
    by (auto simp: prepare_def Let_def)
  show ?thesis
    using contextualize_effects[of W message ?h st] by (simp add: h st1)
qed

lemma save_conversation_log:
  "llm_log (save_conversation W sid m b l st) = llm_log st"
  by (simp add: save_conversation_def Let_def)

lemma process_message_generate_failure:
  assumes "prepare W message session_id preferred_language st = (p, st1)"
    and "retrieve W (p_refined_message p) (p_user_language p) = Inr (Some context)"
    and "w_complete W (length (llm_log st1))
           (Generate (p_user_language p) (last_two (p_history p)) context message) = Inl e"
  shows "process_message W message session_id preferred_language st =
           (\<lparr>r_response = llm_error_message (p_user_language p),
             r_session_id = p_session_id p,
             r_user_language = lang_value (p_user_language p),
             r_detected_language = Some (lang_value (p_detected_lang p)),
             r_language_confidence = Some (p_language_confidence p),
             r_response_language = lang_value (p_user_language p),
             r_is_egyptian = (p_user_language p = ARABIC_EGYPTIAN),
             r_confidence = 3 / 10\<rparr>,
            save_conversation W (p_session_id p) message (llm_error_message (p_user_language p))
              (lang_value (p_user_language p))
              (st1\<lparr>llm_log := llm_log st1 @
                     [Generate (p_user_language p) (last_two (p_history p)) context message]\<rparr>))"
  using assms(1,2) generate_response_failure[OF assms(3)]
  by (simp add: process_message_def)

lemma no_roadmap_intent: "detect_roadmap_request sample_lib (ustr ''what is backend'') = None"
  by (simp add: detect_roadmap_request_def roadmap_keywords_def re_search_def ustr_def lower_def
      lower_cp_def is_space_def Let_def)

lemma roadmap_intent:
  "detect_roadmap_request sample_lib (ustr ''backend roadmap'')
     = Some (ustr ''backend roadmap'')"
  by (simp add: detect_roadmap_request_def roadmap_keywords_def re_search_def ustr_def lower_def
      lower_cp_def is_space_def Let_def)

lemma prefer_english: "determine_response_language d (ustr ''en'') = ENGLISH"
  by (simp add: determine_response_language_def language_of_value_def ustr_def)

lemma failing_prepare:
  "prepare failing_world (ustr ''what is backend'') None (ustr ''en'') no_effects =
     (\<lparr>p_session_id = ustr ''session-1'',
       p_detected_lang = fst (detect_with_confidence sample_lib (ustr ''what is backend'')),
       p_language_confidence = snd (detect_with_confidence sample_lib (ustr ''what is backend'')),
       p_user_language = ENGLISH,
       p_history = [],
       p_refined_message = ustr ''what is backend''\<rparr>,
      no_effects)"
  by (simp add: prepare_def failing_world_def get_conversation_history_def prefer_english Let_def)

lemma failing_retrieve:
  "retrieve failing_world (ustr ''what is backend'') ENGLISH =
     Inr (Some (search_faqs sample_lib offline_embedder sample_store (ustr ''what is backend'')
                  (ustr ''en'')))"
  by (simp add: retrieve_def no_roadmap_intent failing_world_def)

lemma failing_complete: "w_complete failing_world n c = Inl RateLimitError"
  by (simp add: failing_world_def)

lemma failing_insert: "w_insert failing_world t"
  by (simp add: failing_world_def)

lemma flaky_prepare:
  "prepare flaky_world (ustr ''what is backend'') None (ustr ''en'') no_effects =
     (\<lparr>p_session_id = ustr ''session-1'',
       p_detected_lang = fst (detect_with_confidence sample_lib (ustr ''what is backend'')),
       p_language_confidence = snd (detect_with_confidence sample_lib (ustr ''what is backend'')),
       p_user_language = ENGLISH,
       p_history = [],
       p_refined_message = ustr ''what is backend''\<rparr>,
      no_effects)"
  by (simp add: prepare_def flaky_world_def failing_world_def get_conversation_history_def
      prefer_english Let_def)

lemma flaky_retrieve:
  "retrieve flaky_world (ustr ''what is backend'') ENGLISH =
     Inr (Some (search_faqs sample_lib offline_embedder sample_store (ustr ''what is backend'')
                  (ustr ''en'')))"
  by (simp add: retrieve_def no_roadmap_intent flaky_world_def failing_world_def)

lemma flaky_complete:
  "w_complete flaky_world 0 c = Inl RateLimitError"
  "w_complete flaky_world (Suc n) c = Inr (ustr ''Backend is the server side.'', 12)"
  by (simp_all add: flaky_world_def)

lemma flaky_insert: "w_insert flaky_world t"
  by (simp add: flaky_world_def failing_world_def)

lemma retry_of_the_call:
  "with_retry 3 (call_llm flaky_world c) no_effects =
     (Inr (ustr ''Backend is the server side.'', 12), \<lparr>llm_log = [c, c], saved = []\<rparr>)"
proof -
  have s3: "(3::nat) = Suc (Suc (Suc 0))" by simp
  show ?thesis
    unfolding s3 by (simp add: call_llm_def no_effects_def flaky_complete)
qed

text \<open>
  The decorator never sees an exception: the body returns in every case, so for every
  number of attempts \<open>generate_response\<close> is its body, run once.
\<close>

lemma retry_is_inert:
  "with_retry n (generate_response_body W message context history ul) st
     = (case generate_response_body W message context history ul st of
          (Inr r, st') \<Rightarrow> (Inr r, st') | (Inl e, st') \<Rightarrow> (Inl (Reraised e), st'))
   \<and> (\<exists>r. generate_response W message context history ul st =
             (Inr r, st\<lparr>llm_log := llm_log st
                                      @ [Generate ul (last_two history) context message]\<rparr>))"
proof -
  obtain r where r: "generate_response_body W message context history ul st =
      (Inr r, st\<lparr>llm_log := llm_log st @ [Generate ul (last_two history) context message]\<rparr>)"
    using generate_response_body_returns by blast
  show ?thesis
    using with_retry_returns[where f = "generate_response_body W message context history ul"
        and st = st, OF r]
    by (simp add: r generate_response_def)
qed

text \<open>
  Claim C3, at a rate limit. The message \<open>what is backend\<close> is sent in a new session,
  with English preferred, and the first call of the completion model raises
  \<open>RateLimitError\<close>, a transient error. The decorator around the bare call would call
  again, and in \<open>flaky_world\<close> the second call answers. \<open>generate_response\<close> as it is
  written makes one call: its own \<open>except Exception\<close> takes the error before the
  decorator can see it. The request is answered with the error text of the completion
  service and the confidence 0.3, and the user turn and this answer are persisted. It
  is the same where every call fails (\<open>failing_world\<close>): one call, not three, confidence
  0.3, not 0.0, and two turns persisted.
\<close>

theorem rate_limit_is_not_retried:
  "transient RateLimitError
   \<and> w_complete flaky_world 0
       (Generate ENGLISH []
          (search_faqs sample_lib offline_embedder sample_store (ustr ''what is backend'')
             (ustr ''en''))
          (ustr ''what is backend'')) = Inl RateLimitError
   \<and> with_retry 3
       (call_llm flaky_world
          (Generate ENGLISH []
             (search_faqs sample_lib offline_embedder sample_store (ustr ''what is backend'')
                (ustr ''en''))
             (ustr ''what is backend'')))
       no_effects
       = (Inr (ustr ''Backend is the server side.'', 12),
          \<lparr>llm_log =
             [Generate ENGLISH []
                (search_faqs sample_lib offline_embedder sample_store (ustr ''what is backend'')
                   (ustr ''en''))
                (ustr ''what is backend''),
              Generate ENGLISH []
                (search_faqs sample_lib offline_embedder sample_store (ustr ''what is backend'')
                   (ustr ''en''))
                (ustr ''what is backend'')],
           saved = []\<rparr>)
   \<and> r_response (fst (process_message flaky_world (ustr ''what is backend'') None
                         (ustr ''en'') no_effects)) = ustr ''Sorry, an error occurred.''
   \<and> r_confidence (fst (process_message flaky_world (ustr ''what is backend'') None
                           (ustr ''en'') no_effects)) = 3 / 10
   \<and> llm_log (snd (process_message flaky_world (ustr ''what is backend'') None
                      (ustr ''en'') no_effects))
       = [Generate ENGLISH []
            (search_faqs sample_lib offline_embedder sample_store (ustr ''what is backend'')
               (ustr ''en''))
            (ustr ''what is backend'')]
   \<and> saved (snd (process_message flaky_world (ustr ''what is backend'') None
                    (ustr ''en'') no_effects))
       = [\<lparr>s_session_id = ustr ''session-1'', s_role = ustr ''user'',
           s_content = ustr ''what is backend'', s_language = ustr ''en''\<rparr>,
          \<lparr>s_session_id = ustr ''session-1'', s_role = ustr ''assistant'',
           s_content = ustr ''Sorry, an error occurred.'', s_language = ustr ''en''\<rparr>]
   \<and> r_confidence (fst (process_message failing_world (ustr ''what is backend'') None
                           (ustr ''en'') no_effects)) = 3 / 10
   \<and> length (llm_log (snd (process_message failing_world (ustr ''what is backend'') None
                              (ustr ''en'') no_effects))) = 1
   \<and> length (saved (snd (process_message failing_world (ustr ''what is backend'') None
                            (ustr ''en'') no_effects))) = 2"
proof -
  let ?p = "\<lparr>p_session_id = ustr ''session-1'',
       p_detected_lang = fst (detect_with_confidence sample_lib (ustr ''what is backend'')),
       p_language_confidence = snd (detect_with_confidence sample_lib (ustr ''what is backend'')),
       p_user_language = ENGLISH,
       p_history = [],
       p_refined_message = ustr ''what is backend''\<rparr>"
  let ?ctx = "search_faqs sample_lib offline_embedder sample_store (ustr ''what is backend'')
                (ustr ''en'')"
  have r1: "retrieve flaky_world (p_refined_message ?p) (p_user_language ?p) = Inr (Some ?ctx)"
    using flaky_retrieve by simp
  have r2: "retrieve failing_world (p_refined_message ?p) (p_user_language ?p)
              = Inr (Some ?ctx)"
    using failing_retrieve by simp
  have c1: "w_complete flaky_world (length (llm_log no_effects))
              (Generate (p_user_language ?p) (last_two (p_history ?p)) ?ctx
                 (ustr ''what is backend'')) = Inl RateLimitError"
    by (simp add: no_effects_def flaky_complete)
  have f1: "process_message flaky_world (ustr ''what is backend'') None (ustr ''en'') no_effects
      = (\<lparr>r_response = llm_error_message (p_user_language ?p),
             r_session_id = p_session_id ?p,
             r_user_language = lang_value (p_user_language ?p),
             r_detected_language = Some (lang_value (p_detected_lang ?p)),
             r_language_confidence = Some (p_language_confidence ?p),
             r_response_language = lang_value (p_user_language ?p),
             r_is_egyptian = (p_user_language ?p = ARABIC_EGYPTIAN),
             r_confidence = 3 / 10\<rparr>,
            save_conversation flaky_world (p_session_id ?p) (ustr ''what is backend'')
              (llm_error_message (p_user_language ?p)) (lang_value (p_user_language ?p))
              (no_effects\<lparr>llm_log := llm_log no_effects @
                     [Generate (p_user_language ?p) (last_two (p_history ?p)) ?ctx
                        (ustr ''what is backend'')]\<rparr>))"
    by (rule process_message_generate_failure[OF flaky_prepare r1 c1])
  have f2: "process_message failing_world (ustr ''what is backend'') None (ustr ''en'') no_effects
      = (\<lparr>r_response = llm_error_message (p_user_language ?p),
             r_session_id = p_session_id ?p,
             r_user_language = lang_value (p_user_language ?p),
             r_detected_language = Some (lang_value (p_detected_lang ?p)),
             r_language_confidence = Some (p_language_confidence ?p),
             r_response_language = lang_value (p_user_language ?p),
             r_is_egyptian = (p_user_language ?p = ARABIC_EGYPTIAN),
             r_confidence = 3 / 10\<rparr>,
            save_conversation failing_world (p_session_id ?p) (ustr ''what is backend'')
              (llm_error_message (p_user_language ?p)) (lang_value (p_user_language ?p))
              (no_effects\<lparr>llm_log := llm_log no_effects @
                     [Generate (p_user_language ?p) (last_two (p_history ?p)) ?ctx
                        (ustr ''what is backend'')]\<rparr>))"
    by (rule process_message_generate_failure[OF failing_prepare r2 failing_complete])
  have l: "last_two ([] :: turn list) = []" by (simp add: last_two_def)
  show ?thesis
    unfolding f1 f2
    using flaky_insert failing_insert
    by (simp add: save_conversation_def Let_def no_effects_def flaky_complete l
          retry_of_the_call[unfolded no_effects_def])
qed

lemma process_message_no_roadmaps:
  assumes "prepare W message session_id preferred_language st = (p, st1)"
    and "detect_roadmap_request (w_lib W) (p_refined_message p) \<noteq> None"
    and "search_roadmaps (w_lib W) (w_embedder W) (w_store W) (p_refined_message p) 3 True = []"
  shows "process_message W message session_id preferred_language st =
           (generate_fallback_response (p_user_language p) (p_session_id p)
              (lang_value (p_detected_lang p)), st1)"
proof -
  have "retrieve W (p_refined_message p) (p_user_language p) = Inr None"
    using assms(2,3) by (auto simp: retrieve_def Let_def)
  then show ?thesis using assms(1) by (simp add: process_message_def)
qed

text \<open>
  Claim C8, as the code has it. For a request whose contextualised message matches a
  roadmap pattern and for which the roadmap search returns nothing, \<open>process_message\<close>
  returns the fallback response: the fixed text for the resolved language (the
  Egyptian text when the language has none), the confidence 0.8. Nothing is persisted,
  and the GENERATE stage is skipped: the only call to the completion model that the
  request can have made is the one of \<open>contextualize_query\<close>, made when the session
  has history.
\<close>

theorem no_roadmap_gives_fallback:
  assumes "prepare W message session_id preferred_language st = (p, st1)"
    and "detect_roadmap_request (w_lib W) (p_refined_message p) \<noteq> None"
    and "search_roadmaps (w_lib W) (w_embedder W) (w_store W) (p_refined_message p) 3 True = []"
  shows "process_message W message session_id preferred_language st =
           (generate_fallback_response (p_user_language p) (p_session_id p)
              (lang_value (p_detected_lang p)), st1)
       \<and> r_response (fst (process_message W message session_id preferred_language st))
           = fallback_message (p_user_language p)
       \<and> r_confidence (fst (process_message W message session_id preferred_language st))
           = 8 / 10
       \<and> saved (snd (process_message W message session_id preferred_language st)) = saved st
       \<and> llm_log (snd (process_message W message session_id preferred_language st))
           = llm_log st @ (if p_history p = [] then []
                           else [Contextualize message (last_two (p_history p))])"
  using process_message_no_roadmaps[OF assms] prepare_effects[OF assms(1)]
  by (simp add: generate_fallback_response_def)


lemma history_prepare:
  "prepare history_world (ustr ''it'') (Some (ustr ''abc'')) (ustr ''en'') no_effects =
     (\<lparr>p_session_id = ustr ''abc'',
       p_detected_lang = fst (detect_with_confidence sample_lib (ustr ''it'')),
       p_language_confidence = snd (detect_with_confidence sample_lib (ustr ''it'')),
       p_user_language = ENGLISH,
       p_history = [\<lparr>t_role = ustr ''user'', t_content = ustr ''backend''\<rparr>],
       p_refined_message = ustr ''backend roadmap''\<rparr>,
      \<lparr>llm_log = [Contextualize (ustr ''it'')
                     [\<lparr>t_role = ustr ''user'', t_content = ustr ''backend''\<rparr>]],
       saved = []\<rparr>)"
proof -
  have s: "ustr ''abc'' \<noteq> []" by (simp add: ustr_def)
  have r: "replace [39] [] (replace [34] [] (strip (ustr ''backend roadmap'')))
           = ustr ''backend roadmap''"
    by (simp add: strip_def rstrip_def is_space_def ustr_def replace.simps)
  show ?thesis
    using s
    by (simp add: prepare_def history_world_def get_conversation_history_def prefer_english
        Let_def contextualize_query_def call_llm_def last_two_def no_effects_def r)
qed

lemma history_lib: "w_lib history_world = sample_lib"
  by (simp add: history_world_def)

lemma history_search:
  "search_roadmaps (w_lib history_world) (w_embedder history_world) (w_store history_world)
     (ustr ''backend roadmap'') 3 True = []"
proof -
  have "search_roadmaps sample_lib offline_embedder empty_store (ustr ''backend roadmap'') 3 True
        = fuzzy_search sample_lib offline_embedder empty_store (ustr ''backend roadmap'') 3"
    using vector_search_unavailable[OF offline_no_embedding]
    by (simp add: search_roadmaps_def)
  also have "\<dots> = []"
    by (simp add: fuzzy_search_def empty_store_def)
  finally show ?thesis by (simp add: history_world_def)
qed

theorem no_roadmap_gives_fallback_witness:
  "detect_roadmap_request sample_lib (ustr ''backend roadmap'') \<noteq> None
   \<and> r_response (fst (process_message history_world (ustr ''it'') (Some (ustr ''abc''))
                         (ustr ''en'') no_effects))
       = ustr ''Sorry, no roadmap available for this field right now.''
   \<and> r_confidence (fst (process_message history_world (ustr ''it'') (Some (ustr ''abc''))
                           (ustr ''en'') no_effects)) = 8 / 10
   \<and> saved (snd (process_message history_world (ustr ''it'') (Some (ustr ''abc''))
                    (ustr ''en'') no_effects)) = []"
proof -
  have d: "detect_roadmap_request sample_lib (ustr ''backend roadmap'') \<noteq> None"
    by (simp add: roadmap_intent)
  from no_roadmap_gives_fallback[OF history_prepare] d history_search
  show ?thesis by (simp add: no_effects_def generate_fallback_response_def history_lib)
qed

text \<open>
  Claim C8 as stated fails on the last part. In a session with history the query is
  contextualised before the intent is classified, and that is a call to the completion
  model: the request gets the fallback response with confidence 0.8, and the log of the
  calls to the completion model holds one entry.
\<close>

theorem contextualizer_call_counterexample:
  "detect_roadmap_request sample_lib (ustr ''backend roadmap'') \<noteq> None
   \<and> search_roadmaps (w_lib history_world) (w_embedder history_world) (w_store history_world)
       (ustr ''backend roadmap'') 3 True = []
   \<and> process_message history_world (ustr ''it'') (Some (ustr ''abc'')) (ustr ''en'') no_effects
       = (generate_fallback_response ENGLISH (ustr ''abc'')
            (lang_value (fst (detect_with_confidence sample_lib (ustr ''it'')))),
          \<lparr>llm_log = [Contextualize (ustr ''it'')
                         [\<lparr>t_role = ustr ''user'', t_content = ustr ''backend''\<rparr>]],
           saved = []\<rparr>)
   \<and> llm_log (snd (process_message history_world (ustr ''it'') (Some (ustr ''abc''))
                      (ustr ''en'') no_effects)) \<noteq> []"
proof -
  have d: "detect_roadmap_request sample_lib (ustr ''backend roadmap'') \<noteq> None"
    by (simp add: roadmap_intent)
  from process_message_no_roadmaps[OF history_prepare] d history_search
  show ?thesis by (simp add: history_lib)
qed

end
